theory Spec2Isabelle
  imports Complex_Main
begin

section \<open>Numbers\<close>

text \<open>
  The program computes with JavaScript numbers (IEEE doubles). The embedding takes a
  finite number to be a \<^typ>\<open>real\<close>: rounding and overflow are abstracted. Where the code
  can produce or test a non-finite value (a division by zero, \<^verbatim>\<open>isFinite\<close>, a read of
  \<^verbatim>\<open>undefined\<close> from an array) the value is a \<open>jsnum\<close>, whose \<open>None\<close> stands for
  \<^verbatim>\<open>NaN\<close>, \<^verbatim>\<open>Infinity\<close> and \<^verbatim>\<open>-Infinity\<close>.
\<close>

type_synonym jsnum = "real option"

definition jdiv :: "real \<Rightarrow> real \<Rightarrow> jsnum" where
  "jdiv a b = (if b = 0 then None else Some (a / b))"

definition jsub :: "jsnum \<Rightarrow> jsnum \<Rightarrow> jsnum" where
  "jsub a b = (case (a, b) of (Some u, Some v) \<Rightarrow> Some (u - v) | _ \<Rightarrow> None)"

definition isFinite :: "jsnum \<Rightarrow> bool" where
  "isFinite v = (v \<noteq> None)"

text \<open>\<^verbatim>\<open>THREE.MathUtils.lerp\<close> and \<^verbatim>\<open>THREE.MathUtils.clamp\<close>, as three.js defines them.\<close>

definition lerp :: "real \<Rightarrow> real \<Rightarrow> real \<Rightarrow> real" where
  "lerp a b t = (1 - t) * a + t * b"

definition clamp :: "real \<Rightarrow> real \<Rightarrow> real \<Rightarrow> real" where
  "clamp v lo hi = max lo (min hi v)"

text \<open>
  \<^verbatim>\<open>Math.pow\<close> on a base that is not negative: \<open>pow(0, y)\<close> is 0 for a positive exponent,
  1 for the exponent 0 and \<^verbatim>\<open>Infinity\<close> for a negative one.
\<close>

definition jpow :: "real \<Rightarrow> real \<Rightarrow> jsnum" where
  "jpow b y =
     (if b = 0 then (if 0 < y then Some 0 else if y = 0 then Some 1 else None)
      else if 0 < b then Some (b powr y)
      else None)"

section \<open>Configuration\<close>

text \<open>\<^verbatim>\<open>VISUAL_CONFIG\<close>: the groups and fields that the simulation core reads.\<close>

record terrain_config =
  WIDTH :: real
  DEPTH :: real
  GLOBAL_SCALE :: real
  HEIGHT_MULTIPLIER :: real
  SEED :: real
  WIREFRAME_OPACITY :: real

record waves_config =
  FIRST_WAVE_DELAY :: real
  PARTICLES_PER_WAVE :: int
  BATCH_SIZE :: int
  MAX_WAVE_INTERVAL :: real
  SWELL_TIME :: real
  MAX_SWELL_OPACITY :: real
  FLASH_DECAY :: real
  VELOCITY_THRESHOLD :: real
  FADE_OUT_SPEED :: real
  BUFFER_TIME :: real
  MIN_SPAWN_HEIGHT :: real

record physics_config =
  LEARNING_RATE :: real
  MOMENTUM :: real
  MAX_AGE :: nat
  GRADIENT_MAP_RESOLUTION :: nat

record particles_config =
  HEIGHT_OFFSET :: real
  LOSS_SCALE_SENSITIVITY :: real
  MIN_LOSS_SCALE :: real
  MAX_LOSS_SCALE :: real
  REVERSE_SCALING :: bool
  SCALE_DISTRIBUTION_POWER :: real

record config =
  TERRAIN :: terrain_config
  WAVES :: waves_config
  PHYSICS :: physics_config
  PARTICLES :: particles_config

definition VISUAL_CONFIG :: config where
  "VISUAL_CONFIG =
     \<lparr> TERRAIN = \<lparr> WIDTH = 2000, DEPTH = 2000, GLOBAL_SCALE = 0.008,
                   HEIGHT_MULTIPLIER = 3.0, SEED = 5520.35550386228,
                   WIREFRAME_OPACITY = 0.07 \<rparr>,
       WAVES = \<lparr> FIRST_WAVE_DELAY = 1.0, PARTICLES_PER_WAVE = 1000, BATCH_SIZE = 20,
                 MAX_WAVE_INTERVAL = 15.0, SWELL_TIME = 2.0, MAX_SWELL_OPACITY = 0.22,
                 FLASH_DECAY = 0.15, VELOCITY_THRESHOLD = 0.001, FADE_OUT_SPEED = 0.02,
                 BUFFER_TIME = 1.0, MIN_SPAWN_HEIGHT = 0.0 \<rparr>,
       PHYSICS = \<lparr> LEARNING_RATE = 0.002, MOMENTUM = 0.92, MAX_AGE = 1200,
                   GRADIENT_MAP_RESOLUTION = 512 \<rparr>,
       PARTICLES = \<lparr> HEIGHT_OFFSET = 5.0, LOSS_SCALE_SENSITIVITY = 3.0,
                     MIN_LOSS_SCALE = 1.0, MAX_LOSS_SCALE = 20.0, REVERSE_SCALING = False,
                     SCALE_DISTRIBUTION_POWER = 2.5 \<rparr> \<rparr>"

section \<open>Height field: lossFunction\<close>

text \<open>
  The sine-based hash of a lattice point, the smoothed value noise over the four lattice
  corners, and the five ridged octaves of \<^verbatim>\<open>lossFunction\<close>. The functions read
  \<^verbatim>\<open>GLOBAL_SCALE\<close>, \<^verbatim>\<open>HEIGHT_MULTIPLIER\<close> and \<^verbatim>\<open>SEED\<close> of the terrain group and nothing else:
  no stored state, no random source.
\<close>

definition hash :: "config \<Rightarrow> real \<Rightarrow> real \<Rightarrow> real" where
  "hash c qx qz =
     (let v = sin ((qx + SEED (TERRAIN c)) * 12.9898 + (qz + SEED (TERRAIN c)) * 78.233)
                * 43758.5453123
      in v - of_int \<lfloor>v\<rfloor>)"

definition noise :: "config \<Rightarrow> real \<Rightarrow> real \<Rightarrow> real" where
  "noise c tx tz =
     (let ix = of_int \<lfloor>tx\<rfloor>;
          iz = of_int \<lfloor>tz\<rfloor>;
          fx = tx - ix;
          fz = tz - iz;
          a = hash c ix iz;
          b = hash c (ix + 1) iz;
          cc = hash c ix (iz + 1);
          d = hash c (ix + 1) (iz + 1);
          ux = fx * fx * (3 - 2 * fx);
          uz = fz * fz * (3 - 2 * fz)
      in lerp a b ux + (cc - a) * uz * (1 - ux) + (d - b) * ux * uz)"

text \<open>One octave: the ridged remapping \<open>1 - |2n - 1|\<close> raised to the power 3.\<close>

definition ridged :: "real \<Rightarrow> real" where
  "ridged n = (1 - \<bar>n * 2 - 1\<bar>) ^ 3"

text \<open>
  The loop \<^verbatim>\<open>for (let i = 0; i < 5; i++)\<close>; the first argument counts the iterations
  that remain.
\<close>

fun fbm :: "nat \<Rightarrow> config \<Rightarrow> real \<Rightarrow> real \<Rightarrow> real \<Rightarrow> real \<Rightarrow> real \<Rightarrow> real" where
  "fbm 0 c xq zq h amp freq = h"
| "fbm (Suc k) c xq zq h amp freq =
     fbm k c xq zq (h + ridged (noise c (xq * freq) (zq * freq)) * amp)
       (amp * 0.55) (freq * 2.1)"

definition lossFunction :: "config \<Rightarrow> real \<Rightarrow> real \<Rightarrow> real" where
  "lossFunction c xq zq =
     (fbm 5 c xq zq 0 28.0 (GLOBAL_SCALE (TERRAIN c) * 0.5) - 12)
       * HEIGHT_MULTIPLIER (TERRAIN c)"

section \<open>Gradient field\<close>

text \<open>\<^verbatim>\<open>GRADIENT_MAP_CONFIG\<close>.\<close>

definition RESOLUTION :: "config \<Rightarrow> nat" where
  "RESOLUTION c = GRADIENT_MAP_RESOLUTION (PHYSICS c)"

definition MIN_X :: "config \<Rightarrow> real" where
  "MIN_X c = - WIDTH (TERRAIN c) / 2"

definition MAX_X :: "config \<Rightarrow> real" where
  "MAX_X c = WIDTH (TERRAIN c) / 2"

definition MIN_Z :: "config \<Rightarrow> real" where
  "MIN_Z c = - DEPTH (TERRAIN c) / 2"

definition MAX_Z :: "config \<Rightarrow> real" where
  "MAX_Z c = DEPTH (TERRAIN c) / 2"

record gradmap =
  dxMap :: "real list"
  dzMap :: "real list"
  stepX :: jsnum
  stepZ :: jsnum

subsection \<open>buildGradientMap\<close>

text \<open>
  The step of the build, \<open>h = 0.05\<close>. The coordinate of a grid line is
  \<open>MIN + i * step\<close>; with a resolution of 1 the step is a division by zero and the
  coordinate is not finite. The elevation is a parameter of the build so that the
  \<^verbatim>\<open>isFinite\<close> guard has something to guard against; \<open>buildGradientMap\<close> is the build
  over \<open>lossFunction\<close>. The arrays are \<^verbatim>\<open>Float32Array\<close>s, zero when created; the rounding
  of a stored value to single precision is abstracted.
\<close>

definition h_step :: real where
  "h_step = 0.05"

definition gridLine :: "real \<Rightarrow> jsnum \<Rightarrow> nat \<Rightarrow> jsnum" where
  "gridLine lo step i = (case step of None \<Rightarrow> None | Some s \<Rightarrow> Some (lo + real i * s))"

definition elevAt :: "(real \<Rightarrow> real \<Rightarrow> jsnum) \<Rightarrow> jsnum \<Rightarrow> jsnum \<Rightarrow> jsnum" where
  "elevAt elev xo zo = (case (xo, zo) of (Some xq, Some zq) \<Rightarrow> elev xq zq | _ \<Rightarrow> None)"

definition centralDx :: "(real \<Rightarrow> real \<Rightarrow> jsnum) \<Rightarrow> jsnum \<Rightarrow> jsnum \<Rightarrow> jsnum" where
  "centralDx elev xo zo =
     map_option (\<lambda>d. d / (2 * h_step))
       (jsub (elevAt elev (map_option (\<lambda>v. v + h_step) xo) zo)
             (elevAt elev (map_option (\<lambda>v. v - h_step) xo) zo))"

definition centralDz :: "(real \<Rightarrow> real \<Rightarrow> jsnum) \<Rightarrow> jsnum \<Rightarrow> jsnum \<Rightarrow> jsnum" where
  "centralDz elev xo zo =
     map_option (\<lambda>d. d / (2 * h_step))
       (jsub (elevAt elev xo (map_option (\<lambda>v. v + h_step) zo))
             (elevAt elev xo (map_option (\<lambda>v. v - h_step) zo)))"

definition finiteOrZero :: "jsnum \<Rightarrow> real" where
  "finiteOrZero v = (if isFinite v then (case v of Some r \<Rightarrow> r | None \<Rightarrow> 0) else 0)"

definition gridStepX :: "config \<Rightarrow> jsnum" where
  "gridStepX c = jdiv (MAX_X c - MIN_X c) (real (RESOLUTION c) - 1)"

definition gridStepZ :: "config \<Rightarrow> jsnum" where
  "gridStepZ c = jdiv (MAX_Z c - MIN_Z c) (real (RESOLUTION c) - 1)"

text \<open>The body of the inner loop: one cell \<open>(ix, iz)\<close>, written at \<open>iz * RESOLUTION + ix\<close>.\<close>

definition buildCell ::
  "(real \<Rightarrow> real \<Rightarrow> jsnum) \<Rightarrow> config \<Rightarrow> nat \<Rightarrow> nat \<Rightarrow> real list \<times> real list
     \<Rightarrow> real list \<times> real list" where
  "buildCell elev c iz ix maps =
     (let zo = gridLine (MIN_Z c) (gridStepZ c) iz;
          xo = gridLine (MIN_X c) (gridStepX c) ix;
          idx = iz * RESOLUTION c + ix;
          dx = centralDx elev xo zo;
          dz = centralDz elev xo zo
      in ((fst maps)[idx := finiteOrZero dx], (snd maps)[idx := finiteOrZero dz]))"

text \<open>The values that the build stores for the cell \<open>(ix, iz)\<close>.\<close>

definition storedDx :: "(real \<Rightarrow> real \<Rightarrow> jsnum) \<Rightarrow> config \<Rightarrow> nat \<Rightarrow> nat \<Rightarrow> real" where
  "storedDx elev c iz ix =
     finiteOrZero (centralDx elev (gridLine (MIN_X c) (gridStepX c) ix)
                                  (gridLine (MIN_Z c) (gridStepZ c) iz))"

definition storedDz :: "(real \<Rightarrow> real \<Rightarrow> jsnum) \<Rightarrow> config \<Rightarrow> nat \<Rightarrow> nat \<Rightarrow> real" where
  "storedDz elev c iz ix =
     finiteOrZero (centralDz elev (gridLine (MIN_X c) (gridStepX c) ix)
                                  (gridLine (MIN_Z c) (gridStepZ c) iz))"

definition buildRow ::
  "(real \<Rightarrow> real \<Rightarrow> jsnum) \<Rightarrow> config \<Rightarrow> nat \<Rightarrow> real list \<times> real list
     \<Rightarrow> real list \<times> real list" where
  "buildRow elev c iz maps = fold (buildCell elev c iz) [0..<RESOLUTION c] maps"

definition buildGradientMapWith :: "(real \<Rightarrow> real \<Rightarrow> jsnum) \<Rightarrow> config \<Rightarrow> gradmap" where
  "buildGradientMapWith elev c =
     (let maps = fold (buildRow elev c) [0..<RESOLUTION c]
                   (replicate (RESOLUTION c * RESOLUTION c) 0,
                    replicate (RESOLUTION c * RESOLUTION c) 0)
      in \<lparr> dxMap = fst maps, dzMap = snd maps,
           stepX = gridStepX c, stepZ = gridStepZ c \<rparr>)"

definition buildGradientMap :: "config \<Rightarrow> gradmap" where
  "buildGradientMap c = buildGradientMapWith (\<lambda>xq zq. Some (lossFunction c xq zq)) c"

subsection \<open>gradient\<close>

text \<open>
  A read of a typed array: an index outside the array gives \<^verbatim>\<open>undefined\<close>, which the
  arithmetic that follows turns into \<^verbatim>\<open>NaN\<close>.
\<close>

definition aget :: "real list \<Rightarrow> int \<Rightarrow> jsnum" where
  "aget a i = (if 0 \<le> i \<and> i < int (length a) then Some (a ! nat i) else None)"

text \<open>World coordinate to grid coordinate, for one axis.\<close>

definition toGrid :: "config \<Rightarrow> real \<Rightarrow> real \<Rightarrow> real \<Rightarrow> jsnum" where
  "toGrid c lo hi v = map_option (\<lambda>q. q * (real (RESOLUTION c) - 1)) (jdiv (v - lo) (hi - lo))"

text \<open>The lower cell index of the 2x2 neighbourhood, and the fractional distance.\<close>

definition cell0 :: "config \<Rightarrow> real \<Rightarrow> int" where
  "cell0 c g = \<lfloor>clamp g 0 (real (RESOLUTION c) - 2)\<rfloor>"

definition cellFrac :: "config \<Rightarrow> real \<Rightarrow> real" where
  "cellFrac c g = g - of_int (cell0 c g)"

definition bilinear :: "real \<Rightarrow> real \<Rightarrow> real \<Rightarrow> real \<Rightarrow> real \<Rightarrow> real \<Rightarrow> real" where
  "bilinear tx tz v00 v10 v01 v11 =
     (1 - tx) * (1 - tz) * v00 + tx * (1 - tz) * v10 + (1 - tx) * tz * v01 + tx * tz * v11"

definition sample :: "config \<Rightarrow> real \<Rightarrow> real \<Rightarrow> real list \<Rightarrow> jsnum" where
  "sample c gx gz arr =
     (let x0 = cell0 c gx; x1 = x0 + 1;
          z0 = cell0 c gz; z1 = z0 + 1;
          tx = cellFrac c gx; tz = cellFrac c gz;
          n = int (RESOLUTION c)
      in case (aget arr (z0 * n + x0), aget arr (z0 * n + x1),
               aget arr (z1 * n + x0), aget arr (z1 * n + x1)) of
           (Some v00, Some v10, Some v01, Some v11) \<Rightarrow> Some (bilinear tx tz v00 v10 v01 v11)
         | _ \<Rightarrow> None)"

text \<open>\<open>gradient\<close> reads \<^verbatim>\<open>gradientMapRef.current\<close>; before the build it is \<^verbatim>\<open>null\<close>.\<close>

definition gradient :: "config \<Rightarrow> gradmap option \<Rightarrow> real \<Rightarrow> real \<Rightarrow> jsnum \<times> jsnum" where
  "gradient c mapRef xq zq =
     (case mapRef of
        None \<Rightarrow> (Some 0, Some 0)
      | Some m \<Rightarrow>
          (case (toGrid c (MIN_X c) (MAX_X c) xq, toGrid c (MIN_Z c) (MAX_Z c) zq) of
             (Some gx, Some gz) \<Rightarrow> (sample c gx gz (dxMap m), sample c gx gz (dzMap m))
           | _ \<Rightarrow> (None, None)))"

section \<open>Particles\<close>

text \<open>
  A particle as \<^verbatim>\<open>spawnParticle\<close> creates it: \<open>posX\<close> and \<open>posZ\<close> are its fields
  \<^verbatim>\<open>x\<close> and \<^verbatim>\<open>z\<close>, and \<open>meshScale\<close> is \<^verbatim>\<open>mesh.scale.x\<close> (the three components of the
  scale always get the same update, and only \<^verbatim>\<open>scale.x\<close> is read). The trail buffer, the
  shader uniforms and the mesh position are render state and are left out.
\<close>

record particle =
  posX :: real
  posZ :: real
  vx :: real
  vz :: real
  age :: nat
  isFading :: bool
  meshScale :: real

definition spawnParticle :: "real \<Rightarrow> real \<Rightarrow> particle list \<Rightarrow> particle list" where
  "spawnParticle xq zq ps =
     ps @ [\<lparr> posX = xq, posZ = zq, vx = 0, vz = 0, age = 0, isFading = False,
             meshScale = 1 \<rparr>]"

section \<open>Simulation state and the inputs of a tick\<close>

datatype wave = WAITING | SWELLING | ACTIVE

text \<open>The refs of the component that the tick reads and writes.\<close>

record sim =
  timeRef :: real
  lastFrameTime :: real
  waveState :: wave
  stateStartTime :: real
  lastWaveTime :: real
  spawnQueue :: int
  particles :: "particle list"
  gradientMap :: "gradmap option"
  wireframeOpacity :: real

text \<open>
  What one call of \<^verbatim>\<open>animate\<close> takes from outside: the readings of
  \<^verbatim>\<open>performance.now()\<close> (milliseconds) at the start of the tick, when the last particle
  of a wave is placed, and inside the \<^verbatim>\<open>ACTIVE\<close> branch of the state machine; the
  ground-plane hit \<open>(hit.x, hit.z)\<close> of each successive random draw of the spawn loop
  (\<open>None\<close> when the ray misses the plane); and the camera position.
\<close>

record tick_input =
  now :: real
  nowPlaced :: real
  nowActive :: real
  draws :: "nat \<Rightarrow> (real \<times> real) option"
  camPos :: "real \<times> real \<times> real"

datatype tick_result = Hangs | NonFinite | Done sim

definition initialSim :: "config \<Rightarrow> real \<Rightarrow> sim" where
  "initialSim c mountTime =
     \<lparr> timeRef = 0, lastFrameTime = mountTime, waveState = WAITING,
       stateStartTime = FIRST_WAVE_DELAY (WAVES c) - BUFFER_TIME (WAVES c),
       lastWaveTime = 0, spawnQueue = 0, particles = [],
       gradientMap = Some (buildGradientMap c),
       wireframeOpacity = WIREFRAME_OPACITY (TERRAIN c) \<rparr>"

definition handleClick :: "real \<Rightarrow> real \<Rightarrow> sim \<Rightarrow> sim" where
  "handleClick rx rz s = s\<lparr> particles := spawnParticle rx (- rz) (particles s) \<rparr>"

section \<open>Spawn-site selection\<close>

definition inBounds :: "config \<Rightarrow> real \<Rightarrow> real \<Rightarrow> bool" where
  "inBounds c hx hz \<longleftrightarrow> \<bar>hx\<bar> \<le> WIDTH (TERRAIN c) / 2 \<and> \<bar>hz\<bar> \<le> DEPTH (TERRAIN c) / 2"

text \<open>
  The visibility loop \<^verbatim>\<open>for (let t = 0.3; t < 1.0; t += 0.3)\<close>: \<open>True\<close> when no sampled
  point of the terrain rises more than 2 above the line of sight.
\<close>

function lineOfSight ::
  "config \<Rightarrow> real \<times> real \<times> real \<Rightarrow> real \<Rightarrow> real \<Rightarrow> real \<Rightarrow> real \<Rightarrow> bool" where
  "lineOfSight c cam hx hz realHeight t =
     (if t < 1.0 then
        (let checkX = lerp (fst cam) hx t;
             checkZ = lerp (snd (snd cam)) hz t;
             lineOfSightHeight = lerp (fst (snd cam)) realHeight t
         in if lossFunction c checkX checkZ > lineOfSightHeight + 2.0 then False
            else lineOfSight c cam hx hz realHeight (t + 0.3))
      else True)"
  by pat_completeness auto
termination
proof (relation "measure (\<lambda>(c, cam, hx, hz, realHeight, t). nat \<lceil>(1 - t) / 0.3\<rceil>)")
  show "wf (measure (\<lambda>(c, cam, hx, hz, realHeight, t). nat \<lceil>(1 - t) / 0.3 :: real\<rceil>))"
    by simp
next
  fix c :: config and cam :: "real \<times> real \<times> real" and hx hz realHeight t :: real
  assume "t < 1.0"
  then have pos: "0 < (1 - t) / 0.3" by simp
  have eq: "(1 - (t + 0.3)) / 0.3 = (1 - t) / 0.3 - 1" by (simp add: field_simps)
  have "\<lceil>(1 - (t + 0.3)) / 0.3\<rceil> = \<lceil>(1 - t) / 0.3 - 1\<rceil>" by (simp only: eq)
  also have "\<dots> = \<lceil>(1 - t) / 0.3\<rceil> - 1" by (rule ceiling_diff_one)
  finally have step: "\<lceil>(1 - (t + 0.3)) / 0.3\<rceil> = \<lceil>(1 - t) / 0.3\<rceil> - 1" .
  from pos have "0 < \<lceil>(1 - t) / 0.3\<rceil>" by (simp only: zero_less_ceiling)
  with step show "((c, cam, hx, hz, realHeight, t + 0.3), (c, cam, hx, hz, realHeight, t))
      \<in> measure (\<lambda>(c, cam, hx, hz, realHeight, t). nat \<lceil>(1 - t) / 0.3\<rceil>)"
    by simp
qed

text \<open>A successful placement: the particle is pushed at \<open>(hit.x, -hit.z)\<close>, the queue
  goes down by one and, when it reaches zero, the completion time of the wave is taken.\<close>

definition placeParticle :: "tick_input \<Rightarrow> real \<Rightarrow> real \<Rightarrow> sim \<Rightarrow> sim" where
  "placeParticle inp hx hz s =
     s\<lparr> particles := spawnParticle hx (- hz) (particles s),
        spawnQueue := spawnQueue s - 1,
        lastWaveTime := (if spawnQueue s - 1 = 0 then nowPlaced inp / 1000
                         else lastWaveTime s) \<rparr>"

text \<open>
  The loop \<^verbatim>\<open>for (let i = 0; i < toSpawn; i++)\<close>, reading draw number \<open>k\<close>. A site below
  the minimum height or hidden from the camera runs \<^verbatim>\<open>i--\<close> before the loop's
  \<^verbatim>\<open>i++\<close>: the slot is tried again, in the same tick, with the next draw. A draw that
  misses the plane or the terrain leaves the slot empty. The loop need not return.
\<close>

partial_function (option) spawnLoop ::
  "config \<Rightarrow> tick_input \<Rightarrow> int \<Rightarrow> int \<Rightarrow> nat \<Rightarrow> sim \<Rightarrow> sim option" where
  "spawnLoop c inp toSpawn i k s =
     (if i < toSpawn then
        (case draws inp k of
           None \<Rightarrow> spawnLoop c inp toSpawn (i + 1) (Suc k) s
         | Some hit \<Rightarrow>
             if inBounds c (fst hit) (snd hit) then
               if lossFunction c (fst hit) (snd hit) < MIN_SPAWN_HEIGHT (WAVES c) then
                 spawnLoop c inp toSpawn (i - 1 + 1) (Suc k) s
               else if lineOfSight c (camPos inp) (fst hit) (snd hit)
                         (lossFunction c (fst hit) (snd hit)) 0.3 then
                 spawnLoop c inp toSpawn (i + 1) (Suc k)
                   (placeParticle inp (fst hit) (snd hit) s)
               else spawnLoop c inp toSpawn (i - 1 + 1) (Suc k) s
             else spawnLoop c inp toSpawn (i + 1) (Suc k) s)
      else Some s)"

definition spawnPhase :: "config \<Rightarrow> tick_input \<Rightarrow> sim \<Rightarrow> sim option" where
  "spawnPhase c inp s =
     (if spawnQueue s > 0 then
        spawnLoop c inp (min (spawnQueue s) (BATCH_SIZE (WAVES c))) 0 0 s
      else Some s)"

section \<open>Wave scheduler\<close>

definition speed :: "particle \<Rightarrow> real" where
  "speed p = sqrt (vx p * vx p + vz p * vz p)"

definition allParticlesStopped :: "config \<Rightarrow> sim \<Rightarrow> bool" where
  "allParticlesStopped c s =
     (let activeParticles = filter (\<lambda>p. \<not> isFading p) (particles s);
          isSpawning = spawnQueue s > 0
      in \<not> isSpawning \<and> length activeParticles > 0 \<and>
         list_all (\<lambda>p. speed p < VELOCITY_THRESHOLD (WAVES c) \<and> age p > 100)
           activeParticles)"

text \<open>
  The three transitions, in the order of the code. The \<^verbatim>\<open>ACTIVE\<close> branch declares its own
  \<^verbatim>\<open>currentTime\<close>, \<^verbatim>\<open>performance.now() / 1000\<close>, and stores it as the state-entry time;
  the two tests after it compare the state-entry time with the outer \<^verbatim>\<open>currentTime\<close>,
  which is \<^verbatim>\<open>timeRef.current\<close>.
\<close>

definition endWave :: "config \<Rightarrow> tick_input \<Rightarrow> bool \<Rightarrow> sim \<Rightarrow> sim" where
  "endWave c inp allStopped s =
     (if waveState s = ACTIVE then
        (let currentTime = nowActive inp / 1000;
             waveTimedOut = (currentTime - lastWaveTime s > MAX_WAVE_INTERVAL (WAVES c))
         in if spawnQueue s = 0 \<and> (allStopped \<or> waveTimedOut) then
              s\<lparr> waveState := WAITING, stateStartTime := currentTime,
                 particles := map (\<lambda>p. p\<lparr> isFading := True \<rparr>) (particles s) \<rparr>
            else s)
      else s)"

definition startSwell :: "config \<Rightarrow> real \<Rightarrow> sim \<Rightarrow> sim" where
  "startSwell c currentTime s =
     (if waveState s = WAITING \<and> currentTime - stateStartTime s > BUFFER_TIME (WAVES c) then
        s\<lparr> waveState := SWELLING, stateStartTime := currentTime \<rparr>
      else s)"

definition releaseWave :: "config \<Rightarrow> real \<Rightarrow> sim \<Rightarrow> sim" where
  "releaseWave c currentTime s =
     (if waveState s = SWELLING \<and> currentTime - stateStartTime s > SWELL_TIME (WAVES c) then
        s\<lparr> spawnQueue := PARTICLES_PER_WAVE (WAVES c), waveState := ACTIVE,
           wireframeOpacity := MAX_SWELL_OPACITY (WAVES c) \<rparr>
      else s)"

definition waveTransitions :: "config \<Rightarrow> tick_input \<Rightarrow> real \<Rightarrow> sim \<Rightarrow> sim" where
  "waveTransitions c inp currentTime s =
     releaseWave c currentTime
       (startSwell c currentTime (endWave c inp (allParticlesStopped c s) s))"

text \<open>The wireframe opacity after the transitions: the swell, or the decay to the base.\<close>

definition opacitySync :: "config \<Rightarrow> real \<Rightarrow> sim \<Rightarrow> jsnum" where
  "opacitySync c currentTime s =
     (if waveState s = SWELLING then
        map_option
          (\<lambda>progress. lerp (WIREFRAME_OPACITY (TERRAIN c)) (MAX_SWELL_OPACITY (WAVES c))
                         (progress ^ 2))
          (jdiv (currentTime - stateStartTime s) (SWELL_TIME (WAVES c)))
      else if wireframeOpacity s > WIREFRAME_OPACITY (TERRAIN c) then
        Some (wireframeOpacity s
               - (wireframeOpacity s - WIREFRAME_OPACITY (TERRAIN c)) * FLASH_DECAY (WAVES c))
      else Some (wireframeOpacity s))"

section \<open>Particle update\<close>

text \<open>\<^verbatim>\<open>p.mesh.scale.multiplyScalar(1.0 - FADE_OUT_SPEED)\<close>.\<close>

definition fadeShrink :: "config \<Rightarrow> particle \<Rightarrow> particle" where
  "fadeShrink c p = p\<lparr> meshScale := meshScale p * (1.0 - FADE_OUT_SPEED (WAVES c)) \<rparr>"

text \<open>Momentum, gradient force and position; \<open>None\<close> when the sampled gradient is not
  finite.\<close>

definition physics :: "config \<Rightarrow> real \<Rightarrow> gradmap option \<Rightarrow> particle \<Rightarrow> particle option" where
  "physics c frameScale mapRef p =
     (case gradient c mapRef (posX p) (posZ p) of
        (Some gdx, Some gdz) \<Rightarrow>
          (let vx1 = vx p * MOMENTUM (PHYSICS c);
               vz1 = vz p * MOMENTUM (PHYSICS c);
               vx2 = vx1 - gdx * LEARNING_RATE (PHYSICS c) * frameScale;
               vz2 = vz1 - gdz * LEARNING_RATE (PHYSICS c) * frameScale
           in Some (p\<lparr> vx := vx2, vz := vz2,
                       posX := posX p + vx2 * frameScale,
                       posZ := posZ p + vz2 * frameScale \<rparr>))
      | _ \<Rightarrow> None)"

text \<open>The scale a live particle is drawn towards, from its height and its speed.\<close>

definition finalScale :: "config \<Rightarrow> particle \<Rightarrow> jsnum" where
  "finalScale c p =
     (let newY = lossFunction c (posX p) (posZ p) + HEIGHT_OFFSET (PARTICLES c);
          heightRange = 60;
          normalizedLoss = clamp ((newY + 20) / heightRange) 0 1;
          emphasisPower = SCALE_DISTRIBUTION_POWER (PARTICLES c);
          emphasised = (if REVERSE_SCALING (PARTICLES c) then jpow normalizedLoss emphasisPower
                        else jpow (1.0 - normalizedLoss) emphasisPower)
      in case (jpow (min (speed p / 0.15) 1.0) 1.2, emphasised) of
           (Some speedFactor, Some e) \<Rightarrow>
             (let lossScaleFactor =
                    clamp (1.0 + e * LOSS_SCALE_SENSITIVITY (PARTICLES c))
                      (MIN_LOSS_SCALE (PARTICLES c)) (MAX_LOSS_SCALE (PARTICLES c));
                  baseScale = 1.0 + speedFactor * 0.5
              in Some (baseScale * lossScaleFactor))
         | _ \<Rightarrow> None)"

text \<open>The end of the loop body: a fading particle shrinks, a live one is drawn towards
  its final scale.\<close>

definition rescale :: "config \<Rightarrow> particle \<Rightarrow> particle option" where
  "rescale c p =
     (if isFading p then Some (fadeShrink c p)
      else (case finalScale c p of
              None \<Rightarrow> None
            | Some fin \<Rightarrow>
                (let lerpSpeed = (if speed p < 0.01 then 0.02 else 0.1)
                 in Some (p\<lparr> meshScale := lerp (meshScale p) fin lerpSpeed \<rparr>))))"

datatype pstep = Removed | Kept particle | NotFinite

text \<open>
  The body of the particle loop for one particle: the age goes up; a fading particle
  shrinks and is removed when its scale is below 0.01; a live particle moves when the
  spawn queue is empty; then the scale is set.
\<close>

definition updateParticle ::
  "config \<Rightarrow> real \<Rightarrow> int \<Rightarrow> gradmap option \<Rightarrow> particle \<Rightarrow> pstep" where
  "updateParticle c frameScale queue mapRef p =
     (let p1 = p\<lparr> age := age p + 1 \<rparr>;
          p2 = (if isFading p1 then fadeShrink c p1 else p1)
      in if isFading p2 \<and> meshScale p2 < 0.01 then Removed
         else (case (if \<not> isFading p2 \<and> queue = 0 then physics c frameScale mapRef p2
                     else Some p2) of
                 None \<Rightarrow> NotFinite
               | Some p3 \<Rightarrow> (case rescale c p3 of None \<Rightarrow> NotFinite | Some p4 \<Rightarrow> Kept p4)))"

text \<open>
  The loop \<^verbatim>\<open>for (let i = particles.length - 1; i >= 0; i--)\<close>; the fifth argument is
  \<open>i + 1\<close>. A removed particle is spliced out of the list.
\<close>

fun particleLoop ::
  "config \<Rightarrow> real \<Rightarrow> int \<Rightarrow> gradmap option \<Rightarrow> nat \<Rightarrow> particle list \<Rightarrow> particle list option"
  where
  "particleLoop c frameScale queue mapRef 0 ps = Some ps"
| "particleLoop c frameScale queue mapRef (Suc i) ps =
     (case updateParticle c frameScale queue mapRef (ps ! i) of
        Removed \<Rightarrow> particleLoop c frameScale queue mapRef i (take i ps @ drop (Suc i) ps)
      | Kept p' \<Rightarrow> particleLoop c frameScale queue mapRef i (ps[i := p'])
      | NotFinite \<Rightarrow> None)"

section \<open>The tick: animate\<close>

definition frameScaleOf :: "tick_input \<Rightarrow> sim \<Rightarrow> real" where
  "frameScaleOf inp s = ((now inp - lastFrameTime s) / 1000) / 0.0166"

text \<open>The clock update at the start of the tick.\<close>

definition advanceClock :: "tick_input \<Rightarrow> sim \<Rightarrow> sim" where
  "advanceClock inp s =
     (let deltaTimeMS = now inp - lastFrameTime s;
          deltaTimeSec = deltaTimeMS / 1000
      in s\<lparr> lastFrameTime := now inp, timeRef := timeRef s + deltaTimeSec \<rparr>)"

text \<open>The state when the particle loop starts: after the spawn loop, the transitions
  of the scheduler and the opacity.\<close>

definition beforeParticles :: "config \<Rightarrow> tick_input \<Rightarrow> sim \<Rightarrow> tick_result" where
  "beforeParticles c inp s =
     (let s0 = advanceClock inp s;
          currentTime = timeRef s0
      in case spawnPhase c inp s0 of
           None \<Rightarrow> Hangs
         | Some s1 \<Rightarrow>
             (let s2 = waveTransitions c inp currentTime s1
              in case opacitySync c currentTime s2 of
                   None \<Rightarrow> NonFinite
                 | Some opacity \<Rightarrow> Done (s2\<lparr> wireframeOpacity := opacity \<rparr>)))"

definition animate :: "config \<Rightarrow> tick_input \<Rightarrow> sim \<Rightarrow> tick_result" where
  "animate c inp s =
     (case beforeParticles c inp s of
        Done s2 \<Rightarrow>
          (case particleLoop c (frameScaleOf inp s) (spawnQueue s2) (gradientMap s2)
                  (length (particles s2)) (particles s2) of
             None \<Rightarrow> NonFinite
           | Some ps \<Rightarrow> Done (s2\<lparr> particles := ps \<rparr>))
      | r \<Rightarrow> r)"

text \<open>A run of ticks; it stops at the first tick that gives no state.\<close>

fun runTicks :: "config \<Rightarrow> tick_input list \<Rightarrow> sim \<Rightarrow> tick_result" where
  "runTicks c [] s = Done s"
| "runTicks c (inp # rest) s =
     (case animate c inp s of Done s' \<Rightarrow> runTicks c rest s' | r \<Rightarrow> r)"

section \<open>The particle loop as one pass over the list\<close>

text \<open>
  What the loop computes, from the first particle to the last: the updated particles that
  stay, in their order. \<open>particleLoop\<close> is shown below to compute this.
\<close>

fun stepAll ::
  "config \<Rightarrow> real \<Rightarrow> int \<Rightarrow> gradmap option \<Rightarrow> particle list \<Rightarrow> particle list option"
  where
  "stepAll c frameScale queue mapRef [] = Some []"
| "stepAll c frameScale queue mapRef (p # ps) =
     (case updateParticle c frameScale queue mapRef p of
        NotFinite \<Rightarrow> None
      | Removed \<Rightarrow> stepAll c frameScale queue mapRef ps
      | Kept p' \<Rightarrow> map_option ((#) p') (stepAll c frameScale queue mapRef ps))"

text \<open>The configuration with another \<^verbatim>\<open>PHYSICS.MAX_AGE\<close>.\<close>

definition setMaxAge :: "nat \<Rightarrow> config \<Rightarrow> config" where
  "setMaxAge m c = c\<lparr> PHYSICS := (PHYSICS c)\<lparr> MAX_AGE := m \<rparr> \<rparr>"

section \<open>The verdict on a draw\<close>

text \<open>
  The branch that the body of the spawn loop takes on draw number \<open>k\<close>: \<open>Skip\<close> when the
  ray misses the plane or the hit is outside the terrain (the slot is used up and
  nothing is placed), \<open>Retry\<close> when the site is below the minimum height or hidden (the
  slot is tried again with the next draw), \<open>Place\<close> otherwise.
\<close>

datatype verdict = Skip | Retry | Place

definition judge :: "config \<Rightarrow> tick_input \<Rightarrow> nat \<Rightarrow> verdict" where
  "judge c inp k =
     (case draws inp k of
        None \<Rightarrow> Skip
      | Some hit \<Rightarrow>
          if inBounds c (fst hit) (snd hit) then
            if lossFunction c (fst hit) (snd hit) < MIN_SPAWN_HEIGHT (WAVES c) then Retry
            else if lineOfSight c (camPos inp) (fst hit) (snd hit)
                      (lossFunction c (fst hit) (snd hit)) 0.3 then Place
            else Retry
          else Skip)"

text \<open>The number of draws among \<open>k, \<dots>, k + n - 1\<close> that are not retried.\<close>

definition settledDraws :: "config \<Rightarrow> tick_input \<Rightarrow> nat \<Rightarrow> nat \<Rightarrow> nat" where
  "settledDraws c inp k n = length (filter (\<lambda>j. judge c inp j \<noteq> Retry) [k..<k + n])"

text \<open>A particle as \<open>spawnParticle\<close> leaves it.\<close>

definition freshParticle :: "particle \<Rightarrow> bool" where
  "freshParticle p \<longleftrightarrow>
     vx p = 0 \<and> vz p = 0 \<and> age p = 0 \<and> \<not> isFading p \<and> meshScale p = 1"

section \<open>Runs with bounded tick durations\<close>


text \<open>Two configurations that differ at most in \<^verbatim>\<open>PHYSICS.MAX_AGE\<close>.\<close>

definition sameButMaxAge :: "config \<Rightarrow> config \<Rightarrow> bool" where
  "sameButMaxAge c' c \<longleftrightarrow>
     TERRAIN c' = TERRAIN c \<and> WAVES c' = WAVES c \<and> PARTICLES c' = PARTICLES c \<and>
     LEARNING_RATE (PHYSICS c') = LEARNING_RATE (PHYSICS c) \<and>
     MOMENTUM (PHYSICS c') = MOMENTUM (PHYSICS c) \<and>
     GRADIENT_MAP_RESOLUTION (PHYSICS c') = GRADIENT_MAP_RESOLUTION (PHYSICS c)"

section \<open>Concrete configurations and inputs\<close>

text \<open>A second configuration: \<^verbatim>\<open>VISUAL_CONFIG\<close> with other wave and physics tunables.\<close>

definition otherConfig :: config where
  "otherConfig =
     VISUAL_CONFIG \<lparr> WAVES := (WAVES VISUAL_CONFIG) \<lparr> BATCH_SIZE := 7 \<rparr>,
                     PHYSICS := (PHYSICS VISUAL_CONFIG) \<lparr> MAX_AGE := 5, MOMENTUM := 0.5 \<rparr> \<rparr>"

text \<open>\<^verbatim>\<open>VISUAL_CONFIG\<close> with a gradient map of resolution 2, and such a map: the stored
  \<open>dx\<close> is 0 on the left edge of the terrain and 1 on the right edge.\<close>

definition tinyConfig :: config where
  "tinyConfig =
     VISUAL_CONFIG \<lparr> PHYSICS := (PHYSICS VISUAL_CONFIG) \<lparr> GRADIENT_MAP_RESOLUTION := 2 \<rparr> \<rparr>"

definition tinyMap :: gradmap where
  "tinyMap = \<lparr> dxMap = [0, 1, 0, 1], dzMap = [0, 0, 1, 1],
               stepX = Some 2000, stepZ = Some 2000 \<rparr>"

text \<open>An elevation that is not finite left of the origin.\<close>

definition brokenElevation :: "real \<Rightarrow> real \<Rightarrow> jsnum" where
  "brokenElevation xq zq = (if xq < 0 then None else Some zq)"

text \<open>A tick 16.6 ms after the last one (the frame scale is 1) in which no ray of the
  spawn loop hits the ground plane.\<close>

definition tick60 :: tick_input where
  "tick60 = \<lparr> now = 10016.6, nowPlaced = 10016.6, nowActive = 10016.6,
              draws = (\<lambda>k. None), camPos = (0, 160, 700) \<rparr>"

text \<open>A moving live particle.\<close>

definition liveParticle :: particle where
  "liveParticle = \<lparr> posX = 0, posZ = 0, vx = 1, vz = 0, age = 7, isFading = False,
                    meshScale = 1 \<rparr>"

text \<open>A fading particle of scale 1 while the scheduler waits.\<close>

definition fadingParticle :: particle where
  "fadingParticle = \<lparr> posX = 0, posZ = 0, vx = 0, vz = 0, age = 300, isFading = True,
                      meshScale = 1 \<rparr>"

definition waitingSim :: sim where
  "waitingSim = \<lparr> timeRef = 10, lastFrameTime = 10000, waveState = WAITING,
                  stateStartTime = 9.9, lastWaveTime = 0, spawnQueue = 0,
                  particles = [fadingParticle], gradientMap = Some tinyMap,
                  wireframeOpacity = 0.07 \<rparr>"

text \<open>A live particle far older than \<^verbatim>\<open>MAX_AGE\<close>.\<close>

definition oldParticle :: particle where
  "oldParticle = \<lparr> posX = 0, posZ = 0, vx = 1, vz = 0, age = 5000, isFading = False,
                   meshScale = 1 \<rparr>"

text \<open>A tick at the time \<open>t\<close> (milliseconds) in which no ray hits the ground plane.\<close>

definition missTick :: "real \<Rightarrow> tick_input" where
  "missTick t = \<lparr> now = t, nowPlaced = t, nowActive = t, draws = (\<lambda>k. None),
                  camPos = (0, 160, 700) \<rparr>"

text \<open>
  The end of a wave on a page whose component was mounted 5 seconds after the time
  origin of \<^verbatim>\<open>performance.now()\<close>: \<open>timeRef\<close> is 24 when the clock reads 29 seconds. The
  one live particle has come to rest.
\<close>

definition settledParticle :: particle where
  "settledParticle = \<lparr> posX = 0, posZ = 0, vx = 0, vz = 0, age = 200, isFading = False,
                       meshScale = 1 \<rparr>"

definition endingSim :: sim where
  "endingSim = \<lparr> timeRef = 24, lastFrameTime = 29000, waveState = ACTIVE,
                 stateStartTime = 8, lastWaveTime = 14, spawnQueue = 0,
                 particles = [settledParticle], gradientMap = Some tinyMap,
                 wireframeOpacity = 0.07 \<rparr>"



text \<open>
  A tick 33.2 ms after the last one, so that the frame scale is 2, and a wave under way
  over the small map with two live particles: one at the origin, one at a corner of the
  terrain.
\<close>

definition tick30 :: tick_input where
  "tick30 = \<lparr> now = 10033.2, nowPlaced = 10033.2, nowActive = 10033.2,
              draws = (\<lambda>k. None), camPos = (0, 160, 700) \<rparr>"

definition cornerParticle :: particle where
  "cornerParticle = \<lparr> posX = 1000, posZ = - 1000, vx = 0, vz = 2, age = 40,
                      isFading = False, meshScale = 1 \<rparr>"

definition movingSim :: sim where
  "movingSim = \<lparr> timeRef = 10, lastFrameTime = 10000, waveState = ACTIVE,
                 stateStartTime = 5, lastWaveTime = 9, spawnQueue = 0,
                 particles = [liveParticle, cornerParticle], gradientMap = Some tinyMap,
                 wireframeOpacity = 0.07 \<rparr>"

text \<open>
  The state in which the first wave has just been released, 3.2 seconds after a mount
  at the time origin: the whole wave is in the queue and no particle is placed.
\<close>

definition firstWave :: sim where
  "firstWave =
     (initialSim VISUAL_CONFIG 0)
       \<lparr> timeRef := 3.2, lastFrameTime := 3200, waveState := ACTIVE,
         stateStartTime := 1.1, spawnQueue := 1000, wireframeOpacity := 0.1975 \<rparr>"

text \<open>
  Ticks at 3216.6 ms with the camera where \<^verbatim>\<open>animate\<close> puts it, \<open>(0, 160, 700)\<close>, and rays
  that hit the ground plane on the line \<open>x = 0\<close> in front of the camera. In \<open>retryTick\<close>
  the first 25 rays hit the plane at \<open>(0, -480)\<close> and all later ones at the origin; in
  \<open>lowTick\<close> every ray hits at \<open>(0, -480)\<close>; in \<open>mixedTick\<close> the first ray hits at
  \<open>(0, -480)\<close>, the second misses the plane, the third hits outside the terrain and all
  later ones hit at the origin.
\<close>

definition retryTick :: tick_input where
  "retryTick = \<lparr> now = 3216.6, nowPlaced = 3216.6, nowActive = 3216.6,
                 draws = (\<lambda>k. if k < 25 then Some (0, - 480) else Some (0, 0)),
                 camPos = (0, 160, 700) \<rparr>"

definition lowTick :: tick_input where
  "lowTick = \<lparr> now = 3216.6, nowPlaced = 3216.6, nowActive = 3216.6,
               draws = (\<lambda>k. Some (0, - 480)), camPos = (0, 160, 700) \<rparr>"

definition mixedTick :: tick_input where
  "mixedTick = \<lparr> now = 3216.6, nowPlaced = 3216.6, nowActive = 3216.6,
                 draws = (\<lambda>k. if k = 0 then Some (0, - 480)
                                else if k = 1 then None
                                else if k = 2 then Some (2000, 0)
                                else Some (0, 0)),
                 camPos = (0, 160, 700) \<rparr>"


section \<open>Determinism of the height field and of the build\<close>


lemma hash_cong:
  "SEED (TERRAIN c) = SEED (TERRAIN c') \<Longrightarrow> hash c = hash c'"
  by (intro ext) (simp add: hash_def)

lemma noise_cong:
  "SEED (TERRAIN c) = SEED (TERRAIN c') \<Longrightarrow> noise c = noise c'"
  by (intro ext) (simp add: noise_def hash_cong [of c c'])

lemma fbm_cong:
  "SEED (TERRAIN c) = SEED (TERRAIN c') \<Longrightarrow> fbm k c xq zq h amp freq = fbm k c' xq zq h amp freq"
  by (induction k arbitrary: h amp freq) (simp_all add: noise_cong [of c c'])

lemma lossFunction_cong:
  assumes "SEED (TERRAIN c) = SEED (TERRAIN c')"
    and "GLOBAL_SCALE (TERRAIN c) = GLOBAL_SCALE (TERRAIN c')"
    and "HEIGHT_MULTIPLIER (TERRAIN c) = HEIGHT_MULTIPLIER (TERRAIN c')"
  shows "lossFunction c = lossFunction c'"
  using assms by (intro ext) (simp add: lossFunction_def fbm_cong [of c c'])

lemma buildGradientMapWith_cong:
  assumes "RESOLUTION c = RESOLUTION c'"
    and "WIDTH (TERRAIN c) = WIDTH (TERRAIN c')"
    and "DEPTH (TERRAIN c) = DEPTH (TERRAIN c')"
  shows "buildGradientMapWith elev c = buildGradientMapWith elev c'"
proof -
  have "buildCell elev c = buildCell elev c'"
    using assms
    by (intro ext)
      (simp add: buildCell_def gridStepX_def gridStepZ_def MIN_X_def MAX_X_def MIN_Z_def MAX_Z_def)
  then have "buildRow elev c = buildRow elev c'"
    using assms by (intro ext) (simp add: buildRow_def)
  then show ?thesis
    using assms
    by (simp add: buildGradientMapWith_def gridStepX_def gridStepZ_def MIN_X_def MAX_X_def
        MIN_Z_def MAX_Z_def)
qed

text \<open>
  Claim C1. The elevation is a function of the point and of the seed, the global scale and
  the height multiplier of the configuration, and of nothing else: two evaluations under
  configurations that agree on these three give the same value at every point, whatever
  the rest of the configuration and whatever happened to the simulation in between. Two
  builds of the gradient map under configurations that also agree on the resolution and
  the extent of the terrain give the same \<open>dx\<close> and \<open>dz\<close> arrays.
\<close>

theorem lossFunction_deterministic:
  assumes "SEED (TERRAIN c) = SEED (TERRAIN c')"
    and "GLOBAL_SCALE (TERRAIN c) = GLOBAL_SCALE (TERRAIN c')"
    and "HEIGHT_MULTIPLIER (TERRAIN c) = HEIGHT_MULTIPLIER (TERRAIN c')"
  shows "lossFunction c xq zq = lossFunction c' xq zq \<and>
         (RESOLUTION c = RESOLUTION c' \<and> WIDTH (TERRAIN c) = WIDTH (TERRAIN c') \<and>
          DEPTH (TERRAIN c) = DEPTH (TERRAIN c') \<longrightarrow>
            dxMap (buildGradientMap c) = dxMap (buildGradientMap c') \<and>
            dzMap (buildGradientMap c) = dzMap (buildGradientMap c'))"
  using assms
  by (auto simp: buildGradientMap_def lossFunction_cong [of c c']
      buildGradientMapWith_cong [of c c'])

theorem lossFunction_deterministic_witness:
  "lossFunction VISUAL_CONFIG 0 0 = lossFunction otherConfig 0 0 \<and>
   dxMap (buildGradientMap VISUAL_CONFIG) = dxMap (buildGradientMap otherConfig) \<and>
   dzMap (buildGradientMap VISUAL_CONFIG) = dzMap (buildGradientMap otherConfig)"
  using lossFunction_deterministic [of VISUAL_CONFIG otherConfig 0 0]
  by (simp add: VISUAL_CONFIG_def otherConfig_def RESOLUTION_def)

section \<open>The build of the gradient map\<close>


lemma fold_update_length:
  "length (fold (\<lambda>i xs. xs[b + i := f i]) [0..<k] xs) = length xs"
  by (induction k) simp_all

lemma fold_update_nth:
  "fold (\<lambda>i xs. xs[b + i := f i]) [0..<k] xs ! j =
     (if b \<le> j \<and> j < b + k \<and> j < length xs then f (j - b) else xs ! j)"
proof (induction k)
  case 0
  then show ?case by auto
next
  case (Suc k)
  let ?prev = "fold (\<lambda>i xs. xs[b + i := f i]) [0..<k] xs"
  have unfold: "fold (\<lambda>i xs. xs[b + i := f i]) [0..<Suc k] xs = ?prev[b + k := f k]"
    by simp
  show ?case
  proof (cases "j = b + k")
    case True
    show ?thesis
    proof (cases "j < length xs")
      case True
      with \<open>j = b + k\<close> show ?thesis
        unfolding unfold by (simp add: fold_update_length)
    next
      case False
      then have "?prev[b + k := f k] = ?prev"
        using \<open>j = b + k\<close> by (intro list_update_beyond) (simp add: fold_update_length)
      with False Suc show ?thesis unfolding unfold by simp
    qed
  next
    case False
    then have "?prev[b + k := f k] ! j = ?prev ! j" by simp
    with False Suc show ?thesis unfolding unfold by (auto simp: less_Suc_eq)
  qed
qed

lemma buildCell_eq:
  "buildCell elev c iz ix maps =
     ((fst maps)[iz * RESOLUTION c + ix := storedDx elev c iz ix],
      (snd maps)[iz * RESOLUTION c + ix := storedDz elev c iz ix])"
  by (simp add: buildCell_def storedDx_def storedDz_def Let_def)

lemma buildRow_split:
  "fold (buildCell elev c iz) [0..<k] maps =
     (fold (\<lambda>i xs. xs[iz * RESOLUTION c + i := storedDx elev c iz i]) [0..<k] (fst maps),
      fold (\<lambda>i xs. xs[iz * RESOLUTION c + i := storedDz elev c iz i]) [0..<k] (snd maps))"
proof (induction k)
  case 0
  then show ?case by simp
next
  case (Suc k)
  have "fold (buildCell elev c iz) [0..<Suc k] maps
      = buildCell elev c iz k (fold (buildCell elev c iz) [0..<k] maps)"
    by simp
  also have "\<dots> = buildCell elev c iz k
      (fold (\<lambda>i xs. xs[iz * RESOLUTION c + i := storedDx elev c iz i]) [0..<k] (fst maps),
       fold (\<lambda>i xs. xs[iz * RESOLUTION c + i := storedDz elev c iz i]) [0..<k] (snd maps))"
    by (simp only: Suc.IH)
  also have "\<dots> =
      ((fold (\<lambda>i xs. xs[iz * RESOLUTION c + i := storedDx elev c iz i]) [0..<k] (fst maps))
         [iz * RESOLUTION c + k := storedDx elev c iz k],
       (fold (\<lambda>i xs. xs[iz * RESOLUTION c + i := storedDz elev c iz i]) [0..<k] (snd maps))
         [iz * RESOLUTION c + k := storedDz elev c iz k])"
    by (simp only: buildCell_eq fst_conv snd_conv)
  also have "\<dots> =
      (fold (\<lambda>i xs. xs[iz * RESOLUTION c + i := storedDx elev c iz i]) [0..<Suc k] (fst maps),
       fold (\<lambda>i xs. xs[iz * RESOLUTION c + i := storedDz elev c iz i]) [0..<Suc k] (snd maps))"
    by simp
  finally show ?case .
qed

lemma buildRows_length:
  "length (fst (fold (buildRow elev c) [0..<k] maps)) = length (fst maps) \<and>
   length (snd (fold (buildRow elev c) [0..<k] maps)) = length (snd maps)"
  by (induction k) (simp_all add: buildRow_def buildRow_split fold_update_length)

lemma row_of_index:
  assumes "k * n \<le> j" "j < k * n + (n::nat)"
  shows "j div n = k \<and> j mod n = j - k * n"
proof -
  from assms obtain r where r: "j = k * n + r" "r < n"
    by (metis add_diff_inverse_nat add_less_cancel_left not_less)
  then show ?thesis by simp
qed

lemma buildRows_nth:
  "fst (fold (buildRow elev c) [0..<k] maps) ! j =
     (if j < k * RESOLUTION c \<and> j < length (fst maps)
      then storedDx elev c (j div RESOLUTION c) (j mod RESOLUTION c) else fst maps ! j) \<and>
   snd (fold (buildRow elev c) [0..<k] maps) ! j =
     (if j < k * RESOLUTION c \<and> j < length (snd maps)
      then storedDz elev c (j div RESOLUTION c) (j mod RESOLUTION c) else snd maps ! j)"
proof (induction k)
  case 0
  then show ?case by simp
next
  case (Suc k)
  let ?n = "RESOLUTION c"
  let ?prev = "fold (buildRow elev c) [0..<k] maps"
  have step: "fold (buildRow elev c) [0..<Suc k] maps
      = (fold (\<lambda>i xs. xs[k * ?n + i := storedDx elev c k i]) [0..<?n] (fst ?prev),
         fold (\<lambda>i xs. xs[k * ?n + i := storedDz elev c k i]) [0..<?n] (snd ?prev))"
    by (simp add: buildRow_def buildRow_split)
  show ?case
  proof (cases "k * ?n \<le> j \<and> j < k * ?n + ?n")
    case True
    then have "j div ?n = k \<and> j mod ?n = j - k * ?n"
      by (intro row_of_index) simp_all
    with True Suc show ?thesis
      unfolding step by (simp add: fold_update_nth buildRows_length)
  next
    case False
    then have "j < Suc k * ?n \<longleftrightarrow> j < k * ?n" by auto
    with False Suc show ?thesis
      unfolding step by (simp add: fold_update_nth buildRows_length)
  qed
qed

lemma cell_index:
  assumes "ix < (n::nat)" "iz < n"
  shows "iz * n + ix < n * n" "(iz * n + ix) div n = iz" "(iz * n + ix) mod n = ix"
proof -
  have "iz * n + ix < iz * n + n" using assms by simp
  also have "\<dots> = Suc iz * n" by simp
  also have "\<dots> \<le> n * n" using assms by (metis Suc_leI mult_le_mono1)
  finally show "iz * n + ix < n * n" .
  show "(iz * n + ix) div n = iz" "(iz * n + ix) mod n = ix" using assms by simp_all
qed

lemma buildGradientMapWith_nth:
  assumes "ix < RESOLUTION c" "iz < RESOLUTION c"
  shows "dxMap (buildGradientMapWith elev c) ! (iz * RESOLUTION c + ix) = storedDx elev c iz ix"
    and "dzMap (buildGradientMapWith elev c) ! (iz * RESOLUTION c + ix) = storedDz elev c iz ix"
  using cell_index [OF assms]
  by (simp_all add: buildGradientMapWith_def Let_def buildRows_nth)

lemma buildGradientMapWith_length:
  "length (dxMap (buildGradientMapWith elev c)) = RESOLUTION c * RESOLUTION c"
  "length (dzMap (buildGradientMapWith elev c)) = RESOLUTION c * RESOLUTION c"
  by (simp_all add: buildGradientMapWith_def Let_def buildRows_length)

text \<open>The stored value, written out, when the resolution is at least 2.\<close>

lemma gridLine_finite:
  assumes "2 \<le> RESOLUTION c"
  shows "gridLine (MIN_X c) (gridStepX c) ix
           = Some (MIN_X c + real ix * ((MAX_X c - MIN_X c) / (real (RESOLUTION c) - 1)))"
    and "gridLine (MIN_Z c) (gridStepZ c) iz
           = Some (MIN_Z c + real iz * ((MAX_Z c - MIN_Z c) / (real (RESOLUTION c) - 1)))"
  using assms by (simp_all add: gridLine_def gridStepX_def gridStepZ_def jdiv_def)

text \<open>
  Claim C3. With a resolution of at least 2, the build stores for every cell \<open>(ix, iz)\<close>
  of the grid, at index \<open>iz * RESOLUTION + ix\<close> of two arrays of \<open>RESOLUTION * RESOLUTION\<close>
  entries, the central differences of the elevation with the step 0.05 in \<open>x\<close> and in
  \<open>z\<close>, taken at the grid point \<open>(MIN_X + ix * stepX, MIN_Z + iz * stepZ)\<close>, and zero
  where a difference is not finite. The grid lines run from \<open>-WIDTH / 2\<close> to \<open>WIDTH / 2\<close>
  and from \<open>-DEPTH / 2\<close> to \<open>DEPTH / 2\<close>. Over \<open>lossFunction\<close> every difference is finite.
\<close>

theorem buildGradientMap_central_difference:
  assumes res: "2 \<le> RESOLUTION c" and ix: "ix < RESOLUTION c" and iz: "iz < RESOLUTION c"
  defines "sx \<equiv> (MAX_X c - MIN_X c) / (real (RESOLUTION c) - 1)"
    and "sz \<equiv> (MAX_Z c - MIN_Z c) / (real (RESOLUTION c) - 1)"
  defines "xq \<equiv> MIN_X c + real ix * sx"
    and "zq \<equiv> MIN_Z c + real iz * sz"
  shows "length (dxMap (buildGradientMapWith elev c)) = RESOLUTION c * RESOLUTION c \<and>
         length (dzMap (buildGradientMapWith elev c)) = RESOLUTION c * RESOLUTION c \<and>
         iz * RESOLUTION c + ix < RESOLUTION c * RESOLUTION c \<and>
         dxMap (buildGradientMapWith elev c) ! (iz * RESOLUTION c + ix) =
           (case (elev (xq + 0.05) zq, elev (xq - 0.05) zq) of
              (Some a, Some b) \<Rightarrow> (a - b) / (2 * 0.05) | _ \<Rightarrow> 0) \<and>
         dzMap (buildGradientMapWith elev c) ! (iz * RESOLUTION c + ix) =
           (case (elev xq (zq + 0.05), elev xq (zq - 0.05)) of
              (Some a, Some b) \<Rightarrow> (a - b) / (2 * 0.05) | _ \<Rightarrow> 0) \<and>
         dxMap (buildGradientMap c) ! (iz * RESOLUTION c + ix) =
           (lossFunction c (xq + 0.05) zq - lossFunction c (xq - 0.05) zq) / (2 * 0.05) \<and>
         dzMap (buildGradientMap c) ! (iz * RESOLUTION c + ix) =
           (lossFunction c xq (zq + 0.05) - lossFunction c xq (zq - 0.05)) / (2 * 0.05) \<and>
         MIN_X c + real (0::nat) * sx = - WIDTH (TERRAIN c) / 2 \<and>
         MIN_X c + real (RESOLUTION c - 1) * sx = WIDTH (TERRAIN c) / 2 \<and>
         MIN_Z c + real (0::nat) * sz = - DEPTH (TERRAIN c) / 2 \<and>
         MIN_Z c + real (RESOLUTION c - 1) * sz = DEPTH (TERRAIN c) / 2"
proof -
  have sdx: "storedDx e c iz ix =
      (case (e (xq + 0.05) zq, e (xq - 0.05) zq) of
         (Some a, Some b) \<Rightarrow> (a - b) / (2 * 0.05) | _ \<Rightarrow> 0)" for e
    by (simp add: storedDx_def gridLine_finite [OF res] centralDx_def elevAt_def jsub_def
        finiteOrZero_def isFinite_def h_step_def xq_def zq_def sx_def sz_def
        split: option.splits)
  have sdz: "storedDz e c iz ix =
      (case (e xq (zq + 0.05), e xq (zq - 0.05)) of
         (Some a, Some b) \<Rightarrow> (a - b) / (2 * 0.05) | _ \<Rightarrow> 0)" for e
    by (simp add: storedDz_def gridLine_finite [OF res] centralDz_def elevAt_def jsub_def
        finiteOrZero_def isFinite_def h_step_def xq_def zq_def sx_def sz_def
        split: option.splits)
  have last: "real (RESOLUTION c - 1) * (v / (real (RESOLUTION c) - 1)) = v" for v :: real
  proof -
    from res have "real (RESOLUTION c - 1) = real (RESOLUTION c) - 1" by (simp add: of_nat_diff)
    moreover from res have "real (RESOLUTION c) - 1 \<noteq> 0" by simp
    ultimately show ?thesis by simp
  qed
  have ends: "MIN_X c + real (0::nat) * sx = - WIDTH (TERRAIN c) / 2 \<and>
         MIN_X c + real (RESOLUTION c - 1) * sx = WIDTH (TERRAIN c) / 2 \<and>
         MIN_Z c + real (0::nat) * sz = - DEPTH (TERRAIN c) / 2 \<and>
         MIN_Z c + real (RESOLUTION c - 1) * sz = DEPTH (TERRAIN c) / 2"
    unfolding sx_def sz_def
    by (intro conjI) (simp_all only: last, simp_all add: MIN_X_def MAX_X_def MIN_Z_def MAX_Z_def)
  show ?thesis
    using ends cell_index(1) [OF ix iz]
    by (simp add: buildGradientMapWith_length buildGradientMapWith_nth [OF ix iz] sdx sdz
        buildGradientMap_def)
qed

theorem buildGradientMap_central_difference_witness:
  "dxMap (buildGradientMapWith brokenElevation VISUAL_CONFIG) ! (511 * 512 + 0) = 0 \<and>
   dxMap (buildGradientMap VISUAL_CONFIG) ! (511 * 512 + 0) =
     (lossFunction VISUAL_CONFIG (-1000 + 0.05) 1000
        - lossFunction VISUAL_CONFIG (-1000 - 0.05) 1000) / (2 * 0.05) \<and>
   dzMap (buildGradientMap VISUAL_CONFIG) ! (511 * 512 + 0) =
     (lossFunction VISUAL_CONFIG (-1000) (1000 + 0.05)
        - lossFunction VISUAL_CONFIG (-1000) (1000 - 0.05)) / (2 * 0.05)"
  using buildGradientMap_central_difference [of VISUAL_CONFIG 0 511 brokenElevation]
  by (simp add: VISUAL_CONFIG_def RESOLUTION_def MIN_X_def MAX_X_def MIN_Z_def MAX_Z_def
      brokenElevation_def)

section \<open>Sampling the gradient map\<close>


lemma cell0_range:
  assumes "2 \<le> RESOLUTION c"
  shows "0 \<le> cell0 c g" and "cell0 c g \<le> int (RESOLUTION c) - 2"
proof -
  let ?hi = "real (RESOLUTION c) - 2"
  from assms have hi: "0 \<le> ?hi" by simp
  then have lo: "0 \<le> clamp g 0 ?hi" and up: "clamp g 0 ?hi \<le> ?hi"
    by (simp_all add: clamp_def)
  from lo show "0 \<le> cell0 c g" by (simp add: cell0_def)
  from up have "clamp g 0 ?hi < of_int (int (RESOLUTION c) - 2) + 1" by simp
  then show "cell0 c g \<le> int (RESOLUTION c) - 2"
    by (simp only: cell0_def floor_le_iff)
qed

lemma flat_index_range:
  assumes "0 \<le> a" "a \<le> n - 1" "0 \<le> b" "b \<le> n - 1"
  shows "0 \<le> b * n + a" and "b * n + a < n * (n::int)"
proof -
  from assms have n: "1 \<le> n" by simp
  with assms show "0 \<le> b * n + a" by simp
  have "b * n + a \<le> (n - 1) * n + (n - 1)"
    using assms n by (intro add_mono mult_right_mono) simp_all
  also have "\<dots> < n * n" by (simp add: algebra_simps)
  finally show "b * n + a < n * n" .
qed

lemma aget_in_range:
  assumes "0 \<le> i" "i < int (length a)"
  shows "aget a i = Some (a ! nat i)"
  using assms by (simp add: aget_def)

lemma sample_finite:
  assumes res: "2 \<le> RESOLUTION c"
    and len: "length arr = RESOLUTION c * RESOLUTION c"
  shows "\<exists>v. sample c gx gz arr = Some v"
proof -
  let ?n = "int (RESOLUTION c)"
  have len': "int (length arr) = ?n * ?n" using len by simp
  note x = cell0_range [OF res, of gx] and z = cell0_range [OF res, of gz]
  have x0: "0 \<le> cell0 c gx" "cell0 c gx \<le> ?n - 1" using x by simp_all
  have x1: "0 \<le> cell0 c gx + 1" "cell0 c gx + 1 \<le> ?n - 1" using x by simp_all
  have z0: "0 \<le> cell0 c gz" "cell0 c gz \<le> ?n - 1" using z by simp_all
  have z1: "0 \<le> cell0 c gz + 1" "cell0 c gz + 1 \<le> ?n - 1" using z by simp_all
  have "aget arr (cell0 c gz * ?n + cell0 c gx) \<noteq> None"
    using flat_index_range [OF x0 z0] by (simp add: aget_def len')
  moreover have "aget arr (cell0 c gz * ?n + (cell0 c gx + 1)) \<noteq> None"
    using flat_index_range [OF x1 z0] by (simp add: aget_def len')
  moreover have "aget arr ((cell0 c gz + 1) * ?n + cell0 c gx) \<noteq> None"
    using flat_index_range [OF x0 z1] by (simp add: aget_def len')
  moreover have "aget arr ((cell0 c gz + 1) * ?n + (cell0 c gx + 1)) \<noteq> None"
    using flat_index_range [OF x1 z1] by (simp add: aget_def len')
  ultimately show ?thesis
    by (auto simp: sample_def Let_def)
qed

lemma toGrid_finite:
  assumes "hi - lo \<noteq> 0"
  shows "toGrid c lo hi v = Some ((v - lo) / (hi - lo) * (real (RESOLUTION c) - 1))"
  using assms by (simp add: toGrid_def jdiv_def)

text \<open>
  Claim C4. With a resolution of at least 2, a terrain of non-zero width and depth and a
  map whose arrays have \<open>RESOLUTION * RESOLUTION\<close> entries, the sample at any real point
  \<open>(x, z)\<close>, however far outside the terrain, uses cell coordinates \<open>x0\<close>, \<open>x0 + 1\<close>,
  \<open>z0\<close>, \<open>z0 + 1\<close> within \<open>[0, RESOLUTION - 1]\<close>, reads the four array indices within
  \<open>[0, RESOLUTION * RESOLUTION - 1]\<close> and returns two finite numbers; before the map is
  built it returns zero. No branch of \<open>gradient\<close> raises.
\<close>

theorem gradient_reads_in_range:
  assumes res: "2 \<le> RESOLUTION c"
    and w: "WIDTH (TERRAIN c) \<noteq> 0" and d: "DEPTH (TERRAIN c) \<noteq> 0"
    and lx: "length (dxMap m) = RESOLUTION c * RESOLUTION c"
    and lz: "length (dzMap m) = RESOLUTION c * RESOLUTION c"
  shows "\<exists>gx gz gdx gdz.
      toGrid c (MIN_X c) (MAX_X c) xq = Some gx \<and>
      toGrid c (MIN_Z c) (MAX_Z c) zq = Some gz \<and>
      0 \<le> cell0 c gx \<and> cell0 c gx + 1 \<le> int (RESOLUTION c) - 1 \<and>
      0 \<le> cell0 c gz \<and> cell0 c gz + 1 \<le> int (RESOLUTION c) - 1 \<and>
      (\<forall>i \<in> {cell0 c gz * int (RESOLUTION c) + cell0 c gx,
              cell0 c gz * int (RESOLUTION c) + (cell0 c gx + 1),
              (cell0 c gz + 1) * int (RESOLUTION c) + cell0 c gx,
              (cell0 c gz + 1) * int (RESOLUTION c) + (cell0 c gx + 1)}.
         0 \<le> i \<and> i \<le> int (RESOLUTION c) * int (RESOLUTION c) - 1) \<and>
      gradient c (Some m) xq zq = (Some gdx, Some gdz) \<and>
      gradient c None xq zq = (Some 0, Some 0)"
proof -
  let ?n = "int (RESOLUTION c)"
  from w have wx: "MAX_X c - MIN_X c \<noteq> 0" by (simp add: MAX_X_def MIN_X_def)
  from d have dz: "MAX_Z c - MIN_Z c \<noteq> 0" by (simp add: MAX_Z_def MIN_Z_def)
  obtain gx where gx: "toGrid c (MIN_X c) (MAX_X c) xq = Some gx"
    using toGrid_finite [OF wx] by blast
  obtain gz where gz: "toGrid c (MIN_Z c) (MAX_Z c) zq = Some gz"
    using toGrid_finite [OF dz] by blast
  note x = cell0_range [OF res, of gx] and z = cell0_range [OF res, of gz]
  have x0: "0 \<le> cell0 c gx" "cell0 c gx \<le> ?n - 1" using x by simp_all
  have x1: "0 \<le> cell0 c gx + 1" "cell0 c gx + 1 \<le> ?n - 1" using x by simp_all
  have z0: "0 \<le> cell0 c gz" "cell0 c gz \<le> ?n - 1" using z by simp_all
  have z1: "0 \<le> cell0 c gz + 1" "cell0 c gz + 1 \<le> ?n - 1" using z by simp_all
  have idx: "\<forall>i \<in> {cell0 c gz * ?n + cell0 c gx, cell0 c gz * ?n + (cell0 c gx + 1),
              (cell0 c gz + 1) * ?n + cell0 c gx, (cell0 c gz + 1) * ?n + (cell0 c gx + 1)}.
         0 \<le> i \<and> i \<le> ?n * ?n - 1"
    using flat_index_range [OF x0 z0] flat_index_range [OF x1 z0]
      flat_index_range [OF x0 z1] flat_index_range [OF x1 z1]
    by simp
  obtain gdx where gdx: "sample c gx gz (dxMap m) = Some gdx"
    using sample_finite [OF res lx] by blast
  obtain gdz where gdz: "sample c gx gz (dzMap m) = Some gdz"
    using sample_finite [OF res lz] by blast
  have "gradient c (Some m) xq zq = (Some gdx, Some gdz)"
    by (simp add: gradient_def gx gz gdx gdz)
  moreover have "gradient c None xq zq = (Some 0, Some 0)"
    by (simp add: gradient_def)
  ultimately show ?thesis
    using gx gz x0 x1 z0 z1 idx by blast
qed

theorem gradient_reads_in_range_witness:
  "\<exists>gdx gdz. gradient tinyConfig (Some tinyMap) 123456 (-98765) = (Some gdx, Some gdz)"
  using gradient_reads_in_range [of tinyConfig tinyMap 123456 "-98765"]
  by (simp add: tinyConfig_def tinyMap_def VISUAL_CONFIG_def RESOLUTION_def) blast

text \<open>
  Claim C9 does not hold of the code: \<open>gradient\<close> clamps the cell index but takes the
  fractional distance from the unclamped grid coordinate. At \<open>x = 2000\<close>, twice the
  half-width, the weight under \<^verbatim>\<open>VISUAL_CONFIG\<close> is 256.5, not a number in \<open>[0, 1]\<close>. On
  the map of resolution 2 whose \<open>dx\<close> is 0 on the left edge and 1 on the right edge, the
  nearest point of the terrain, \<open>x = 1000\<close>, gives \<open>dx = 1\<close> and \<open>x = 2000\<close> gives
  \<open>dx = 1.5\<close>: an extrapolation beyond every stored value.
\<close>

theorem gradient_extrapolates_outside:
  "toGrid VISUAL_CONFIG (MIN_X VISUAL_CONFIG) (MAX_X VISUAL_CONFIG) 2000 = Some 766.5 \<and>
   cell0 VISUAL_CONFIG 766.5 = 510 \<and>
   cellFrac VISUAL_CONFIG 766.5 = 256.5 \<and>
   gradient tinyConfig (Some tinyMap) 1000 0 = (Some 1, Some 0.5) \<and>
   gradient tinyConfig (Some tinyMap) 2000 0 = (Some 1.5, Some 0.5)"
  by (simp add: gradient_def toGrid_def jdiv_def sample_def cell0_def cellFrac_def clamp_def
      aget_def bilinear_def tinyConfig_def tinyMap_def VISUAL_CONFIG_def RESOLUTION_def
      MIN_X_def MAX_X_def MIN_Z_def MAX_Z_def Let_def)

text \<open>Inside the terrain the weights are interpolation weights.\<close>

lemma cellFrac_inside:
  assumes res: "2 \<le> RESOLUTION c" and g: "0 \<le> g" "g \<le> real (RESOLUTION c) - 1"
  shows "0 \<le> cellFrac c g \<and> cellFrac c g \<le> 1"
proof (cases "g \<le> real (RESOLUTION c) - 2")
  case True
  with g have "clamp g 0 (real (RESOLUTION c) - 2) = g" by (simp add: clamp_def)
  then have "cellFrac c g = g - of_int \<lfloor>g\<rfloor>" by (simp add: cellFrac_def cell0_def)
  moreover have "of_int \<lfloor>g\<rfloor> \<le> g" "g < of_int \<lfloor>g\<rfloor> + 1" by linarith+
  ultimately show ?thesis by linarith
next
  case False
  with res have "clamp g 0 (real (RESOLUTION c) - 2) = of_int (int (RESOLUTION c) - 2)"
    by (simp add: clamp_def)
  then have "cell0 c g = int (RESOLUTION c) - 2" by (simp only: cell0_def floor_of_int)
  then have "cellFrac c g = g - (real (RESOLUTION c) - 2)" by (simp add: cellFrac_def)
  with False g show ?thesis by simp
qed

text \<open>The map that the build returns has arrays of the right length, so every sample
  of it is finite.\<close>

lemma gradient_of_built_map:
  assumes res: "2 \<le> RESOLUTION c"
    and w: "WIDTH (TERRAIN c) \<noteq> 0" and d: "DEPTH (TERRAIN c) \<noteq> 0"
  shows "\<exists>gdx gdz. gradient c (Some (buildGradientMap c)) xq zq = (Some gdx, Some gdz)"
proof -
  from w have wx: "MAX_X c - MIN_X c \<noteq> 0" by (simp add: MAX_X_def MIN_X_def)
  from d have dz: "MAX_Z c - MIN_Z c \<noteq> 0" by (simp add: MAX_Z_def MIN_Z_def)
  obtain gx where gx: "toGrid c (MIN_X c) (MAX_X c) xq = Some gx"
    using toGrid_finite [OF wx] by blast
  obtain gz where gz: "toGrid c (MIN_Z c) (MAX_Z c) zq = Some gz"
    using toGrid_finite [OF dz] by blast
  obtain gdx where gdx: "sample c gx gz (dxMap (buildGradientMap c)) = Some gdx"
    using sample_finite [OF res] buildGradientMapWith_length(1)
    unfolding buildGradientMap_def by blast
  obtain gdz where gdz: "sample c gx gz (dzMap (buildGradientMap c)) = Some gdz"
    using sample_finite [OF res] buildGradientMapWith_length(2)
    unfolding buildGradientMap_def by blast
  show ?thesis by (simp add: gradient_def gx gz gdx gdz)
qed


section \<open>The particle loop\<close>


lemma stepAll_append:
  "stepAll c fs q gm (xs @ ys) =
     (case stepAll c fs q gm xs of
        None \<Rightarrow> None
      | Some a \<Rightarrow> (case stepAll c fs q gm ys of None \<Rightarrow> None | Some b \<Rightarrow> Some (a @ b)))"
  by (induction xs) (auto split: pstep.splits option.splits)

lemma stepAll_snoc:
  "stepAll c fs q gm (xs @ [p]) =
     (case stepAll c fs q gm xs of
        None \<Rightarrow> None
      | Some a \<Rightarrow>
          (case updateParticle c fs q gm p of
             NotFinite \<Rightarrow> None | Removed \<Rightarrow> Some a | Kept p' \<Rightarrow> Some (a @ [p'])))"
  by (simp add: stepAll_append split: option.splits pstep.splits)

lemma particleLoop_stepAll_prefix:
  "n \<le> length ps \<Longrightarrow>
     particleLoop c fs q gm n ps =
       (case stepAll c fs q gm (take n ps) of
          None \<Rightarrow> None
        | Some qs \<Rightarrow> Some (qs @ drop n ps))"
proof (induction n arbitrary: ps)
  case 0
  then show ?case by simp
next
  case (Suc n)
  then have n: "n < length ps" by simp
  have tk: "take (Suc n) ps = take n ps @ [ps ! n]"
    using n by (simp add: take_Suc_conv_app_nth)
  show ?case
  proof (cases "updateParticle c fs q gm (ps ! n)")
    case Removed
    let ?ps' = "take n ps @ drop (Suc n) ps"
    have len: "n \<le> length ?ps'" using n by simp
    have tk': "take n ?ps' = take n ps" using n by simp
    have dr': "drop n ?ps' = drop (Suc n) ps" using n by simp
    have "particleLoop c fs q gm (Suc n) ps = particleLoop c fs q gm n ?ps'"
      using Removed by simp
    also have "\<dots> = (case stepAll c fs q gm (take n ps) of
          None \<Rightarrow> None | Some qs \<Rightarrow> Some (qs @ drop (Suc n) ps))"
      using Suc.IH [OF len] by (simp only: tk' dr')
    also have "\<dots> = (case stepAll c fs q gm (take (Suc n) ps) of
          None \<Rightarrow> None | Some qs \<Rightarrow> Some (qs @ drop (Suc n) ps))"
      using Removed by (simp only: tk stepAll_snoc) (simp split: option.splits)
    finally show ?thesis .
  next
    case (Kept p')
    let ?ps' = "ps[n := p']"
    have len: "n \<le> length ?ps'" using n by simp
    have tk': "take n ?ps' = take n ps" by simp
    have dr': "drop n ?ps' = p' # drop (Suc n) ps"
      using n by (metis Cons_nth_drop_Suc drop_update_cancel length_list_update lessI
          nth_list_update_eq)
    have "particleLoop c fs q gm (Suc n) ps = particleLoop c fs q gm n ?ps'"
      using Kept by simp
    also have "\<dots> = (case stepAll c fs q gm (take n ps) of
          None \<Rightarrow> None | Some qs \<Rightarrow> Some (qs @ p' # drop (Suc n) ps))"
      using Suc.IH [OF len] by (simp only: tk' dr')
    also have "\<dots> = (case stepAll c fs q gm (take (Suc n) ps) of
          None \<Rightarrow> None | Some qs \<Rightarrow> Some (qs @ drop (Suc n) ps))"
      using Kept by (simp only: tk stepAll_snoc) (simp split: option.splits)
    finally show ?thesis .
  next
    case NotFinite
    then show ?thesis
      by (simp add: tk stepAll_snoc split: option.splits)
  qed
qed

lemma particleLoop_stepAll:
  "particleLoop c fs q gm (length ps) ps = stepAll c fs q gm ps"
  by (simp add: particleLoop_stepAll_prefix split: option.splits)

lemma stepAll_forward:
  "stepAll c fs q gm ps = Some ps' \<Longrightarrow> p \<in> set ps \<Longrightarrow>
     updateParticle c fs q gm p = Removed \<or>
     (\<exists>p'. updateParticle c fs q gm p = Kept p' \<and> p' \<in> set ps')"
  by (induction ps arbitrary: ps') (auto split: pstep.splits)


lemma stepAll_length:
  "stepAll c fs q gm ps = Some ps' \<Longrightarrow> length ps' \<le> length ps"
  by (induction ps arbitrary: ps') (auto split: pstep.splits)

lemma rescale_fields:
  "rescale c p = Some p' \<Longrightarrow>
     vx p' = vx p \<and> vz p' = vz p \<and> posX p' = posX p \<and> posZ p' = posZ p \<and>
     age p' = age p \<and> isFading p' = isFading p"
  by (auto simp: rescale_def fadeShrink_def Let_def split: if_splits option.splits)

lemma updateParticle_live:
  assumes "updateParticle c fs 0 gm p = Kept p'" "\<not> isFading p"
  shows "\<exists>gdx gdz. gradient c gm (posX p) (posZ p) = (Some gdx, Some gdz) \<and>
     vx p' = vx p * MOMENTUM (PHYSICS c) - gdx * LEARNING_RATE (PHYSICS c) * fs \<and>
     vz p' = vz p * MOMENTUM (PHYSICS c) - gdz * LEARNING_RATE (PHYSICS c) * fs \<and>
     posX p' = posX p + vx p' * fs \<and>
     posZ p' = posZ p + vz p' * fs \<and>
     age p' = age p + 1 \<and> \<not> isFading p'"
  using assms
  by (auto simp: updateParticle_def physics_def Let_def
      split: option.splits prod.splits if_splits dest!: rescale_fields)

lemma updateParticle_Removed_iff:
  "updateParticle c fs q gm p = Removed \<longleftrightarrow>
     isFading p \<and> meshScale p * (1 - FADE_OUT_SPEED (WAVES c)) < 0.01"
  by (auto simp: updateParticle_def fadeShrink_def Let_def split: option.splits)

lemma updateParticle_Kept_fields:
  "updateParticle c fs q gm p = Kept p' \<Longrightarrow> age p' = age p + 1 \<and> isFading p' = isFading p"
  by (auto simp: updateParticle_def fadeShrink_def physics_def Let_def
      split: option.splits prod.splits if_splits dest!: rescale_fields)

lemma updateParticle_fading:
  assumes "isFading p"
  shows "updateParticle c fs q gm p =
     (if meshScale p * (1 - FADE_OUT_SPEED (WAVES c)) < 0.01 then Removed
      else Kept (p\<lparr> age := age p + 1,
                    meshScale := meshScale p * (1 - FADE_OUT_SPEED (WAVES c))
                                   * (1 - FADE_OUT_SPEED (WAVES c)) \<rparr>))"
  using assms by (simp add: updateParticle_def fadeShrink_def rescale_def Let_def)

lemma animate_Done:
  "animate c inp s = Done s' \<Longrightarrow>
     \<exists>s2. beforeParticles c inp s = Done s2 \<and>
          stepAll c (frameScaleOf inp s) (spawnQueue s2) (gradientMap s2) (particles s2)
            = Some (particles s') \<and>
          s' = s2\<lparr> particles := particles s' \<rparr>"
  by (auto simp: animate_def particleLoop_stepAll split: tick_result.splits option.splits)

section \<open>Physics and fading of a particle\<close>


lemma jpow_None_iff: "jpow b y = None \<longleftrightarrow> b < 0 \<or> (b = 0 \<and> y < 0)"
  by (auto simp: jpow_def)

lemma speed_nonneg: "0 \<le> speed p"
  by (simp add: speed_def)

lemma finalScale_finite:
  assumes "0 < SCALE_DISTRIBUTION_POWER (PARTICLES c)"
  shows "\<exists>v. finalScale c p = Some v"
proof -
  have "finalScale c p \<noteq> None"
    using assms speed_nonneg [of p]
    by (auto simp: finalScale_def Let_def jpow_None_iff clamp_def split: option.splits)
  then show ?thesis by blast
qed

text \<open>
  Claim C8 does not hold of the code: the body of the particle loop multiplies the scale
  of a fading particle by \<open>1 - FADE_OUT_SPEED\<close> twice, once before the removal test and
  once where the scale of a live particle is set. After one tick a fading particle of
  scale 1 has the scale \<open>0.98 * 0.98 = 0.9604\<close>, not \<open>0.98\<close>.
\<close>

theorem fading_shrinks_twice_per_tick:
  "animate VISUAL_CONFIG tick60 waitingSim =
     Done (waitingSim\<lparr> lastFrameTime := 10016.6, timeRef := 10.0166,
            particles := [fadingParticle\<lparr> age := 301, meshScale := 0.9604 \<rparr>] \<rparr>)"
  by (simp add: animate_def beforeParticles_def advanceClock_def spawnPhase_def
      waveTransitions_def endWave_def startSwell_def releaseWave_def opacitySync_def
      allParticlesStopped_def updateParticle_def fadeShrink_def rescale_def
      waitingSim_def tick60_def fadingParticle_def VISUAL_CONFIG_def Let_def)

section \<open>The spawn loop\<close>


lemma spawnLoop_unfold:
  "spawnLoop c inp t i k s =
     (if i < t then
        (case judge c inp k of
           Skip \<Rightarrow> spawnLoop c inp t (i + 1) (Suc k) s
         | Retry \<Rightarrow> spawnLoop c inp t i (Suc k) s
         | Place \<Rightarrow> spawnLoop c inp t (i + 1) (Suc k)
                      (placeParticle inp (fst (the (draws inp k))) (snd (the (draws inp k))) s))
      else Some s)"
  by (subst spawnLoop.simps) (simp add: judge_def split: option.splits)

lemmas spawnLoop_induct = spawnLoop.raw_induct [rotated 1, consumes 1, case_names step]

lemma settledDraws_0: "settledDraws c inp k 0 = 0"
  by (simp add: settledDraws_def)

lemma settledDraws_Suc:
  "settledDraws c inp k (Suc n) =
     (if judge c inp k \<noteq> Retry then 1 else 0) + settledDraws c inp (Suc k) n"
proof -
  have "[k..<k + Suc n] = k # [Suc k..<Suc k + n]"
    by (simp add: upt_conv_Cons)
  then show ?thesis by (simp add: settledDraws_def)
qed

lemma spawnLoop_returns:
  "t - i \<le> int (settledDraws c inp k n) \<Longrightarrow> \<exists>s'. spawnLoop c inp t i k s = Some s'"
proof (induction n arbitrary: i k s)
  case 0
  then have "\<not> i < t" by (simp add: settledDraws_0)
  then show ?case by (subst spawnLoop_unfold) simp
next
  case (Suc n)
  show ?case
  proof (cases "i < t")
    case False
    then show ?thesis by (subst spawnLoop_unfold) simp
  next
    case True
    show ?thesis
    proof (cases "judge c inp k")
      case Skip
      with Suc.prems have "t - (i + 1) \<le> int (settledDraws c inp (Suc k) n)"
        by (simp add: settledDraws_Suc)
      from Suc.IH [OF this] True Skip show ?thesis
        by (subst spawnLoop_unfold) simp
    next
      case Retry
      with Suc.prems have "t - i \<le> int (settledDraws c inp (Suc k) n)"
        by (simp add: settledDraws_Suc)
      from Suc.IH [OF this] True Retry show ?thesis
        by (subst spawnLoop_unfold) simp
    next
      case Place
      with Suc.prems have "t - (i + 1) \<le> int (settledDraws c inp (Suc k) n)"
        by (simp add: settledDraws_Suc)
      from Suc.IH [OF this] True Place show ?thesis
        by (subst spawnLoop_unfold) simp
    qed
  qed
qed

lemma spawnLoop_needs_settled:
  "spawnLoop c inp t i k s = Some s' \<Longrightarrow> \<exists>n. t - i \<le> int (settledDraws c inp k n)"
proof (induction rule: spawnLoop_induct)
  case (step spawnLoop' c inp t i k s s')
  show ?case
  proof (cases "i < t")
    case False
    then have "t - i \<le> int (settledDraws c inp k 0)" by (simp add: settledDraws_0)
    then show ?thesis by blast
  next
    case True
    show ?thesis
    proof (cases "judge c inp k")
      case Skip
      with True step(2) have "spawnLoop' c inp t (i + 1) (Suc k) s = Some s'"
        by (auto simp: judge_def split: option.splits if_splits)
      from step(1) [OF this] obtain n where "t - (i + 1) \<le> int (settledDraws c inp (Suc k) n)"
        by blast
      with Skip have "t - i \<le> int (settledDraws c inp k (Suc n))"
        by (simp add: settledDraws_Suc)
      then show ?thesis by blast
    next
      case Retry
      with True step(2) have "spawnLoop' c inp t i (Suc k) s = Some s'"
        by (auto simp: judge_def split: option.splits if_splits)
      from step(1) [OF this] obtain n where "t - i \<le> int (settledDraws c inp (Suc k) n)"
        by blast
      with Retry have "t - i \<le> int (settledDraws c inp k (Suc n))"
        by (simp add: settledDraws_Suc)
      then show ?thesis by blast
    next
      case Place
      with True step(2) obtain s1 where "spawnLoop' c inp t (i + 1) (Suc k) s1 = Some s'"
        by (auto simp: judge_def split: option.splits if_splits)
      from step(1) [OF this] obtain n where "t - (i + 1) \<le> int (settledDraws c inp (Suc k) n)"
        by blast
      with Place have "t - i \<le> int (settledDraws c inp k (Suc n))"
        by (simp add: settledDraws_Suc)
      then show ?thesis by blast
    qed
  qed
qed

lemma spawnLoop_diverges:
  assumes "\<forall>j \<ge> k. judge c inp j = Retry" "i < t"
  shows "spawnLoop c inp t i k s = None"
proof (rule ccontr)
  assume "spawnLoop c inp t i k s \<noteq> None"
  then obtain s' where "spawnLoop c inp t i k s = Some s'" by blast
  from spawnLoop_needs_settled [OF this] obtain n
    where n: "t - i \<le> int (settledDraws c inp k n)" by blast
  have "settledDraws c inp k n = 0"
    using assms(1) by (auto simp: settledDraws_def filter_empty_conv)
  with n assms(2) show False by simp
qed

text \<open>What a returning loop has done.\<close>

lemma spawnLoop_result:
  "spawnLoop c inp t i k s = Some s' \<Longrightarrow>
     \<exists>new lw. s' = s\<lparr> particles := particles s @ new,
                      spawnQueue := spawnQueue s - int (length new),
                      lastWaveTime := lw \<rparr> \<and>
              int (length new) \<le> max 0 (t - i) \<and> list_all freshParticle new \<and>
              (lw = lastWaveTime s \<or> lw = nowPlaced inp / 1000)"
proof (induction rule: spawnLoop_induct)
  case (step spawnLoop' c inp t i k s s')
  show ?case
  proof (cases "i < t")
    case False
    with step(2) have "s' = s" by simp
    then have "s' = s\<lparr> particles := particles s @ [],
                      spawnQueue := spawnQueue s - int (length ([]::particle list)),
                      lastWaveTime := lastWaveTime s \<rparr>"
      by simp
    moreover have "int (length ([]::particle list)) \<le> max 0 (t - i)"
      "list_all freshParticle []" by simp_all
    ultimately show ?thesis by blast
  next
    case True
    show ?thesis
    proof (cases "judge c inp k")
      case Skip
      with True step(2) have "spawnLoop' c inp t (i + 1) (Suc k) s = Some s'"
        by (auto simp: judge_def split: option.splits if_splits)
      from step(1) [OF this] obtain new lw where
        "s' = s\<lparr> particles := particles s @ new,
                  spawnQueue := spawnQueue s - int (length new), lastWaveTime := lw \<rparr>"
        "int (length new) \<le> max 0 (t - (i + 1))" "list_all freshParticle new"
        "lw = lastWaveTime s \<or> lw = nowPlaced inp / 1000"
        by blast
      moreover then have "int (length new) \<le> max 0 (t - i)" by simp
      ultimately show ?thesis by blast
    next
      case Retry
      with True step(2) have "spawnLoop' c inp t i (Suc k) s = Some s'"
        by (auto simp: judge_def split: option.splits if_splits)
      from step(1) [OF this] show ?thesis .
    next
      case Place
      let ?s1 = "placeParticle inp (fst (the (draws inp k))) (snd (the (draws inp k))) s"
      from Place True step(2) have "spawnLoop' c inp t (i + 1) (Suc k) ?s1 = Some s'"
        by (auto simp: judge_def split: option.splits if_splits)
      from step(1) [OF this] obtain new lw where new:
        "s' = ?s1\<lparr> particles := particles ?s1 @ new,
                  spawnQueue := spawnQueue ?s1 - int (length new), lastWaveTime := lw \<rparr>"
        "int (length new) \<le> max 0 (t - (i + 1))" "list_all freshParticle new"
        "lw = lastWaveTime ?s1 \<or> lw = nowPlaced inp / 1000"
        by blast
      let ?p = "\<lparr> posX = fst (the (draws inp k)), posZ = - snd (the (draws inp k)),
                  vx = 0, vz = 0, age = 0, isFading = False, meshScale = 1 \<rparr>"
      have "s' = s\<lparr> particles := particles s @ (?p # new),
                  spawnQueue := spawnQueue s - int (length (?p # new)), lastWaveTime := lw \<rparr>"
        using new(1) by (simp add: placeParticle_def spawnParticle_def)
      moreover have "int (length (?p # new)) \<le> max 0 (t - i)"
        using new(2) True by simp
      moreover have "list_all freshParticle (?p # new)"
        using new(3) by (simp add: freshParticle_def)
      moreover have "lw = lastWaveTime s \<or> lw = nowPlaced inp / 1000"
        using new(4) by (auto simp: placeParticle_def)
      ultimately show ?thesis by blast
    qed
  qed
qed

lemma judge_miss: "draws inp k = None \<Longrightarrow> judge c inp k = Skip"
  by (simp add: judge_def)

text \<open>A run of rejected draws leaves the slot and the state as they are; a run of
  placed draws at one site fills as many slots.\<close>

lemma spawnLoop_retries:
  assumes "\<forall>j. k \<le> j \<and> j < k + n \<longrightarrow> judge c inp j = Retry" and "i < t"
  shows "spawnLoop c inp t i k s = spawnLoop c inp t i (k + n) s"
  using assms(1)
proof (induction n arbitrary: k)
  case 0
  then show ?case by simp
next
  case (Suc n)
  have "judge c inp k = Retry" using Suc.prems by simp
  then have "spawnLoop c inp t i k s = spawnLoop c inp t i (Suc k) s"
    using assms(2) by (subst spawnLoop_unfold) simp
  also have "\<dots> = spawnLoop c inp t i (Suc k + n) s"
    by (rule Suc.IH) (use Suc.prems in auto)
  finally show ?case by simp
qed

lemma spawnLoop_places:
  assumes "\<forall>j. k \<le> j \<and> j < k + n \<longrightarrow> judge c inp j = Place \<and> draws inp j = Some (hx, hz)"
    and "i + int n \<le> t" and "int n < spawnQueue s"
  shows "spawnLoop c inp t i k s =
     spawnLoop c inp t (i + int n) (k + n)
       (s\<lparr> particles := particles s @ replicate n
               \<lparr> posX = hx, posZ = - hz, vx = 0, vz = 0, age = 0, isFading = False,
                 meshScale = 1 \<rparr>,
           spawnQueue := spawnQueue s - int n \<rparr>)"
  using assms
proof (induction n arbitrary: i k s)
  case 0
  then show ?case by simp
next
  case (Suc n)
  let ?p = "\<lparr> posX = hx, posZ = - hz, vx = 0, vz = 0, age = 0, isFading = False,
              meshScale = 1 \<rparr>"
  define s1 where "s1 = placeParticle inp hx hz s"
  have k: "judge c inp k = Place" "draws inp k = Some (hx, hz)" using Suc.prems(1) by simp_all
  have lt: "i < t" using Suc.prems(2) by simp
  have s1: "s1 = s\<lparr> particles := particles s @ [?p], spawnQueue := spawnQueue s - 1 \<rparr>"
    using Suc.prems(3) by (simp add: s1_def placeParticle_def spawnParticle_def)
  have "spawnLoop c inp t i k s = spawnLoop c inp t (i + 1) (Suc k) s1"
    using k lt by (subst spawnLoop_unfold) (simp add: s1_def)
  also have "\<dots> = spawnLoop c inp t (i + 1 + int n) (Suc k + n)
       (s1\<lparr> particles := particles s1 @ replicate n ?p,
            spawnQueue := spawnQueue s1 - int n \<rparr>)"
    by (rule Suc.IH) (use Suc.prems in \<open>auto simp: s1\<close>)
  also have "s1\<lparr> particles := particles s1 @ replicate n ?p,
            spawnQueue := spawnQueue s1 - int n \<rparr> =
       s\<lparr> particles := particles s @ replicate (Suc n) ?p,
          spawnQueue := spawnQueue s - int (Suc n) \<rparr>"
    by (simp add: s1)
  finally show ?case by (simp add: add.commute add.left_commute)
qed

section \<open>Elevations of the terrain of \<^verbatim>\<open>VISUAL_CONFIG\<close>\<close>


text \<open>One octave is at most 1.\<close>

lemma ridged_le_one: "ridged n \<le> 1"
proof -
  define a where "a = 1 - \<bar>n * 2 - 1\<bar>"
  have a: "a \<le> 1" by (simp add: a_def)
  have "a ^ 3 \<le> 1"
  proof (cases "0 \<le> a")
    case True
    with a show ?thesis by (simp add: power_le_one)
  next
    case False
    then have "0 < a * a" by (simp add: mult_neg_neg)
    with False have "a * a * a < 0" by (simp add: mult_pos_neg)
    then show ?thesis by (simp add: power3_eq_cube)
  qed
  then show ?thesis by (simp add: ridged_def a_def)
qed


subsection \<open>Enclosures of the sine\<close>

text \<open>
  The Taylor polynomial of degree 13 of the sine in Horner form, with the remainder
  \<open>|y|^15 / 15!\<close>, evaluated on an interval \<open>[yl, yu]\<close> of non-negative numbers: \<open>[ql, qu]\<close>
  encloses \<open>y * y\<close> and \<open>[lf, uf]\<close>, \<dots>, \<open>[la, ua]\<close> enclose the nested factors, from
  the innermost to the outermost.
\<close>

lemma fact15: "(fact 15 :: real) = 1307674368000"
  by (simp add: fact_numeral)

lemma sin_poly_15:
  "(\<Sum>m<15. sin_coeff m * x ^ m) =
     x - x^3 / 6 + x^5 / 120 - x^7 / 5040 + x^9 / 362880 - x^11 / 39916800
       + x^13 / 6227020800" for x :: real
  by (simp add: sin_coeff_def lessThan_nat_numeral fact_numeral)

lemma sin_horner:
  "x - x^3 / 6 + x^5 / 120 - x^7 / 5040 + x^9 / 362880 - x^11 / 39916800
       + x^13 / 6227020800 =
   x * (1 - x * x * (1 - x * x * (1 - x * x * (1 - x * x * (1 - x * x * (1 - x * x / 156)
      / 110) / 72) / 42) / 20) / 6)" for x :: real
  by (simp add: field_simps power_numeral_reduce)

lemma sin_taylor_15:
  "\<bar>sin r - r * (1 - r * r * (1 - r * r * (1 - r * r * (1 - r * r * (1 - r * r *
       (1 - r * r / 156) / 110) / 72) / 42) / 20) / 6)\<bar> \<le> \<bar>r\<bar> ^ 15 / 1307674368000"
  for r :: real
proof -
  have "\<bar>sin r - (\<Sum>m<15. sin_coeff m * r ^ m)\<bar> \<le> inverse (fact 15) * \<bar>r\<bar> ^ 15"
    by (rule Maclaurin_sin_bound)
  also have "inverse (fact 15) * \<bar>r\<bar> ^ 15 = \<bar>r\<bar> ^ 15 / 1307674368000"
    by (simp only: fact15 divide_inverse mult.commute)
  finally show ?thesis by (simp only: sin_poly_15 sin_horner)
qed

lemma horner_step:
  fixes q t :: real
  assumes "ql \<le> q" "q \<le> qu" "l \<le> t" "t \<le> u" "0 \<le> ql" "0 \<le> l" "0 < c"
    and "l' \<le> 1 - qu * u / c" "1 - ql * l / c \<le> u'"
  shows "l' \<le> 1 - q * t / c \<and> 1 - q * t / c \<le> u'"
proof -
  have "ql * l \<le> q * t" using assms by (intro mult_mono) simp_all
  moreover have "q * t \<le> qu * u" using assms by (intro mult_mono) simp_all
  ultimately have "ql * l / c \<le> q * t / c" "q * t / c \<le> qu * u / c"
    using assms(7) by (simp_all add: divide_right_mono)
  with assms(8,9) show ?thesis by linarith
qed

lemma sin_interval:
  fixes y yl yu b R :: real
  assumes y: "yl \<le> y" "y \<le> yu" "0 \<le> yl" "yu \<le> b" "b ^ 15 / 1307674368000 \<le> R"
    and q: "ql \<le> yl * yl" "yu * yu \<le> qu" "0 \<le> ql"
    and t6: "lf \<le> 1 - qu / 156" "1 - ql / 156 \<le> uf" "0 \<le> lf"
    and t5: "le \<le> 1 - qu * uf / 110" "1 - ql * lf / 110 \<le> ue" "0 \<le> le"
    and t4: "ld \<le> 1 - qu * ue / 72" "1 - ql * le / 72 \<le> ud" "0 \<le> ld"
    and t3: "lc \<le> 1 - qu * ud / 42" "1 - ql * ld / 42 \<le> uc" "0 \<le> lc"
    and t2: "lb \<le> 1 - qu * uc / 20" "1 - ql * lc / 20 \<le> ub" "0 \<le> lb"
    and t1: "la \<le> 1 - qu * ub / 6" "1 - ql * lb / 6 \<le> ua" "0 \<le> la"
    and res: "sl \<le> yl * la - R" "yu * ua + R \<le> su"
  shows "sl \<le> sin y \<and> sin y \<le> su"
proof -
  have y0: "0 \<le> y" using y by simp
  have qy: "ql \<le> y * y" "y * y \<le> qu"
  proof -
    have "yl * yl \<le> y * y" using y by (intro mult_mono) simp_all
    with q show "ql \<le> y * y" by simp
    have "y * y \<le> yu * yu" using y y0 by (intro mult_mono) simp_all
    with q show "y * y \<le> qu" by simp
  qed
  define s6 where "s6 = 1 - y * y / 156"
  define s5 where "s5 = 1 - y * y * s6 / 110"
  define s4 where "s4 = 1 - y * y * s5 / 72"
  define s3 where "s3 = 1 - y * y * s4 / 42"
  define s2 where "s2 = 1 - y * y * s3 / 20"
  define s1 where "s1 = 1 - y * y * s2 / 6"
  have b6: "lf \<le> s6 \<and> s6 \<le> uf"
    using horner_step [of ql "y * y" qu 1 1 1 156 lf uf] qy q(3) t6 by (simp add: s6_def)
  have b5: "le \<le> s5 \<and> s5 \<le> ue"
    unfolding s5_def using qy q(3) t6(3) t5 b6 by (intro horner_step [of ql _ qu lf _ uf]) simp_all
  have b4: "ld \<le> s4 \<and> s4 \<le> ud"
    unfolding s4_def using qy q(3) t5(3) t4 b5 by (intro horner_step [of ql _ qu le _ ue]) simp_all
  have b3: "lc \<le> s3 \<and> s3 \<le> uc"
    unfolding s3_def using qy q(3) t4(3) t3 b4 by (intro horner_step [of ql _ qu ld _ ud]) simp_all
  have b2: "lb \<le> s2 \<and> s2 \<le> ub"
    unfolding s2_def using qy q(3) t3(3) t2 b3 by (intro horner_step [of ql _ qu lc _ uc]) simp_all
  have b1: "la \<le> s1 \<and> s1 \<le> ua"
    unfolding s1_def using qy q(3) t2(3) t1 b2 by (intro horner_step [of ql _ qu lb _ ub]) simp_all
  have P: "y * (1 - y * y * (1 - y * y * (1 - y * y * (1 - y * y * (1 - y * y *
       (1 - y * y / 156) / 110) / 72) / 42) / 20) / 6) = y * s1"
    by (simp only: s1_def s2_def s3_def s4_def s5_def s6_def)
  have lo: "yl * la \<le> y * s1" using y b1 t1(3) by (intro mult_mono) simp_all
  have s1pos: "0 \<le> s1" using b1 t1(3) by simp
  have hi: "y * s1 \<le> yu * ua" using y y0 b1 s1pos by (intro mult_mono) simp_all
  have "\<bar>y\<bar> ^ 15 \<le> b ^ 15" using y y0 by (intro power_mono) simp_all
  then have "\<bar>y\<bar> ^ 15 / 1307674368000 \<le> b ^ 15 / 1307674368000"
    by (simp add: divide_right_mono)
  with y(5) have R: "\<bar>y\<bar> ^ 15 / 1307674368000 \<le> R" by simp
  from sin_taylor_15 [of y] have "\<bar>sin y - y * s1\<bar> \<le> \<bar>y\<bar> ^ 15 / 1307674368000"
    by (simp only: P)
  with R lo hi res show ?thesis by linarith
qed

text \<open>Bounds of \<open>pi\<close>, from \<open>sin (pi / 6) = 1 / 2\<close> and the monotonicity of the sine.\<close>

lemma pi_lower: "3.141592653589788 < pi"
proof (rule ccontr)
  assume "\<not> 3.141592653589788 < pi"
  then have "pi / 6 \<le> 0.523598775598298" by simp
  moreover have "(0.523598775598298::real) \<le> pi / 2" using pi_ge_two by simp
  ultimately have "sin (pi / 6) \<le> sin (0.523598775598298::real)"
    by (intro sin_monotone_2pi_le) simp_all
  then have "1 / 2 \<le> sin (0.523598775598298::real)" by (simp add: sin_30)
  moreover have "0.4999999999999992433074 \<le> sin (0.523598775598298::real) \<and>
      sin (0.523598775598298::real) \<le> 0.499999999999999337605"
    by (rule sin_interval
      [where yl = "0.523598775598298" and yu = "0.523598775598298" and b = "0.524"
        and R = "0.0000000000000000471487" and ql = "0.2741556778080368251278"
        and qu = "0.2741556778080368251279" and lf = "0.9982425918089228408645"
        and uf = "0.9982425918089228408646" and le = "0.9975120556875070302666"
        and ue = "0.9975120556875070302667" and ld = "0.9962017556423792129884"
        and ud = "0.9962017556423792129885" and lc = "0.9934972769630549345989"
        and uc = "0.993497276963054934599" and lb = "0.9863813540316877392483"
        and ub = "0.9863813540316877392484" and la = "0.9549296585513722517861"
        and ua = "0.9549296585513722517862" and sl = "0.4999999999999992433074"
        and su = "0.499999999999999337605"])
      (simp_all add: power_divide)
  ultimately show False by simp
qed

lemma pi_upper: "pi < 3.1415926535898"
proof (rule ccontr)
  assume "\<not> pi < 3.1415926535898"
  then have "0.5235987755983 \<le> pi / 6" by simp
  then have "sin (0.5235987755983::real) \<le> sin (pi / 6)"
    by (intro sin_monotone_2pi_le) simp_all
  then have "sin (0.5235987755983::real) \<le> 1 / 2" by (simp add: sin_30)
  moreover have "0.5000000000000009753582 \<le> sin (0.5235987755983::real) \<and>
      sin (0.5235987755983::real) \<le> 0.5000000000000010696557"
    by (rule sin_interval
      [where yl = "0.5235987755983" and yu = "0.5235987755983" and b = "0.524"
        and R = "0.0000000000000000471487" and ql = "0.2741556778080389195229"
        and qu = "0.274155677808038919523" and lf = "0.9982425918089228274389"
        and uf = "0.998242591808922827439" and le = "0.9975120556875070112935"
        and ue = "0.9975120556875070112936" and ld = "0.9962017556423791840442"
        and ud = "0.9962017556423791840443" and lc = "0.9934972769630548851107"
        and uc = "0.9934972769630548851108" and lb = "0.9863813540316876358879"
        and ub = "0.986381354031687635888" and la = "0.9549296585513719121968"
        and ua = "0.9549296585513719121969" and sl = "0.5000000000000009753582"
        and su = "0.5000000000000010696557"])
      (simp_all add: power_divide)
  ultimately show False by simp
qed

text \<open>The sine of a number and of its distance to a multiple of \<open>pi\<close>.\<close>

lemma sin_reduce:
  "sin x = sin (x - 2 * real j * pi)"
  "sin x = sin ((2 * real j + 1) * pi - x)"
  "sin x = - sin (2 * real j * pi - x)"
  "sin x = - sin (x - (2 * real j + 1) * pi)"
proof -
  have c: "cos (2 * real j * pi) = 1" and s: "sin (2 * real j * pi) = 0"
    by simp_all
  show 1: "sin x = sin (x - 2 * real j * pi)" by (simp add: sin_diff c s)
  show 3: "sin x = - sin (2 * real j * pi - x)" by (simp add: sin_diff c s)
  have "(2 * real j + 1) * pi - x = pi - (x - 2 * real j * pi)" by (simp add: algebra_simps)
  then have "sin ((2 * real j + 1) * pi - x) = sin (x - 2 * real j * pi)"
    by (simp only: sin_pi_minus)
  with 1 show "sin x = sin ((2 * real j + 1) * pi - x)" by simp
  have "x - (2 * real j + 1) * pi = (x - 2 * real j * pi) - pi" by (simp add: algebra_simps)
  then have "sin (x - (2 * real j + 1) * pi) = - sin (x - 2 * real j * pi)"
    by (simp only: sin_minus_pi)
  with 1 show "sin x = - sin (x - (2 * real j + 1) * pi)" by simp
qed

subsection \<open>Values of the hash\<close>

text \<open>
  An enclosure of the sine of the argument gives one of the hash, when the scaled
  enclosure lies between two neighbouring integers.
\<close>

lemma hash_enclosure:
  fixes sl su :: real
  assumes "sl \<le> sin ((qx + SEED (TERRAIN c)) * 12.9898 + (qz + SEED (TERRAIN c)) * 78.233)
           \<and> sin ((qx + SEED (TERRAIN c)) * 12.9898 + (qz + SEED (TERRAIN c)) * 78.233) \<le> su"
    and "of_int m \<le> sl * 43758.5453123" and "su * 43758.5453123 < of_int m + 1"
  shows "sl * 43758.5453123 - of_int m \<le> hash c qx qz \<and>
         hash c qx qz \<le> su * 43758.5453123 - of_int m"
proof -
  define v where "v = sin ((qx + SEED (TERRAIN c)) * 12.9898 + (qz + SEED (TERRAIN c)) * 78.233)
                        * 43758.5453123"
  from assms(1) have v: "sl * 43758.5453123 \<le> v" "v \<le> su * 43758.5453123"
    by (simp_all add: v_def)
  with assms(2,3) have b: "of_int m \<le> v" "v < of_int m + 1" by linarith+
  then have "\<lfloor>v\<rfloor> = m" by (simp add: floor_unique)
  moreover have "hash c qx qz = v - of_int \<lfloor>v\<rfloor>" by (simp add: hash_def v_def Let_def)
  ultimately show ?thesis using v by simp
qed

text \<open>
  The hash of \<^verbatim>\<open>VISUAL_CONFIG\<close> at the lattice points \<open>(0, iz)\<close> that the elevations below
  use. In each proof \<open>y\<close> is the distance of the argument of the sine to the nearest
  multiple of \<open>pi\<close>.
\<close>

lemma hash_0_m18:
  "0.98745 \<le> hash VISUAL_CONFIG 0 (- 18) \<and> hash VISUAL_CONFIG 0 (- 18) \<le> 0.98762"
proof -
  define y :: real where "y = 159847 * pi - 502174.092057727995984"
  have y: "0.0688406388464 \<le> y" "y \<le> 0.0688406407647"
    unfolding y_def using pi_lower pi_upper by simp_all
  have sy: "0.0687862778277 \<le> sin y \<and> sin y \<le> 0.068786281511"
    by (rule sin_interval
      [where yl = "0.0688406388464" and yu = "0.0688406407647" and b = "1.6"
         and R = "0.0000000008817" and ql = "0.0047390335567" and qu = "0.0047390338209"
         and lf = "0.999969621578" and uf = "0.9999696215798" and le = "0.9999569191831"
         and ue = "0.9999569191856" and ld = "0.9999341829213" and ud = "0.9999341829251"
         and lc = "0.9998871732878" and uc = "0.9998871732942" and lb = "0.9997630750434"
         and ub = "0.9997630750567" and la = "0.9992103481624" and ua = "0.9992103482065"
         and sl = "0.0687862778277" and su = "0.068786281511",
       OF y]) (simp_all add: power_divide)
  have red: "sin (502174.092057727995984::real) = sin y"
    unfolding y_def using sin_reduce(2) [of "502174.092057727995984" 79923] by simp
  have th: "(0 + SEED (TERRAIN VISUAL_CONFIG)) * 12.9898
      + ((- 18) + SEED (TERRAIN VISUAL_CONFIG)) * 78.233 = 502174.092057727995984"
    by (simp add: VISUAL_CONFIG_def)
  have s: "0.0687862778277 \<le> sin (502174.092057727995984::real) \<and>
      sin (502174.092057727995984::real) \<le> 0.068786281511"
    using sy unfolding red by simp
  have "0.0687862778277 * 43758.5453123 - of_int (3009) \<le> hash VISUAL_CONFIG 0 (- 18) \<and>
      hash VISUAL_CONFIG 0 (- 18) \<le> 0.068786281511 * 43758.5453123 - of_int (3009)"
  proof (rule hash_enclosure)
    show "0.0687862778277 \<le> sin ((0 + SEED (TERRAIN VISUAL_CONFIG)) * 12.9898
        + ((- 18) + SEED (TERRAIN VISUAL_CONFIG)) * 78.233) \<and>
      sin ((0 + SEED (TERRAIN VISUAL_CONFIG)) * 12.9898
        + ((- 18) + SEED (TERRAIN VISUAL_CONFIG)) * 78.233) \<le> 0.068786281511"
      unfolding th by (rule s)
  qed simp_all
  then show ?thesis by simp
qed

lemma hash_0_m17:
  "0.69964 \<le> hash VISUAL_CONFIG 0 (- 17) \<and> hash VISUAL_CONFIG 0 (- 17) \<le> 0.69982"
proof -
  define y :: real where "y = 159872 * pi - 502252.325057727995984"
  have y: "0.3756569785911 \<le> y" "y \<le> 0.3756569805097"
    unfolding y_def using pi_lower pi_upper by simp_all
  have sy: "0.3668837726117 \<le> sin y \<and> sin y \<le> 0.3668837763393"
    by (rule sin_interval
      [where yl = "0.3756569785911" and yu = "0.3756569805097" and b = "1.6"
         and R = "0.0000000008817" and ql = "0.1411181655641" and qu = "0.1411181670057"
         and lf = "0.9990953963653" and uf = "0.9990953963746" and le = "0.9987182680818"
         and ue = "0.998718268095" and ld = "0.9980425376201" and ud = "0.9980425376402"
         and lc = "0.9966466206308" and uc = "0.9966466206652" and lb = "0.9929677527869"
         and ub = "0.9929677528591" and la = "0.9766457018034" and ua = "0.9766457020438"
         and sl = "0.3668837726117" and su = "0.3668837763393",
       OF y]) (simp_all add: power_divide)
  have red: "sin (502252.325057727995984::real) = - sin y"
    unfolding y_def using sin_reduce(3) [of "502252.325057727995984" 79936] by simp
  have th: "(0 + SEED (TERRAIN VISUAL_CONFIG)) * 12.9898
      + ((- 17) + SEED (TERRAIN VISUAL_CONFIG)) * 78.233 = 502252.325057727995984"
    by (simp add: VISUAL_CONFIG_def)
  have s: "- 0.3668837763393 \<le> sin (502252.325057727995984::real) \<and>
      sin (502252.325057727995984::real) \<le> - 0.3668837726117"
    using sy unfolding red by simp
  have "- 0.3668837763393 * 43758.5453123 - of_int (-16055) \<le> hash VISUAL_CONFIG 0 (- 17) \<and>
      hash VISUAL_CONFIG 0 (- 17) \<le> - 0.3668837726117 * 43758.5453123 - of_int (-16055)"
  proof (rule hash_enclosure)
    show "- 0.3668837763393 \<le> sin ((0 + SEED (TERRAIN VISUAL_CONFIG)) * 12.9898
        + ((- 17) + SEED (TERRAIN VISUAL_CONFIG)) * 78.233) \<and>
      sin ((0 + SEED (TERRAIN VISUAL_CONFIG)) * 12.9898
        + ((- 17) + SEED (TERRAIN VISUAL_CONFIG)) * 78.233) \<le> - 0.3668837726117"
      unfolding th by (rule s)
  qed simp_all
  then show ?thesis by simp
qed

lemma hash_0_m9:
  "0.54258 \<le> hash VISUAL_CONFIG 0 (- 9) \<and> hash VISUAL_CONFIG 0 (- 9) \<le> 0.54276"
proof -
  define y :: real where "y = 502878.189057727995984 - 160071 * pi"
  have y: "0.3114049551201 \<le> y" "y \<le> 0.3114049570411"
    unfolding y_def using pi_lower pi_upper by simp_all
  have sy: "0.3063963199074 \<le> sin y \<and> sin y \<le> 0.3063963236231"
    by (rule sin_interval
      [where yl = "0.3114049551201" and yu = "0.3114049570411" and b = "1.6"
         and R = "0.0000000008817" and ql = "0.0969730460733" and qu = "0.0969730472698"
         and lf = "0.9993783779021" and uf = "0.9993783779098" and le = "0.9991189748483"
         and ue = "0.9991189748593" and ld = "0.998654338728" and ud = "0.9986543387448"
         and lc = "0.9976942248953" and uc = "0.9976942249238" and lb = "0.9951625275382"
         and ub = "0.9951625275982" and la = "0.9839160095283" and ua = "0.9839160097278"
         and sl = "0.3063963199074" and su = "0.3063963236231",
       OF y]) (simp_all add: power_divide)
  have red: "sin (502878.189057727995984::real) = - sin y"
    unfolding y_def using sin_reduce(4) [of "502878.189057727995984" 80035] by simp
  have th: "(0 + SEED (TERRAIN VISUAL_CONFIG)) * 12.9898
      + ((- 9) + SEED (TERRAIN VISUAL_CONFIG)) * 78.233 = 502878.189057727995984"
    by (simp add: VISUAL_CONFIG_def)
  have s: "- 0.3063963236231 \<le> sin (502878.189057727995984::real) \<and>
      sin (502878.189057727995984::real) \<le> - 0.3063963199074"
    using sy unfolding red by simp
  have "- 0.3063963236231 * 43758.5453123 - of_int (-13408) \<le> hash VISUAL_CONFIG 0 (- 9) \<and>
      hash VISUAL_CONFIG 0 (- 9) \<le> - 0.3063963199074 * 43758.5453123 - of_int (-13408)"
  proof (rule hash_enclosure)
    show "- 0.3063963236231 \<le> sin ((0 + SEED (TERRAIN VISUAL_CONFIG)) * 12.9898
        + ((- 9) + SEED (TERRAIN VISUAL_CONFIG)) * 78.233) \<and>
      sin ((0 + SEED (TERRAIN VISUAL_CONFIG)) * 12.9898
        + ((- 9) + SEED (TERRAIN VISUAL_CONFIG)) * 78.233) \<le> - 0.3063963199074"
      unfolding th by (rule s)
  qed simp_all
  then show ?thesis by simp
qed

lemma hash_0_m8:
  "0.79039 \<le> hash VISUAL_CONFIG 0 (- 8) \<and> hash VISUAL_CONFIG 0 (- 8) \<le> 0.79056"
proof -
  define y :: real where "y = 502956.422057727995984 - 160096 * pi"
  have y: "0.0045886153751 \<le> y" "y \<le> 0.0045886172964"
    unfolding y_def using pi_lower pi_upper by simp_all
  have sy: "0.0045885983908 \<le> sin y \<and> sin y \<le> 0.0045886020756"
    by (rule sin_interval
      [where yl = "0.0045886153751" and yu = "0.0045886172964" and b = "1.6"
         and R = "0.0000000008817" and ql = "0.000021055391" and qu = "0.0000210554087"
         and lf = "0.9999998650294" and uf = "0.9999998650296" and le = "0.9999998085872"
         and ue = "0.9999998085874" and ld = "0.9999997075638" and ud = "0.9999997075641"
         and lc = "0.9999994986808" and uc = "0.9999994986814" and lb = "0.99999894723"
         and ub = "0.999998947231" and la = "0.9999964907689" and ua = "0.9999964907719"
         and sl = "0.0045885983908" and su = "0.0045886020756",
       OF y]) (simp_all add: power_divide)
  have red: "sin (502956.422057727995984::real) = sin y"
    unfolding y_def using sin_reduce(1) [of "502956.422057727995984" 80048] by simp
  have th: "(0 + SEED (TERRAIN VISUAL_CONFIG)) * 12.9898
      + ((- 8) + SEED (TERRAIN VISUAL_CONFIG)) * 78.233 = 502956.422057727995984"
    by (simp add: VISUAL_CONFIG_def)
  have s: "0.0045885983908 \<le> sin (502956.422057727995984::real) \<and>
      sin (502956.422057727995984::real) \<le> 0.0045886020756"
    using sy unfolding red by simp
  have "0.0045885983908 * 43758.5453123 - of_int (200) \<le> hash VISUAL_CONFIG 0 (- 8) \<and>
      hash VISUAL_CONFIG 0 (- 8) \<le> 0.0045886020756 * 43758.5453123 - of_int (200)"
  proof (rule hash_enclosure)
    show "0.0045885983908 \<le> sin ((0 + SEED (TERRAIN VISUAL_CONFIG)) * 12.9898
        + ((- 8) + SEED (TERRAIN VISUAL_CONFIG)) * 78.233) \<and>
      sin ((0 + SEED (TERRAIN VISUAL_CONFIG)) * 12.9898
        + ((- 8) + SEED (TERRAIN VISUAL_CONFIG)) * 78.233) \<le> 0.0045886020756"
      unfolding th by (rule s)
  qed simp_all
  then show ?thesis by simp
qed

lemma hash_0_m5:
  "0.33154 \<le> hash VISUAL_CONFIG 0 (- 5) \<and> hash VISUAL_CONFIG 0 (- 5) \<le> 0.33172"
proof -
  define y :: real where "y = 160171 * pi - 503191.121057727995984"
  have y: "0.9158604019377 \<le> y" "y \<le> 0.9158604038599"
    unfolding y_def using pi_lower pi_upper by simp_all
  have sy: "0.7930869570418 \<le> sin y \<and> sin y \<le> 0.7930869610078"
    by (rule sin_interval
      [where yl = "0.9158604019377" and yu = "0.9158604038599" and b = "1.6"
         and R = "0.0000000008817" and ql = "0.8388002758374" and qu = "0.8388002793585"
         and lf = "0.9946230751323" and uf = "0.9946230751549" and le = "0.9924155444245"
         and ue = "0.9924155444566" and ld = "0.9884383550565" and ud = "0.9884383551055"
         and lc = "0.9802594674192" and uc = "0.9802594675032" and lb = "0.9588879042407"
         and ub = "0.9588879044169" and la = "0.8659474263169" and ua = "0.8659474269043"
         and sl = "0.7930869570418" and su = "0.7930869610078",
       OF y]) (simp_all add: power_divide)
  have red: "sin (503191.121057727995984::real) = sin y"
    unfolding y_def using sin_reduce(2) [of "503191.121057727995984" 80085] by simp
  have th: "(0 + SEED (TERRAIN VISUAL_CONFIG)) * 12.9898
      + ((- 5) + SEED (TERRAIN VISUAL_CONFIG)) * 78.233 = 503191.121057727995984"
    by (simp add: VISUAL_CONFIG_def)
  have s: "0.7930869570418 \<le> sin (503191.121057727995984::real) \<and>
      sin (503191.121057727995984::real) \<le> 0.7930869610078"
    using sy unfolding red by simp
  have "0.7930869570418 * 43758.5453123 - of_int (34704) \<le> hash VISUAL_CONFIG 0 (- 5) \<and>
      hash VISUAL_CONFIG 0 (- 5) \<le> 0.7930869610078 * 43758.5453123 - of_int (34704)"
  proof (rule hash_enclosure)
    show "0.7930869570418 \<le> sin ((0 + SEED (TERRAIN VISUAL_CONFIG)) * 12.9898
        + ((- 5) + SEED (TERRAIN VISUAL_CONFIG)) * 78.233) \<and>
      sin ((0 + SEED (TERRAIN VISUAL_CONFIG)) * 12.9898
        + ((- 5) + SEED (TERRAIN VISUAL_CONFIG)) * 78.233) \<le> 0.7930869610078"
      unfolding th by (rule s)
  qed simp_all
  then show ?thesis by simp
qed

lemma hash_0_m4:
  "0.27408 \<le> hash VISUAL_CONFIG 0 (- 4) \<and> hash VISUAL_CONFIG 0 (- 4) \<le> 0.27427"
proof -
  define y :: real where "y = 160196 * pi - 503269.354057727995984"
  have y: "1.2226767416824 \<le> y" "y \<le> 1.2226767436049"
    unfolding y_def using pi_lower pi_upper by simp_all
  have sy: "0.94001584006 \<le> sin y \<and> sin y \<le> 0.9400158442622"
    by (rule sin_interval
      [where yl = "1.2226767416824" and yu = "1.2226767436049" and b = "1.6"
         and R = "0.0000000008817" and ql = "1.494938414651" and qu = "1.4949384193523"
         and lf = "0.9904170614144" and uf = "0.9904170614446" and le = "0.9865398862151"
         and ue = "0.9865398862579" and ld = "0.9795164391918" and ud = "0.9795164392572"
         and lc = "0.9651353152992" and uc = "0.9651353154112" and lb = "0.9278591068559"
         and ub = "0.9278591070912" and la = "0.7688179621772" and ua = "0.7688179629629"
         and sl = "0.94001584006" and su = "0.9400158442622",
       OF y]) (simp_all add: power_divide)
  have red: "sin (503269.354057727995984::real) = - sin y"
    unfolding y_def using sin_reduce(3) [of "503269.354057727995984" 80098] by simp
  have th: "(0 + SEED (TERRAIN VISUAL_CONFIG)) * 12.9898
      + ((- 4) + SEED (TERRAIN VISUAL_CONFIG)) * 78.233 = 503269.354057727995984"
    by (simp add: VISUAL_CONFIG_def)
  have s: "- 0.9400158442622 \<le> sin (503269.354057727995984::real) \<and>
      sin (503269.354057727995984::real) \<le> - 0.94001584006"
    using sy unfolding red by simp
  have "- 0.9400158442622 * 43758.5453123 - of_int (-41134) \<le> hash VISUAL_CONFIG 0 (- 4) \<and>
      hash VISUAL_CONFIG 0 (- 4) \<le> - 0.94001584006 * 43758.5453123 - of_int (-41134)"
  proof (rule hash_enclosure)
    show "- 0.9400158442622 \<le> sin ((0 + SEED (TERRAIN VISUAL_CONFIG)) * 12.9898
        + ((- 4) + SEED (TERRAIN VISUAL_CONFIG)) * 78.233) \<and>
      sin ((0 + SEED (TERRAIN VISUAL_CONFIG)) * 12.9898
        + ((- 4) + SEED (TERRAIN VISUAL_CONFIG)) * 78.233) \<le> - 0.94001584006"
      unfolding th by (rule s)
  qed simp_all
  then show ?thesis by simp
qed

lemma hash_0_m2:
  "0.84199 \<le> hash VISUAL_CONFIG 0 (- 2) \<and> hash VISUAL_CONFIG 0 (- 2) \<le> 0.84219"
proof -
  define y :: real where "y = 503425.820057727995984 - 160245 * pi"
  have y: "1.3052832304949 \<le> y" "y \<le> 1.305283232418"
    unfolding y_def using pi_lower pi_upper by simp_all
  have sy: "0.9649579873249 \<le> sin y \<and> sin y \<le> 0.9649579916062"
    by (rule sin_interval
      [where yl = "1.3052832304949" and yu = "1.305283232418" and b = "1.6"
         and R = "0.0000000008817" and ql = "1.7037643118112" and qu = "1.7037643168316"
         and lf = "0.9890784338664" and uf = "0.9890784338987" and le = "0.9846803950706"
         and ue = "0.9846803951164" and ld = "0.976699120546" and ud = "0.9766991206159"
         and lc = "0.9603794021431" and uc = "0.9603794022628" and lb = "0.9181869921902"
         and ub = "0.9181869924416" and la = "0.7392709610165" and ua = "0.7392709618562"
         and sl = "0.9649579873249" and su = "0.9649579916062",
       OF y]) (simp_all add: power_divide)
  have red: "sin (503425.820057727995984::real) = - sin y"
    unfolding y_def using sin_reduce(4) [of "503425.820057727995984" 80122] by simp
  have th: "(0 + SEED (TERRAIN VISUAL_CONFIG)) * 12.9898
      + ((- 2) + SEED (TERRAIN VISUAL_CONFIG)) * 78.233 = 503425.820057727995984"
    by (simp add: VISUAL_CONFIG_def)
  have s: "- 0.9649579916062 \<le> sin (503425.820057727995984::real) \<and>
      sin (503425.820057727995984::real) \<le> - 0.9649579873249"
    using sy unfolding red by simp
  have "- 0.9649579916062 * 43758.5453123 - of_int (-42226) \<le> hash VISUAL_CONFIG 0 (- 2) \<and>
      hash VISUAL_CONFIG 0 (- 2) \<le> - 0.9649579873249 * 43758.5453123 - of_int (-42226)"
  proof (rule hash_enclosure)
    show "- 0.9649579916062 \<le> sin ((0 + SEED (TERRAIN VISUAL_CONFIG)) * 12.9898
        + ((- 2) + SEED (TERRAIN VISUAL_CONFIG)) * 78.233) \<and>
      sin ((0 + SEED (TERRAIN VISUAL_CONFIG)) * 12.9898
        + ((- 2) + SEED (TERRAIN VISUAL_CONFIG)) * 78.233) \<le> - 0.9649579873249"
      unfolding th by (rule s)
  qed simp_all
  then show ?thesis by simp
qed

lemma hash_0_m1:
  "0.25583 \<le> hash VISUAL_CONFIG 0 (- 1) \<and> hash VISUAL_CONFIG 0 (- 1) \<le> 0.25601"
proof -
  define y :: real where "y = 503504.053057727995984 - 160270 * pi"
  have y: "0.9984668907499 \<le> y" "y \<le> 0.9984668926733"
    unfolding y_def using pi_lower pi_upper by simp_all
  have sy: "0.8406416522729 \<le> sin y \<and> sin y \<le> 0.8406416562959"
    by (rule sin_interval
      [where yl = "0.9984668907499" and yu = "0.9984668926733" and b = "1.6"
         and R = "0.0000000008817" and ql = "0.9969361319237" and qu = "0.9969361357647"
         and lf = "0.993609383745" and uf = "0.9936093837698" and le = "0.9909948627316"
         and ue = "0.9909948627667" and ld = "0.9862783529298" and ud = "0.9862783529833"
         and lc = "0.9765891302378" and uc = "0.9765891303293" and lb = "0.9513201503089"
         and ub = "0.9513201505011" and la = "0.8419324275473" and ua = "0.8419324281884"
         and sl = "0.8406416522729" and su = "0.8406416562959",
       OF y]) (simp_all add: power_divide)
  have red: "sin (503504.053057727995984::real) = sin y"
    unfolding y_def using sin_reduce(1) [of "503504.053057727995984" 80135] by simp
  have th: "(0 + SEED (TERRAIN VISUAL_CONFIG)) * 12.9898
      + ((- 1) + SEED (TERRAIN VISUAL_CONFIG)) * 78.233 = 503504.053057727995984"
    by (simp add: VISUAL_CONFIG_def)
  have s: "0.8406416522729 \<le> sin (503504.053057727995984::real) \<and>
      sin (503504.053057727995984::real) \<le> 0.8406416562959"
    using sy unfolding red by simp
  have "0.8406416522729 * 43758.5453123 - of_int (36785) \<le> hash VISUAL_CONFIG 0 (- 1) \<and>
      hash VISUAL_CONFIG 0 (- 1) \<le> 0.8406416562959 * 43758.5453123 - of_int (36785)"
  proof (rule hash_enclosure)
    show "0.8406416522729 \<le> sin ((0 + SEED (TERRAIN VISUAL_CONFIG)) * 12.9898
        + ((- 1) + SEED (TERRAIN VISUAL_CONFIG)) * 78.233) \<and>
      sin ((0 + SEED (TERRAIN VISUAL_CONFIG)) * 12.9898
        + ((- 1) + SEED (TERRAIN VISUAL_CONFIG)) * 78.233) \<le> 0.8406416562959"
      unfolding th by (rule s)
  qed simp_all
  then show ?thesis by simp
qed

lemma hash_0_0:
  "0.39292 \<le> hash VISUAL_CONFIG 0 0 \<and> hash VISUAL_CONFIG 0 0 \<le> 0.3931"
proof -
  define y :: real where "y = 503582.286057727995984 - 160295 * pi"
  have y: "0.6916505510049 \<le> y" "y \<le> 0.6916505529286"
    unfolding y_def using pi_lower pi_upper by simp_all
  have sy: "0.6378092942828 \<le> sin y \<and> sin y \<le> 0.6378092981272"
    by (rule sin_interval
      [where yl = "0.6916505510049" and yu = "0.6916505529286" and b = "1.6"
         and R = "0.0000000008817" and ql = "0.4783804847053" and qu = "0.4783804873665"
         and lf = "0.9969334584143" and uf = "0.9969334584314" and le = "0.9956644226025"
         and ue = "0.9956644226268" and ld = "0.9933846328923" and ud = "0.9933846329294"
         and lc = "0.9886853375037" and uc = "0.9886853375671" and lb = "0.9763516113181"
         and ub = "0.9763516114512" and la = "0.9221554067121" and ua = "0.9221554071559"
         and sl = "0.6378092942828" and su = "0.6378092981272",
       OF y]) (simp_all add: power_divide)
  have red: "sin (503582.286057727995984::real) = - sin y"
    unfolding y_def using sin_reduce(4) [of "503582.286057727995984" 80147] by simp
  have th: "(0 + SEED (TERRAIN VISUAL_CONFIG)) * 12.9898
      + (0 + SEED (TERRAIN VISUAL_CONFIG)) * 78.233 = 503582.286057727995984"
    by (simp add: VISUAL_CONFIG_def)
  have s: "- 0.6378092981272 \<le> sin (503582.286057727995984::real) \<and>
      sin (503582.286057727995984::real) \<le> - 0.6378092942828"
    using sy unfolding red by simp
  have "- 0.6378092981272 * 43758.5453123 - of_int (-27910) \<le> hash VISUAL_CONFIG 0 0 \<and>
      hash VISUAL_CONFIG 0 0 \<le> - 0.6378092942828 * 43758.5453123 - of_int (-27910)"
  proof (rule hash_enclosure)
    show "- 0.6378092981272 \<le> sin ((0 + SEED (TERRAIN VISUAL_CONFIG)) * 12.9898
        + (0 + SEED (TERRAIN VISUAL_CONFIG)) * 78.233) \<and>
      sin ((0 + SEED (TERRAIN VISUAL_CONFIG)) * 12.9898
        + (0 + SEED (TERRAIN VISUAL_CONFIG)) * 78.233) \<le> - 0.6378092942828"
      unfolding th by (rule s)
  qed simp_all
  then show ?thesis by simp
qed

lemma hash_0_1:
  "0.19761 \<le> hash VISUAL_CONFIG 0 1 \<and> hash VISUAL_CONFIG 0 1 \<le> 0.19778"
proof -
  define y :: real where "y = 503660.519057727995984 - 160320 * pi"
  have y: "0.3848342112599 \<le> y" "y \<le> 0.3848342131839"
    unfolding y_def using pi_lower pi_upper by simp_all
  have sy: "0.3754054778664 \<le> sin y \<and> sin y \<le> 0.3754054816018"
    by (rule sin_interval
      [where yl = "0.3848342112599" and yu = "0.3848342131839" and b = "1.6"
         and R = "0.0000000008817" and ql = "0.148097370156" and qu = "0.1480973716369"
         and lf = "0.9990506578741" and uf = "0.9990506578837" and le = "0.9986549383948"
         and ue = "0.9986549384084" and ld = "0.9979458587284" and ud = "0.9979458587491"
         and lc = "0.9964811152686" and uc = "0.996481115304" and lb = "0.9926211882968"
         and ub = "0.992621188371" and la = "0.9754992351618" and ua = "0.9754992354087"
         and sl = "0.3754054778664" and su = "0.3754054816018",
       OF y]) (simp_all add: power_divide)
  have red: "sin (503660.519057727995984::real) = sin y"
    unfolding y_def using sin_reduce(1) [of "503660.519057727995984" 80160] by simp
  have th: "(0 + SEED (TERRAIN VISUAL_CONFIG)) * 12.9898
      + (1 + SEED (TERRAIN VISUAL_CONFIG)) * 78.233 = 503660.519057727995984"
    by (simp add: VISUAL_CONFIG_def)
  have s: "0.3754054778664 \<le> sin (503660.519057727995984::real) \<and>
      sin (503660.519057727995984::real) \<le> 0.3754054816018"
    using sy unfolding red by simp
  have "0.3754054778664 * 43758.5453123 - of_int (16427) \<le> hash VISUAL_CONFIG 0 1 \<and>
      hash VISUAL_CONFIG 0 1 \<le> 0.3754054816018 * 43758.5453123 - of_int (16427)"
  proof (rule hash_enclosure)
    show "0.3754054778664 \<le> sin ((0 + SEED (TERRAIN VISUAL_CONFIG)) * 12.9898
        + (1 + SEED (TERRAIN VISUAL_CONFIG)) * 78.233) \<and>
      sin ((0 + SEED (TERRAIN VISUAL_CONFIG)) * 12.9898
        + (1 + SEED (TERRAIN VISUAL_CONFIG)) * 78.233) \<le> 0.3754054816018"
      unfolding th by (rule s)
  qed simp_all
  then show ?thesis by simp
qed

lemma hash_0_2:
  "0.51358 \<le> hash VISUAL_CONFIG 0 2 \<and> hash VISUAL_CONFIG 0 2 \<le> 0.51375"
proof -
  define y :: real where "y = 503738.752057727995984 - 160345 * pi"
  have y: "0.0780178715149 \<le> y" "y \<le> 0.0780178734392"
    unfolding y_def using pi_lower pi_upper by simp_all
  have sy: "0.0779387483355 \<le> sin y \<and> sin y \<le> 0.0779387520253"
    by (rule sin_interval
      [where yl = "0.0780178715149" and yu = "0.0780178734392" and b = "1.6"
         and R = "0.0000000008817" and ql = "0.0060867882757" and qu = "0.006086788576"
         and lf = "0.9999609821245" and uf = "0.9999609821265" and le = "0.9999446677174"
         and ue = "0.9999446677202" and ld = "0.9999154659474" and ud = "0.9999154659517"
         and lc = "0.9998550887134" and uc = "0.9998550887206" and lb = "0.9996957046734"
         and ub = "0.9996957046885" and la = "0.9989858439342" and ua = "0.9989858439843"
         and sl = "0.0779387483355" and su = "0.0779387520253",
       OF y]) (simp_all add: power_divide)
  have red: "sin (503738.752057727995984::real) = - sin y"
    unfolding y_def using sin_reduce(4) [of "503738.752057727995984" 80172] by simp
  have th: "(0 + SEED (TERRAIN VISUAL_CONFIG)) * 12.9898
      + (2 + SEED (TERRAIN VISUAL_CONFIG)) * 78.233 = 503738.752057727995984"
    by (simp add: VISUAL_CONFIG_def)
  have s: "- 0.0779387520253 \<le> sin (503738.752057727995984::real) \<and>
      sin (503738.752057727995984::real) \<le> - 0.0779387483355"
    using sy unfolding red by simp
  have "- 0.0779387520253 * 43758.5453123 - of_int (-3411) \<le> hash VISUAL_CONFIG 0 2 \<and>
      hash VISUAL_CONFIG 0 2 \<le> - 0.0779387483355 * 43758.5453123 - of_int (-3411)"
  proof (rule hash_enclosure)
    show "- 0.0779387520253 \<le> sin ((0 + SEED (TERRAIN VISUAL_CONFIG)) * 12.9898
        + (2 + SEED (TERRAIN VISUAL_CONFIG)) * 78.233) \<and>
      sin ((0 + SEED (TERRAIN VISUAL_CONFIG)) * 12.9898
        + (2 + SEED (TERRAIN VISUAL_CONFIG)) * 78.233) \<le> - 0.0779387483355"
      unfolding th by (rule s)
  qed simp_all
  then show ?thesis by simp
qed

lemma hash_0_4:
  "0.04178 \<le> hash VISUAL_CONFIG 0 4 \<and> hash VISUAL_CONFIG 0 4 \<le> 0.04195"
proof -
  define y :: real where "y = 160395 * pi - 503895.218057727995984"
  have y: "0.5356148060502 \<le> y" "y \<le> 0.5356148079751"
    unfolding y_def using pi_lower pi_upper by simp_all
  have sy: "0.5103698403337 \<le> sin y \<and> sin y \<le> 0.5103698441155"
    by (rule sin_interval
      [where yl = "0.5356148060502" and yu = "0.5356148079751" and b = "1.6"
         and R = "0.0000000008817" and ql = "0.2868832204601" and qu = "0.2868832225223"
         and lf = "0.9981610049838" and uf = "0.9981610049971" and le = "0.9973967668571"
         and ue = "0.997396766876" and ld = "0.9960258833525" and ud = "0.9960258833813"
         and lc = "0.9931965924966" and uc = "0.9931965925458" and lb = "0.9857534280466"
         and ub = "0.9857534281498" and la = "0.9528673133199" and ua = "0.9528673136638"
         and sl = "0.5103698403337" and su = "0.5103698441155",
       OF y]) (simp_all add: power_divide)
  have red: "sin (503895.218057727995984::real) = sin y"
    unfolding y_def using sin_reduce(2) [of "503895.218057727995984" 80197] by simp
  have th: "(0 + SEED (TERRAIN VISUAL_CONFIG)) * 12.9898
      + (4 + SEED (TERRAIN VISUAL_CONFIG)) * 78.233 = 503895.218057727995984"
    by (simp add: VISUAL_CONFIG_def)
  have s: "0.5103698403337 \<le> sin (503895.218057727995984::real) \<and>
      sin (503895.218057727995984::real) \<le> 0.5103698441155"
    using sy unfolding red by simp
  have "0.5103698403337 * 43758.5453123 - of_int (22333) \<le> hash VISUAL_CONFIG 0 4 \<and>
      hash VISUAL_CONFIG 0 4 \<le> 0.5103698441155 * 43758.5453123 - of_int (22333)"
  proof (rule hash_enclosure)
    show "0.5103698403337 \<le> sin ((0 + SEED (TERRAIN VISUAL_CONFIG)) * 12.9898
        + (4 + SEED (TERRAIN VISUAL_CONFIG)) * 78.233) \<and>
      sin ((0 + SEED (TERRAIN VISUAL_CONFIG)) * 12.9898
        + (4 + SEED (TERRAIN VISUAL_CONFIG)) * 78.233) \<le> 0.5103698441155"
      unfolding th by (rule s)
  qed simp_all
  then show ?thesis by simp
qed

lemma hash_0_5:
  "0.58957 \<le> hash VISUAL_CONFIG 0 5 \<and> hash VISUAL_CONFIG 0 5 \<le> 0.58975"
proof -
  define y :: real where "y = 160420 * pi - 503973.451057727995984"
  have y: "0.8424311457949 \<le> y" "y \<le> 0.8424311477201"
    unfolding y_def using pi_lower pi_upper by simp_all
  have sy: "0.7462636158988 \<le> sin y \<and> sin y \<le> 0.7462636198236"
    by (rule sin_interval
      [where yl = "0.8424311457949" and yu = "0.8424311477201" and b = "1.6"
         and R = "0.0000000008817" and ql = "0.7096902354053" and qu = "0.7096902386491"
         and lf = "0.9954507035984" and uf = "0.9954507036192" and le = "0.9935776213871"
         and ue = "0.9935776214167" and ld = "0.990206495288" and ud = "0.9902064953332"
         and lc = "0.9832680980003" and uc = "0.9832680980777" and lb = "0.9651092114409"
         and ub = "0.9651092116032" and la = "0.8858452355491" and ua = "0.8858452360902"
         and sl = "0.7462636158988" and su = "0.7462636198236",
       OF y]) (simp_all add: power_divide)
  have red: "sin (503973.451057727995984::real) = - sin y"
    unfolding y_def using sin_reduce(3) [of "503973.451057727995984" 80210] by simp
  have th: "(0 + SEED (TERRAIN VISUAL_CONFIG)) * 12.9898
      + (5 + SEED (TERRAIN VISUAL_CONFIG)) * 78.233 = 503973.451057727995984"
    by (simp add: VISUAL_CONFIG_def)
  have s: "- 0.7462636198236 \<le> sin (503973.451057727995984::real) \<and>
      sin (503973.451057727995984::real) \<le> - 0.7462636158988"
    using sy unfolding red by simp
  have "- 0.7462636198236 * 43758.5453123 - of_int (-32656) \<le> hash VISUAL_CONFIG 0 5 \<and>
      hash VISUAL_CONFIG 0 5 \<le> - 0.7462636158988 * 43758.5453123 - of_int (-32656)"
  proof (rule hash_enclosure)
    show "- 0.7462636198236 \<le> sin ((0 + SEED (TERRAIN VISUAL_CONFIG)) * 12.9898
        + (5 + SEED (TERRAIN VISUAL_CONFIG)) * 78.233) \<and>
      sin ((0 + SEED (TERRAIN VISUAL_CONFIG)) * 12.9898
        + (5 + SEED (TERRAIN VISUAL_CONFIG)) * 78.233) \<le> - 0.7462636158988"
      unfolding th by (rule s)
  qed simp_all
  then show ?thesis by simp
qed

subsection \<open>Elevations on the line \<open>x = 0\<close>\<close>

text \<open>
  On the line \<open>x = 0\<close> the noise interpolates between two lattice points. The five
  octaves of \<^verbatim>\<open>VISUAL_CONFIG\<close> have the frequencies \<open>0.004 * 2.1 ^ i\<close> and the amplitudes
  \<open>28 * 0.55 ^ i\<close>.
\<close>

lemma noise_x0:
  "noise c 0 tz =
     (let fz = tz - of_int \<lfloor>tz\<rfloor>; uz = fz * fz * (3 - 2 * fz)
      in hash c 0 (of_int \<lfloor>tz\<rfloor>) * (1 - uz)
         + hash c 0 (of_int \<lfloor>tz\<rfloor> + 1) * uz)"
  by (simp add: noise_def Let_def lerp_def algebra_simps)

lemma ridged_low:
  assumes "l \<le> n" "n \<le> u" "0 \<le> l" "u \<le> 1 / 2" "rl \<le> (2 * l) ^ 3"
    "(2 * u) ^ 3 \<le> ru"
  shows "rl \<le> ridged n \<and> ridged n \<le> ru"
proof -
  have "1 - \<bar>n * 2 - 1\<bar> = 2 * n" using assms by simp
  then have "ridged n = (2 * n) ^ 3" by (simp only: ridged_def)
  moreover have "(2 * l) ^ 3 \<le> (2 * n) ^ 3" using assms by (intro power_mono) simp_all
  moreover have "(2 * n) ^ 3 \<le> (2 * u) ^ 3" using assms by (intro power_mono) simp_all
  ultimately show ?thesis using assms(5,6) by simp
qed

lemma ridged_high:
  assumes "l \<le> n" "n \<le> u" "1 / 2 \<le> l" "u \<le> 1" "rl \<le> (2 - 2 * u) ^ 3"
    "(2 - 2 * l) ^ 3 \<le> ru"
  shows "rl \<le> ridged n \<and> ridged n \<le> ru"
proof -
  have "1 - \<bar>n * 2 - 1\<bar> = 2 - 2 * n" using assms by simp
  then have "ridged n = (2 - 2 * n) ^ 3" by (simp only: ridged_def)
  moreover have "(2 - 2 * u) ^ 3 \<le> (2 - 2 * n) ^ 3" using assms by (intro power_mono) simp_all
  moreover have "(2 - 2 * n) ^ 3 \<le> (2 - 2 * l) ^ 3" using assms by (intro power_mono) simp_all
  ultimately show ?thesis using assms(5,6) by simp
qed

lemma lossFunction_octaves:
  "lossFunction VISUAL_CONFIG xq zq =
     (ridged (noise VISUAL_CONFIG (xq * 0.004) (zq * 0.004)) * 28
      + ridged (noise VISUAL_CONFIG (xq * 0.0084) (zq * 0.0084)) * 15.4
      + ridged (noise VISUAL_CONFIG (xq * 0.01764) (zq * 0.01764)) * 8.47
      + ridged (noise VISUAL_CONFIG (xq * 0.037044) (zq * 0.037044)) * 4.6585
      + ridged (noise VISUAL_CONFIG (xq * 0.0777924) (zq * 0.0777924)) * 2.562175 - 12) * 3"
proof -
  have five: "(5::nat) = Suc (Suc (Suc (Suc (Suc 0))))" by simp
  have cfg: "GLOBAL_SCALE (TERRAIN VISUAL_CONFIG) = 0.008"
    "HEIGHT_MULTIPLIER (TERRAIN VISUAL_CONFIG) = 3"
    by (simp_all add: VISUAL_CONFIG_def)
  show ?thesis
    unfolding lossFunction_def five fbm.simps cfg by simp
qed

text \<open>
  The elevation at the origin is at least 50.02; at \<open>(0, 490)\<close>, \<open>(0, 280)\<close> and
  \<open>(0, 70)\<close>, the points that the visibility loop samples between the camera at
  \<open>(0, 160, 700)\<close> and the origin, it is at most 89.22, 63.53 and 48.6; at \<open>(0, -480)\<close>
  it is below \<open>-10\<close>. An octave that is not evaluated is bounded by 1.
\<close>

lemma lossFunction_0_0_lower: "50.02 \<le> lossFunction VISUAL_CONFIG 0 0"
proof -
  have n0: "0.39292 \<le> noise VISUAL_CONFIG (0 * 0.004) (0 * 0.004) \<and>
      noise VISUAL_CONFIG (0 * 0.004) (0 * 0.004) \<le> 0.3931"
    using hash_0_0 hash_0_1 by (simp add: noise_x0 Let_def)
  have r0: "0.48529 \<le> ridged (noise VISUAL_CONFIG (0 * 0.004) (0 * 0.004)) \<and>
      ridged (noise VISUAL_CONFIG (0 * 0.004) (0 * 0.004)) \<le> 0.48596"
    by (rule ridged_low [where l = "0.39292" and u = "0.3931"])
      (use n0 in \<open>simp_all add: power_divide\<close>)
  have n1: "0.39292 \<le> noise VISUAL_CONFIG (0 * 0.0084) (0 * 0.0084) \<and>
      noise VISUAL_CONFIG (0 * 0.0084) (0 * 0.0084) \<le> 0.3931"
    using hash_0_0 hash_0_1 by (simp add: noise_x0 Let_def)
  have r1: "0.48529 \<le> ridged (noise VISUAL_CONFIG (0 * 0.0084) (0 * 0.0084)) \<and>
      ridged (noise VISUAL_CONFIG (0 * 0.0084) (0 * 0.0084)) \<le> 0.48596"
    by (rule ridged_low [where l = "0.39292" and u = "0.3931"])
      (use n1 in \<open>simp_all add: power_divide\<close>)
  have n2: "0.39292 \<le> noise VISUAL_CONFIG (0 * 0.01764) (0 * 0.01764) \<and>
      noise VISUAL_CONFIG (0 * 0.01764) (0 * 0.01764) \<le> 0.3931"
    using hash_0_0 hash_0_1 by (simp add: noise_x0 Let_def)
  have r2: "0.48529 \<le> ridged (noise VISUAL_CONFIG (0 * 0.01764) (0 * 0.01764)) \<and>
      ridged (noise VISUAL_CONFIG (0 * 0.01764) (0 * 0.01764)) \<le> 0.48596"
    by (rule ridged_low [where l = "0.39292" and u = "0.3931"])
      (use n2 in \<open>simp_all add: power_divide\<close>)
  have n3: "0.39292 \<le> noise VISUAL_CONFIG (0 * 0.037044) (0 * 0.037044) \<and>
      noise VISUAL_CONFIG (0 * 0.037044) (0 * 0.037044) \<le> 0.3931"
    using hash_0_0 hash_0_1 by (simp add: noise_x0 Let_def)
  have r3: "0.48529 \<le> ridged (noise VISUAL_CONFIG (0 * 0.037044) (0 * 0.037044)) \<and>
      ridged (noise VISUAL_CONFIG (0 * 0.037044) (0 * 0.037044)) \<le> 0.48596"
    by (rule ridged_low [where l = "0.39292" and u = "0.3931"])
      (use n3 in \<open>simp_all add: power_divide\<close>)
  have n4: "0.39292 \<le> noise VISUAL_CONFIG (0 * 0.0777924) (0 * 0.0777924) \<and>
      noise VISUAL_CONFIG (0 * 0.0777924) (0 * 0.0777924) \<le> 0.3931"
    using hash_0_0 hash_0_1 by (simp add: noise_x0 Let_def)
  have r4: "0.48529 \<le> ridged (noise VISUAL_CONFIG (0 * 0.0777924) (0 * 0.0777924)) \<and>
      ridged (noise VISUAL_CONFIG (0 * 0.0777924) (0 * 0.0777924)) \<le> 0.48596"
    by (rule ridged_low [where l = "0.39292" and u = "0.3931"])
      (use n4 in \<open>simp_all add: power_divide\<close>)
  show ?thesis
    unfolding lossFunction_octaves using r0 r1 r2 r3 r4 by simp
qed

lemma lossFunction_0_490_upper: "lossFunction VISUAL_CONFIG 0 490 \<le> 89.22"
proof -
  have n0: "0.5121 \<le> noise VISUAL_CONFIG (0 * 0.004) (490 * 0.004) \<and>
      noise VISUAL_CONFIG (0 * 0.004) (490 * 0.004) \<le> 0.51228"
    using hash_0_1 hash_0_2 by (simp add: noise_x0 Let_def)
  have r0: "0.92811 \<le> ridged (noise VISUAL_CONFIG (0 * 0.004) (490 * 0.004)) \<and>
      ridged (noise VISUAL_CONFIG (0 * 0.004) (490 * 0.004)) \<le> 0.92915"
    by (rule ridged_high [where l = "0.5121" and u = "0.51228"])
      (use n0 in \<open>simp_all add: power_divide\<close>)
  have n1: "0.06218 \<le> noise VISUAL_CONFIG (0 * 0.0084) (490 * 0.0084) \<and>
      noise VISUAL_CONFIG (0 * 0.0084) (490 * 0.0084) \<le> 0.06236"
    using hash_0_4 hash_0_5 by (simp add: noise_x0 Let_def)
  have r1: "0.00192 \<le> ridged (noise VISUAL_CONFIG (0 * 0.0084) (490 * 0.0084)) \<and>
      ridged (noise VISUAL_CONFIG (0 * 0.0084) (490 * 0.0084)) \<le> 0.00195"
    by (rule ridged_low [where l = "0.06218" and u = "0.06236"])
      (use n1 in \<open>simp_all add: power_divide\<close>)
  have r2: "ridged (noise VISUAL_CONFIG (0 * 0.01764) (490 * 0.01764)) \<le> 1"
    by (rule ridged_le_one)
  have r3: "ridged (noise VISUAL_CONFIG (0 * 0.037044) (490 * 0.037044)) \<le> 1"
    by (rule ridged_le_one)
  have r4: "ridged (noise VISUAL_CONFIG (0 * 0.0777924) (490 * 0.0777924)) \<le> 1"
    by (rule ridged_le_one)
  show ?thesis
    unfolding lossFunction_octaves using r0 r1 r2 r3 r4 by simp
qed

lemma lossFunction_0_280_upper: "lossFunction VISUAL_CONFIG 0 280 \<le> 63.53"
proof -
  have n0: "0.21016 \<le> noise VISUAL_CONFIG (0 * 0.004) (280 * 0.004) \<and>
      noise VISUAL_CONFIG (0 * 0.004) (280 * 0.004) \<le> 0.21034"
    using hash_0_1 hash_0_2 by (simp add: noise_x0 Let_def)
  have r0: "0.07425 \<le> ridged (noise VISUAL_CONFIG (0 * 0.004) (280 * 0.004)) \<and>
      ridged (noise VISUAL_CONFIG (0 * 0.004) (280 * 0.004)) \<le> 0.07445"
    by (rule ridged_low [where l = "0.21016" and u = "0.21034"])
      (use n0 in \<open>simp_all add: power_divide\<close>)
  have r1: "ridged (noise VISUAL_CONFIG (0 * 0.0084) (280 * 0.0084)) \<le> 1"
    by (rule ridged_le_one)
  have r2: "ridged (noise VISUAL_CONFIG (0 * 0.01764) (280 * 0.01764)) \<le> 1"
    by (rule ridged_le_one)
  have r3: "ridged (noise VISUAL_CONFIG (0 * 0.037044) (280 * 0.037044)) \<le> 1"
    by (rule ridged_le_one)
  have r4: "ridged (noise VISUAL_CONFIG (0 * 0.0777924) (280 * 0.0777924)) \<le> 1"
    by (rule ridged_le_one)
  show ?thesis
    unfolding lossFunction_octaves using r0 r1 r2 r3 r4 by simp
qed

lemma lossFunction_0_70_upper: "lossFunction VISUAL_CONFIG 0 70 \<le> 48.6"
proof -
  have n0: "0.35555 \<le> noise VISUAL_CONFIG (0 * 0.004) (70 * 0.004) \<and>
      noise VISUAL_CONFIG (0 * 0.004) (70 * 0.004) \<le> 0.35574"
    using hash_0_0 hash_0_1 by (simp add: noise_x0 Let_def)
  have r0: "0.35957 \<le> ridged (noise VISUAL_CONFIG (0 * 0.004) (70 * 0.004)) \<and>
      ridged (noise VISUAL_CONFIG (0 * 0.004) (70 * 0.004)) \<le> 0.36016"
    by (rule ridged_low [where l = "0.35555" and u = "0.35574"])
      (use n0 in \<open>simp_all add: power_divide\<close>)
  have n1: "0.26975 \<le> noise VISUAL_CONFIG (0 * 0.0084) (70 * 0.0084) \<and>
      noise VISUAL_CONFIG (0 * 0.0084) (70 * 0.0084) \<le> 0.26993"
    using hash_0_0 hash_0_1 by (simp add: noise_x0 Let_def)
  have r1: "0.15702 \<le> ridged (noise VISUAL_CONFIG (0 * 0.0084) (70 * 0.0084)) \<and>
      ridged (noise VISUAL_CONFIG (0 * 0.0084) (70 * 0.0084)) \<le> 0.15735"
    by (rule ridged_low [where l = "0.26975" and u = "0.26993"])
      (use n1 in \<open>simp_all add: power_divide\<close>)
  have r2: "ridged (noise VISUAL_CONFIG (0 * 0.01764) (70 * 0.01764)) \<le> 1"
    by (rule ridged_le_one)
  have r3: "ridged (noise VISUAL_CONFIG (0 * 0.037044) (70 * 0.037044)) \<le> 1"
    by (rule ridged_le_one)
  have r4: "ridged (noise VISUAL_CONFIG (0 * 0.0777924) (70 * 0.0777924)) \<le> 1"
    by (rule ridged_le_one)
  show ?thesis
    unfolding lossFunction_octaves using r0 r1 r2 r3 r4 by simp
qed

lemma lossFunction_0_m480_upper: "lossFunction VISUAL_CONFIG 0 (- 480) \<le> - 10.69"
proof -
  have n0: "0.83133 \<le> noise VISUAL_CONFIG (0 * 0.004) ((- 480) * 0.004) \<and>
      noise VISUAL_CONFIG (0 * 0.004) ((- 480) * 0.004) \<le> 0.83154"
    using hash_0_m2 hash_0_m1 by (simp add: noise_x0 Let_def)
  have r0: "0.03824 \<le> ridged (noise VISUAL_CONFIG (0 * 0.004) ((- 480) * 0.004)) \<and>
      ridged (noise VISUAL_CONFIG (0 * 0.004) ((- 480) * 0.004)) \<le> 0.03839"
    by (rule ridged_high [where l = "0.83133" and u = "0.83154"])
      (use n0 in \<open>simp_all add: power_divide\<close>)
  have n1: "0.27425 \<le> noise VISUAL_CONFIG (0 * 0.0084) ((- 480) * 0.0084) \<and>
      noise VISUAL_CONFIG (0 * 0.0084) ((- 480) * 0.0084) \<le> 0.27445"
    using hash_0_m5 hash_0_m4 by (simp add: noise_x0 Let_def)
  have r1: "0.16501 \<le> ridged (noise VISUAL_CONFIG (0 * 0.0084) ((- 480) * 0.0084)) \<and>
      ridged (noise VISUAL_CONFIG (0 * 0.0084) ((- 480) * 0.0084)) \<le> 0.16538"
    by (rule ridged_low [where l = "0.27425" and u = "0.27445"])
      (use n1 in \<open>simp_all add: power_divide\<close>)
  have n2: "0.67865 \<le> noise VISUAL_CONFIG (0 * 0.01764) ((- 480) * 0.01764) \<and>
      noise VISUAL_CONFIG (0 * 0.01764) ((- 480) * 0.01764) \<le> 0.67884"
    using hash_0_m9 hash_0_m8 by (simp add: noise_x0 Let_def)
  have r2: "0.265 \<le> ridged (noise VISUAL_CONFIG (0 * 0.01764) ((- 480) * 0.01764)) \<and>
      ridged (noise VISUAL_CONFIG (0 * 0.01764) ((- 480) * 0.01764)) \<le> 0.26548"
    by (rule ridged_high [where l = "0.67865" and u = "0.67884"])
      (use n2 in \<open>simp_all add: power_divide\<close>)
  have n3: "0.95212 \<le> noise VISUAL_CONFIG (0 * 0.037044) ((- 480) * 0.037044) \<and>
      noise VISUAL_CONFIG (0 * 0.037044) ((- 480) * 0.037044) \<le> 0.9523"
    using hash_0_m18 hash_0_m17 by (simp add: noise_x0 Let_def)
  have r3: "0.00086 \<le> ridged (noise VISUAL_CONFIG (0 * 0.037044) ((- 480) * 0.037044)) \<and>
      ridged (noise VISUAL_CONFIG (0 * 0.037044) ((- 480) * 0.037044)) \<le> 0.00088"
    by (rule ridged_high [where l = "0.95212" and u = "0.9523"])
      (use n3 in \<open>simp_all add: power_divide\<close>)
  have r4: "ridged (noise VISUAL_CONFIG (0 * 0.0777924) ((- 480) * 0.0777924)) \<le> 1"
    by (rule ridged_le_one)
  show ?thesis
    unfolding lossFunction_octaves using r0 r1 r2 r3 r4 by simp
qed


section \<open>The wave scheduler over ticks\<close>


lemma spawnLoop_all_miss:
  assumes "\<And>j. draws inp j = None"
  shows "spawnLoop c inp t i k s = Some s"
proof (induction "nat (t - i)" arbitrary: i k)
  case 0
  then have "\<not> i < t" by simp
  then show ?case by (subst spawnLoop_unfold) simp
next
  case (Suc n)
  then have lt: "i < t" and n: "n = nat (t - (i + 1))" by simp_all
  have "judge c inp k = Skip" by (simp add: judge_miss assms)
  with lt Suc(1) [OF n] show ?case by (subst spawnLoop_unfold) simp
qed

lemma spawnPhase_all_miss:
  assumes "\<And>j. draws inp j = None"
  shows "spawnPhase c inp s = Some s"
  by (simp add: spawnPhase_def spawnLoop_all_miss [OF assms])

lemma spawnPhase_idle: "spawnQueue s \<le> 0 \<Longrightarrow> spawnPhase c inp s = Some s"
  by (simp add: spawnPhase_def)








section \<open>The physics update of a tick\<close>


text \<open>Under the side conditions of the configuration no step of the tick leaves the
  finite numbers: every sample of the gradient, every update of a particle and the
  opacity are finite.\<close>

lemma gradient_finite:
  assumes res: "2 \<le> RESOLUTION c"
    and w: "WIDTH (TERRAIN c) \<noteq> 0" and d: "DEPTH (TERRAIN c) \<noteq> 0"
    and len: "\<forall>gm. mapRef = Some gm \<longrightarrow>
        length (dxMap gm) = RESOLUTION c * RESOLUTION c \<and>
        length (dzMap gm) = RESOLUTION c * RESOLUTION c"
  shows "\<exists>gdx gdz. gradient c mapRef xq zq = (Some gdx, Some gdz)"
proof (cases mapRef)
  case None
  then show ?thesis by (simp add: gradient_def)
next
  case (Some gm)
  from w have wx: "MAX_X c - MIN_X c \<noteq> 0" by (simp add: MAX_X_def MIN_X_def)
  from d have dz: "MAX_Z c - MIN_Z c \<noteq> 0" by (simp add: MAX_Z_def MIN_Z_def)
  obtain gx where gx: "toGrid c (MIN_X c) (MAX_X c) xq = Some gx"
    using toGrid_finite [OF wx] by blast
  obtain gz where gz: "toGrid c (MIN_Z c) (MAX_Z c) zq = Some gz"
    using toGrid_finite [OF dz] by blast
  from len Some have lx: "length (dxMap gm) = RESOLUTION c * RESOLUTION c"
    and lz: "length (dzMap gm) = RESOLUTION c * RESOLUTION c" by simp_all
  obtain gdx where gdx: "sample c gx gz (dxMap gm) = Some gdx"
    using sample_finite [OF res lx] by blast
  obtain gdz where gdz: "sample c gx gz (dzMap gm) = Some gdz"
    using sample_finite [OF res lz] by blast
  show ?thesis by (simp add: gradient_def Some gx gz gdx gdz)
qed

lemma updateParticle_total:
  assumes res: "2 \<le> RESOLUTION c"
    and w: "WIDTH (TERRAIN c) \<noteq> 0" and d: "DEPTH (TERRAIN c) \<noteq> 0"
    and pw: "0 < SCALE_DISTRIBUTION_POWER (PARTICLES c)"
    and len: "\<forall>gm. mapRef = Some gm \<longrightarrow>
        length (dxMap gm) = RESOLUTION c * RESOLUTION c \<and>
        length (dzMap gm) = RESOLUTION c * RESOLUTION c"
  shows "updateParticle c fs q mapRef p \<noteq> NotFinite"
proof (cases "isFading p")
  case True
  then show ?thesis by (simp add: updateParticle_fading)
next
  case False
  define p2 where "p2 = p\<lparr>age := age p + 1\<rparr>"
  have live2: "\<not> isFading p2" using False by (simp add: p2_def)
  obtain gdx gdz where g: "gradient c mapRef (posX p2) (posZ p2) = (Some gdx, Some gdz)"
    using gradient_finite [OF res w d len] by blast
  have "\<exists>p3. (if q = 0 then physics c fs mapRef p2 else Some p2) = Some p3 \<and> \<not> isFading p3"
    using live2 g by (cases "q = 0") (simp_all add: physics_def Let_def)
  then obtain p3 where
    p3: "(if q = 0 then physics c fs mapRef p2 else Some p2) = Some p3"
    and live3: "\<not> isFading p3"
    by blast
  obtain fin where "finalScale c p3 = Some fin"
    using finalScale_finite [OF pw] by blast
  then obtain p4 where p4: "rescale c p3 = Some p4"
    using live3 by (simp add: rescale_def Let_def)
  have "updateParticle c fs q mapRef p = Kept p4"
  proof (cases "q = 0")
    case True
    with p3 have "physics c fs mapRef p2 = Some p3" by simp
    with True False p4 show ?thesis
      by (simp add: updateParticle_def Let_def p2_def)
  next
    case q: False
    with p3 have "p3 = p2" by simp
    with q False p4 show ?thesis
      by (simp add: updateParticle_def Let_def p2_def)
  qed
  then show ?thesis by simp
qed

lemma stepAll_total:
  assumes "\<And>p. updateParticle c fs q mapRef p \<noteq> NotFinite"
  shows "\<exists>ps'. stepAll c fs q mapRef ps = Some ps'"
proof (induction ps)
  case Nil
  then show ?case by simp
next
  case (Cons p ps)
  then obtain ps' where "stepAll c fs q mapRef ps = Some ps'" by blast
  with assms [of p] show ?case
    by (cases "updateParticle c fs q mapRef p") simp_all
qed

lemma waveTransitions_gradientMap:
  "gradientMap (waveTransitions c inp t s) = gradientMap s"
  by (simp add: waveTransitions_def endWave_def startSwell_def releaseWave_def Let_def)

lemma opacitySync_finite:
  "SWELL_TIME (WAVES c) \<noteq> 0 \<Longrightarrow> \<exists>v. opacitySync c t s = Some v"
  by (simp add: opacitySync_def jdiv_def)

lemma beforeParticles_total:
  assumes spawn: "spawnQueue s \<le> 0 \<or>
      (\<exists>n. min (spawnQueue s) (BATCH_SIZE (WAVES c)) \<le> int (settledDraws c inp 0 n))"
    and sw: "SWELL_TIME (WAVES c) \<noteq> 0"
  shows "\<exists>s2. beforeParticles c inp s = Done s2 \<and> gradientMap s2 = gradientMap s"
proof -
  define s0 where "s0 = advanceClock inp s"
  have q0: "spawnQueue s0 = spawnQueue s" and g0: "gradientMap s0 = gradientMap s"
    by (simp_all add: s0_def advanceClock_def Let_def)
  have "\<exists>s1. spawnPhase c inp s0 = Some s1 \<and> gradientMap s1 = gradientMap s0"
  proof (cases "spawnQueue s \<le> 0")
    case True
    then show ?thesis by (simp add: spawnPhase_idle q0)
  next
    case False
    with spawn obtain n where
      "min (spawnQueue s) (BATCH_SIZE (WAVES c)) - 0 \<le> int (settledDraws c inp 0 n)"
      by auto
    from spawnLoop_returns [OF this] obtain s1 where
      s1: "spawnLoop c inp (min (spawnQueue s) (BATCH_SIZE (WAVES c))) 0 0 s0 = Some s1"
      by blast
    from spawnLoop_result [OF s1] have "gradientMap s1 = gradientMap s0" by auto
    with s1 False show ?thesis by (simp add: spawnPhase_def q0)
  qed
  then obtain s1 where s1: "spawnPhase c inp s0 = Some s1"
    and g1: "gradientMap s1 = gradientMap s0" by blast
  define s2 where "s2 = waveTransitions c inp (timeRef s0) s1"
  obtain v where v: "opacitySync c (timeRef s0) s2 = Some v"
    using opacitySync_finite [OF sw] by blast
  have "beforeParticles c inp s = Done (s2\<lparr> wireframeOpacity := v \<rparr>)"
    unfolding beforeParticles_def s0_def [symmetric] Let_def
    by (simp add: s1 s2_def [symmetric] v)
  moreover have "gradientMap (s2\<lparr> wireframeOpacity := v \<rparr>) = gradientMap s"
    by (simp add: s2_def waveTransitions_gradientMap g1 g0)
  ultimately show ?thesis by blast
qed

text \<open>
  Claim C2. Take a configuration with a gradient map of resolution at least 2, a terrain
  of non-zero width and depth, a positive \<^verbatim>\<open>SCALE_DISTRIBUTION_POWER\<close> and a non-zero
  \<^verbatim>\<open>SWELL_TIME\<close>, a state whose gradient map is \<^verbatim>\<open>null\<close> or has arrays of
  \<open>RESOLUTION * RESOLUTION\<close> entries, and a tick whose spawn loop returns (the queue is
  empty, or the draws of the tick hold enough draws that are not retried). Then the tick
  returns. Let \<open>s2\<close> be the state when the particle loop starts. If the spawn queue is
  zero there, then every particle that is not fading there is kept and has, after the
  tick, the velocity \<open>v * MOMENTUM - gradient * LEARNING_RATE * frameScale\<close> (the momentum
  factor is not scaled) and the position \<open>pos + v * frameScale\<close> with the new velocity,
  where the gradient is sampled at the old position and \<open>frameScale\<close> is the one value
  \<open>frameScaleOf inp s\<close> of the tick, the same for every particle.
\<close>

theorem physics_update:
  assumes res: "2 \<le> RESOLUTION c"
    and w: "WIDTH (TERRAIN c) \<noteq> 0" and d: "DEPTH (TERRAIN c) \<noteq> 0"
    and pw: "0 < SCALE_DISTRIBUTION_POWER (PARTICLES c)"
    and sw: "SWELL_TIME (WAVES c) \<noteq> 0"
    and len: "\<forall>gm. gradientMap s = Some gm \<longrightarrow>
        length (dxMap gm) = RESOLUTION c * RESOLUTION c \<and>
        length (dzMap gm) = RESOLUTION c * RESOLUTION c"
    and spawn: "spawnQueue s \<le> 0 \<or>
      (\<exists>n. min (spawnQueue s) (BATCH_SIZE (WAVES c)) \<le> int (settledDraws c inp 0 n))"
  shows "\<exists>s2 s'. beforeParticles c inp s = Done s2 \<and> animate c inp s = Done s' \<and>
     spawnQueue s' = spawnQueue s2 \<and>
     (spawnQueue s2 = 0 \<longrightarrow>
        (\<forall>p \<in> set (particles s2). \<not> isFading p \<longrightarrow>
           (\<exists>gdx gdz p'.
              gradient c (gradientMap s2) (posX p) (posZ p) = (Some gdx, Some gdz) \<and>
              updateParticle c (frameScaleOf inp s) 0 (gradientMap s2) p = Kept p' \<and>
              p' \<in> set (particles s') \<and>
              vx p' = vx p * MOMENTUM (PHYSICS c)
                        - gdx * LEARNING_RATE (PHYSICS c) * frameScaleOf inp s \<and>
              vz p' = vz p * MOMENTUM (PHYSICS c)
                        - gdz * LEARNING_RATE (PHYSICS c) * frameScaleOf inp s \<and>
              posX p' = posX p + vx p' * frameScaleOf inp s \<and>
              posZ p' = posZ p + vz p' * frameScaleOf inp s \<and>
              age p' = age p + 1 \<and> \<not> isFading p')))"
proof -
  from beforeParticles_total [OF spawn sw] obtain s2 where
    bp: "beforeParticles c inp s = Done s2" and gm: "gradientMap s2 = gradientMap s"
    by blast
  from len gm have len2: "\<forall>m. gradientMap s2 = Some m \<longrightarrow>
        length (dxMap m) = RESOLUTION c * RESOLUTION c \<and>
        length (dzMap m) = RESOLUTION c * RESOLUTION c" by simp
  have tot: "updateParticle c (frameScaleOf inp s) (spawnQueue s2) (gradientMap s2) p \<noteq> NotFinite"
    for p by (rule updateParticle_total [OF res w d pw len2])
  from stepAll_total [of c "frameScaleOf inp s" "spawnQueue s2" "gradientMap s2" "particles s2"] tot
  obtain ps' where
    st: "stepAll c (frameScaleOf inp s) (spawnQueue s2) (gradientMap s2) (particles s2) = Some ps'"
    by blast
  define s' where "s' = s2\<lparr> particles := ps' \<rparr>"
  have run: "animate c inp s = Done s'"
    by (simp add: animate_def bp particleLoop_stepAll st s'_def)
  have q: "spawnQueue s' = spawnQueue s2" and ps: "particles s' = ps'"
    by (simp_all add: s'_def)
  have "\<exists>gdx gdz p'.
      gradient c (gradientMap s2) (posX p) (posZ p) = (Some gdx, Some gdz) \<and>
      updateParticle c (frameScaleOf inp s) 0 (gradientMap s2) p = Kept p' \<and>
      p' \<in> set (particles s') \<and>
      vx p' = vx p * MOMENTUM (PHYSICS c) - gdx * LEARNING_RATE (PHYSICS c) * frameScaleOf inp s \<and>
      vz p' = vz p * MOMENTUM (PHYSICS c) - gdz * LEARNING_RATE (PHYSICS c) * frameScaleOf inp s \<and>
      posX p' = posX p + vx p' * frameScaleOf inp s \<and>
      posZ p' = posZ p + vz p' * frameScaleOf inp s \<and>
      age p' = age p + 1 \<and> \<not> isFading p'"
    if zero: "spawnQueue s2 = 0" and p: "p \<in> set (particles s2)" and live: "\<not> isFading p" for p
  proof -
    from stepAll_forward [OF st p] live obtain p' where
      k: "updateParticle c (frameScaleOf inp s) (spawnQueue s2) (gradientMap s2) p = Kept p'"
      and mem: "p' \<in> set ps'"
      by (auto simp: updateParticle_Removed_iff)
    from updateParticle_live [OF k [unfolded zero] live] mem k [unfolded zero] ps
    show ?thesis by blast
  qed
  with bp run q show ?thesis by blast
qed

lemma gradient_tiny_origin: "gradient tinyConfig (Some tinyMap) 0 0 = (Some 0.5, Some 0.5)"
  by (simp add: gradient_def toGrid_def jdiv_def sample_def cell0_def cellFrac_def clamp_def
      aget_def bilinear_def tinyConfig_def tinyMap_def VISUAL_CONFIG_def RESOLUTION_def
      MIN_X_def MAX_X_def MIN_Z_def MAX_Z_def Let_def)


lemma gradient_tiny_corner:
  "gradient tinyConfig (Some tinyMap) 1000 (- 1000) = (Some 1, Some 0)"
  by (simp add: gradient_def toGrid_def jdiv_def sample_def cell0_def cellFrac_def clamp_def
      aget_def bilinear_def tinyConfig_def tinyMap_def VISUAL_CONFIG_def RESOLUTION_def
      MIN_X_def MAX_X_def MIN_Z_def MAX_Z_def Let_def)

lemma beforeParticles_movingSim:
  "beforeParticles tinyConfig tick30 movingSim =
     Done (movingSim\<lparr> lastFrameTime := 10033.2, timeRef := 10.0332 \<rparr>)"
  by (simp add: beforeParticles_def advanceClock_def spawnPhase_def waveTransitions_def
      endWave_def startSwell_def releaseWave_def opacitySync_def allParticlesStopped_def
      speed_def movingSim_def tick30_def liveParticle_def cornerParticle_def tinyConfig_def
      VISUAL_CONFIG_def Let_def)

theorem physics_update_witness:
  "\<exists>s' p' q'. animate tinyConfig tick30 movingSim = Done s' \<and>
     p' \<in> set (particles s') \<and> q' \<in> set (particles s') \<and>
     vx p' = 1 * 0.92 - 0.5 * 0.002 * 2 \<and> vz p' = 0 * 0.92 - 0.5 * 0.002 * 2 \<and>
     posX p' = 0 + vx p' * 2 \<and> posZ p' = 0 + vz p' * 2 \<and> age p' = 8 \<and>
     vx q' = 0 * 0.92 - 1 * 0.002 * 2 \<and> vz q' = 2 * 0.92 - 0 * 0.002 * 2 \<and>
     posX q' = 1000 + vx q' * 2 \<and> posZ q' = - 1000 + vz q' * 2 \<and> age q' = 41"
proof -
  have fs: "frameScaleOf tick30 movingSim = 2"
    by (simp add: frameScaleOf_def tick30_def movingSim_def)
  have cfg: "MOMENTUM (PHYSICS tinyConfig) = 0.92" "LEARNING_RATE (PHYSICS tinyConfig) = 0.002"
    by (simp_all add: tinyConfig_def VISUAL_CONFIG_def)
  have hyp: "2 \<le> RESOLUTION tinyConfig" "WIDTH (TERRAIN tinyConfig) \<noteq> 0"
    "DEPTH (TERRAIN tinyConfig) \<noteq> 0" "0 < SCALE_DISTRIBUTION_POWER (PARTICLES tinyConfig)"
    "SWELL_TIME (WAVES tinyConfig) \<noteq> 0"
    by (simp_all add: tinyConfig_def VISUAL_CONFIG_def RESOLUTION_def)
  have len: "\<forall>gm. gradientMap movingSim = Some gm \<longrightarrow>
        length (dxMap gm) = RESOLUTION tinyConfig * RESOLUTION tinyConfig \<and>
        length (dzMap gm) = RESOLUTION tinyConfig * RESOLUTION tinyConfig"
    by (simp add: movingSim_def tinyMap_def tinyConfig_def VISUAL_CONFIG_def RESOLUTION_def)
  have idle: "spawnQueue movingSim \<le> 0 \<or>
      (\<exists>n. min (spawnQueue movingSim) (BATCH_SIZE (WAVES tinyConfig))
              \<le> int (settledDraws tinyConfig tick30 0 n))"
    by (simp add: movingSim_def)
  define s2 where "s2 = movingSim\<lparr> lastFrameTime := 10033.2, timeRef := 10.0332 \<rparr>"
  have s2: "spawnQueue s2 = 0" "gradientMap s2 = Some tinyMap"
    "liveParticle \<in> set (particles s2)" "cornerParticle \<in> set (particles s2)"
    by (simp_all add: s2_def movingSim_def)
  have live: "\<not> isFading liveParticle" "\<not> isFading cornerParticle"
    by (simp_all add: liveParticle_def cornerParticle_def)
  have g1: "gradient tinyConfig (Some tinyMap) (posX liveParticle) (posZ liveParticle)
             = (Some 0.5, Some 0.5)"
    by (simp add: liveParticle_def gradient_tiny_origin)
  have g2: "gradient tinyConfig (Some tinyMap) (posX cornerParticle) (posZ cornerParticle)
             = (Some 1, Some 0)"
    by (simp add: cornerParticle_def gradient_tiny_corner)
  from physics_update [OF hyp len idle]
  obtain s' where run: "animate tinyConfig tick30 movingSim = Done s'"
    and all: "\<forall>p \<in> set (particles s2). \<not> isFading p \<longrightarrow>
           (\<exists>gdx gdz p'.
              gradient tinyConfig (Some tinyMap) (posX p) (posZ p) = (Some gdx, Some gdz) \<and>
              p' \<in> set (particles s') \<and>
              vx p' = vx p * 0.92 - gdx * 0.002 * 2 \<and>
              vz p' = vz p * 0.92 - gdz * 0.002 * 2 \<and>
              posX p' = posX p + vx p' * 2 \<and>
              posZ p' = posZ p + vz p' * 2 \<and>
              age p' = age p + 1)"
    unfolding beforeParticles_movingSim s2_def [symmetric] fs cfg
    by (simp add: s2) blast
  from all [rule_format, OF s2(3) live(1)] obtain ax az p' where
    p0: "gradient tinyConfig (Some tinyMap) (posX liveParticle) (posZ liveParticle)
           = (Some ax, Some az)"
    and p': "p' \<in> set (particles s')"
    "vx p' = vx liveParticle * 0.92 - ax * 0.002 * 2"
    "vz p' = vz liveParticle * 0.92 - az * 0.002 * 2"
    "posX p' = posX liveParticle + vx p' * 2" "posZ p' = posZ liveParticle + vz p' * 2"
    "age p' = age liveParticle + 1"
    by blast
  from p0 have a: "ax = 0.5" "az = 0.5" by (simp_all add: g1)
  from all [rule_format, OF s2(4) live(2)] obtain bx bz q' where
    q0: "gradient tinyConfig (Some tinyMap) (posX cornerParticle) (posZ cornerParticle)
           = (Some bx, Some bz)"
    and q': "q' \<in> set (particles s')"
    "vx q' = vx cornerParticle * 0.92 - bx * 0.002 * 2"
    "vz q' = vz cornerParticle * 0.92 - bz * 0.002 * 2"
    "posX q' = posX cornerParticle + vx q' * 2" "posZ q' = posZ cornerParticle + vz q' * 2"
    "age q' = age cornerParticle + 1"
    by blast
  from q0 have b: "bx = 1" "bz = 0" by (simp_all add: g2)
  have "p' \<in> set (particles s') \<and> q' \<in> set (particles s') \<and>
     vx p' = 1 * 0.92 - 0.5 * 0.002 * 2 \<and> vz p' = 0 * 0.92 - 0.5 * 0.002 * 2 \<and>
     posX p' = 0 + vx p' * 2 \<and> posZ p' = 0 + vz p' * 2 \<and> age p' = 8 \<and>
     vx q' = 0 * 0.92 - 1 * 0.002 * 2 \<and> vz q' = 2 * 0.92 - 0 * 0.002 * 2 \<and>
     posX q' = 1000 + vx q' * 2 \<and> posZ q' = - 1000 + vz q' * 2 \<and> age q' = 41"
    using p' q' by (simp add: a b liveParticle_def cornerParticle_def)
  with run show ?thesis by blast
qed


section \<open>The wave cycle\<close>


lemma spawnPhase_result:
  assumes "spawnPhase c inp s = Some s'"
  shows "\<exists>new lw. s' = s\<lparr> particles := particles s @ new,
                      spawnQueue := spawnQueue s - int (length new),
                      lastWaveTime := lw \<rparr> \<and> list_all freshParticle new"
proof (cases "spawnQueue s > 0")
  case True
  with assms have "spawnLoop c inp (min (spawnQueue s) (BATCH_SIZE (WAVES c))) 0 0 s = Some s'"
    by (simp add: spawnPhase_def)
  from spawnLoop_result [OF this] show ?thesis by blast
next
  case False
  with assms have "s' = s\<lparr> particles := particles s @ [],
                      spawnQueue := spawnQueue s - int (length ([]::particle list)),
                      lastWaveTime := lastWaveTime s \<rparr>"
    by (simp add: spawnPhase_def)
  moreover have "list_all freshParticle []" by simp
  ultimately show ?thesis by blast
qed



lemma animate_missTick_empty:
  assumes "particles s = []"
  shows "animate c (missTick t) s =
     (let s0 = advanceClock (missTick t) s;
          s2 = waveTransitions c (missTick t) (timeRef s0) s0
      in case opacitySync c (timeRef s0) s2 of
           None \<Rightarrow> NonFinite
         | Some opacity \<Rightarrow> Done (s2\<lparr> wireframeOpacity := opacity, particles := [] \<rparr>))"
proof -
  have sp: "spawnPhase c (missTick t) s0 = Some s0" for s0
    by (rule spawnPhase_all_miss) (simp add: missTick_def)
  have "particles (waveTransitions c (missTick t) u (advanceClock (missTick t) s)) = []" for u
    using assms
    by (simp add: waveTransitions_def endWave_def startSwell_def releaseWave_def
        advanceClock_def Let_def)
  then show ?thesis
    by (simp add: animate_def beforeParticles_def sp Let_def split: option.splits)
qed

lemma VISUAL_CONFIG_groups:
  "WAVES VISUAL_CONFIG =
     \<lparr> FIRST_WAVE_DELAY = 1.0, PARTICLES_PER_WAVE = 1000, BATCH_SIZE = 20,
       MAX_WAVE_INTERVAL = 15.0, SWELL_TIME = 2.0, MAX_SWELL_OPACITY = 0.22,
       FLASH_DECAY = 0.15, VELOCITY_THRESHOLD = 0.001, FADE_OUT_SPEED = 0.02,
       BUFFER_TIME = 1.0, MIN_SPAWN_HEIGHT = 0.0 \<rparr>"
  "WIREFRAME_OPACITY (TERRAIN VISUAL_CONFIG) = 0.07"
  by (simp_all add: VISUAL_CONFIG_def)

lemmas tick_defs = advanceClock_def waveTransitions_def endWave_def startSwell_def
  releaseWave_def opacitySync_def allParticlesStopped_def jdiv_def lerp_def Let_def





text \<open>
  Claim C6 does not hold of the code: the state-entry time that the transition from
  \<^verbatim>\<open>ACTIVE\<close> to \<^verbatim>\<open>WAITING\<close> stores is \<^verbatim>\<open>performance.now() / 1000\<close>, and the test for the
  end of the buffer compares it with \<open>timeRef\<close>, which started at zero when the component
  was mounted. On a page mounted 5 seconds after the time origin, the wave below ends at
  the clock reading 30 seconds (\<open>timeRef = 25\<close>); 1.5 seconds later, with the buffer time
  of 1 second long over, the scheduler is still \<^verbatim>\<open>WAITING\<close>.
\<close>

theorem buffer_measured_on_two_clocks:
  "runTicks VISUAL_CONFIG [missTick 30000] endingSim =
     Done (endingSim\<lparr> timeRef := 25, lastFrameTime := 30000, waveState := WAITING,
            stateStartTime := 30,
            particles := [settledParticle\<lparr> isFading := True, age := 201,
                                            meshScale := 0.9604 \<rparr>] \<rparr>) \<and>
   runTicks VISUAL_CONFIG [missTick 30000, missTick 31500] endingSim =
     Done (endingSim\<lparr> timeRef := 26.5, lastFrameTime := 31500, waveState := WAITING,
            stateStartTime := 30,
            particles := [settledParticle\<lparr> isFading := True, age := 202,
                                            meshScale := 0.92236816 \<rparr>] \<rparr>)"
  by (simp add: animate_def beforeParticles_def spawnPhase_def tick_defs speed_def
      updateParticle_def fadeShrink_def rescale_def endingSim_def settledParticle_def
      missTick_def VISUAL_CONFIG_def)

section \<open>Removal of particles and the unused lifespan\<close>


lemma stepAll_survivors:
  "stepAll c fs q gm ps = Some ps' \<Longrightarrow>
     map Kept ps' = filter (\<lambda>r. r \<noteq> Removed) (map (updateParticle c fs q gm) ps)"
  by (induction ps arbitrary: ps') (auto split: pstep.splits)

lemma beforeParticles_particles:
  assumes "beforeParticles c inp s = Done s2"
  shows "\<exists>s1 new. spawnPhase c inp (advanceClock inp s) = Some s1 \<and>
     particles s1 = particles s @ new \<and> list_all freshParticle new \<and>
     particles s2 =
       (if waveState s = ACTIVE \<and> spawnQueue s1 = 0 \<and>
           (allParticlesStopped c s1 \<or>
            nowActive inp / 1000 - lastWaveTime s1 > MAX_WAVE_INTERVAL (WAVES c))
        then map (\<lambda>p. p\<lparr> isFading := True \<rparr>) (particles s1)
        else particles s1)"
proof -
  from assms obtain s1 where sp: "spawnPhase c inp (advanceClock inp s) = Some s1"
    by (auto simp: beforeParticles_def Let_def split: option.splits)
  from spawnPhase_result [OF sp] obtain new where
    new: "particles s1 = particles s @ new" "list_all freshParticle new"
    "waveState s1 = waveState s"
    by (auto simp: advanceClock_def Let_def)
  from assms sp new(3) have "particles s2 =
       (if waveState s = ACTIVE \<and> spawnQueue s1 = 0 \<and>
           (allParticlesStopped c s1 \<or>
            nowActive inp / 1000 - lastWaveTime s1 > MAX_WAVE_INTERVAL (WAVES c))
        then map (\<lambda>p. p\<lparr> isFading := True \<rparr>) (particles s1)
        else particles s1)"
    by (auto simp: beforeParticles_def Let_def waveTransitions_def endWave_def startSwell_def
        releaseWave_def split: option.splits)
  with sp new show ?thesis by blast
qed

lemma allParticlesStopped_speed:
  "allParticlesStopped c s \<Longrightarrow>
     list_all (\<lambda>p. isFading p \<or> speed p < VELOCITY_THRESHOLD (WAVES c)) (particles s)"
  by (auto simp: allParticlesStopped_def Let_def list_all_iff)

text \<open>Nothing reads \<^verbatim>\<open>MAX_AGE\<close>.\<close>

lemma sameButMaxAge_setMaxAge: "sameButMaxAge (setMaxAge m c) c"
  by (simp add: sameButMaxAge_def setMaxAge_def)

lemma sameButMaxAge_lossFunction:
  "sameButMaxAge c' c \<Longrightarrow> lossFunction c' = lossFunction c"
  by (rule lossFunction_cong) (simp_all add: sameButMaxAge_def)

lemma sameButMaxAge_lineOfSight:
  "sameButMaxAge c' c \<Longrightarrow> lineOfSight c' cam hx hz rh t = lineOfSight c cam hx hz rh t"
proof (induction c cam hx hz rh t rule: lineOfSight.induct)
  case (1 c cam hx hz rh t)
  note lf = sameButMaxAge_lossFunction [OF 1(2)]
  have L: "lineOfSight c' cam hx hz rh t =
     (if t < 1.0 then
        (if lossFunction c (lerp (fst cam) hx t) (lerp (snd (snd cam)) hz t)
              > lerp (fst (snd cam)) rh t + 2.0 then False
         else lineOfSight c' cam hx hz rh (t + 0.3))
      else True)"
    by (subst lineOfSight.simps) (simp only: Let_def lf)
  have R: "lineOfSight c cam hx hz rh t =
     (if t < 1.0 then
        (if lossFunction c (lerp (fst cam) hx t) (lerp (snd (snd cam)) hz t)
              > lerp (fst (snd cam)) rh t + 2.0 then False
         else lineOfSight c cam hx hz rh (t + 0.3))
      else True)"
    by (subst lineOfSight.simps) (simp only: Let_def)
  show ?case
  proof (cases "t < 1.0 \<and> \<not> lossFunction c (lerp (fst cam) hx t) (lerp (snd (snd cam)) hz t)
        > lerp (fst (snd cam)) rh t + 2.0")
    case True
    then have "lineOfSight c' cam hx hz rh (t + 0.3) = lineOfSight c cam hx hz rh (t + 0.3)"
      using 1(2) by (intro 1(1)) auto
    then show ?thesis by (simp only: L R)
  next
    case False
    then show ?thesis by (simp only: L R) auto
  qed
qed


lemma sameButMaxAge_judge:
  assumes "sameButMaxAge c' c"
  shows "judge c' inp k = judge c inp k"
proof -
  have w: "WAVES c' = WAVES c" and ib: "inBounds c' = inBounds c"
    using assms by (auto simp: sameButMaxAge_def inBounds_def fun_eq_iff)
  note lf = sameButMaxAge_lossFunction [OF assms]
  have los: "lineOfSight c' = lineOfSight c"
    by (intro ext) (rule sameButMaxAge_lineOfSight [OF assms])
  show ?thesis unfolding judge_def w ib lf los by (rule refl)
qed

lemma spawnLoop_judge_le:
  "spawnLoop c' inp t i k s = Some s' \<Longrightarrow> (\<And>j. judge c' inp j = judge c inp j) \<Longrightarrow>
     spawnLoop c inp t i k s = Some s'"
proof (induction rule: spawnLoop_induct)
  case (step spawnLoop' c' inp t i k s s')
  note j = step(3)
  show ?case
  proof (cases "i < t")
    case False
    with step(2) show ?thesis by (subst spawnLoop_unfold) simp
  next
    case True
    show ?thesis
    proof (cases "judge c' inp k")
      case Skip
      with True step(2) have "spawnLoop' c' inp t (i + 1) (Suc k) s = Some s'"
        by (auto simp: judge_def split: option.splits if_splits)
      from step(1) [OF this j] True Skip show ?thesis
        by (subst spawnLoop_unfold) (simp add: j [symmetric])
    next
      case Retry
      with True step(2) have "spawnLoop' c' inp t i (Suc k) s = Some s'"
        by (auto simp: judge_def split: option.splits if_splits)
      from step(1) [OF this j] True Retry show ?thesis
        by (subst spawnLoop_unfold) (simp add: j [symmetric])
    next
      case Place
      let ?s1 = "placeParticle inp (fst (the (draws inp k))) (snd (the (draws inp k))) s"
      from Place True step(2) have "spawnLoop' c' inp t (i + 1) (Suc k) ?s1 = Some s'"
        by (auto simp: judge_def split: option.splits if_splits)
      from step(1) [OF this j] True Place show ?thesis
        by (subst spawnLoop_unfold) (simp add: j [symmetric])
    qed
  qed
qed

lemma sameButMaxAge_sym: "sameButMaxAge c' c \<Longrightarrow> sameButMaxAge c c'"
  by (simp add: sameButMaxAge_def)

lemma sameButMaxAge_spawnLoop:
  assumes "sameButMaxAge c' c"
  shows "spawnLoop c' inp t i k s = spawnLoop c inp t i k s"
proof (cases "spawnLoop c' inp t i k s")
  case (Some s')
  from spawnLoop_judge_le [OF this] sameButMaxAge_judge [OF assms] Some show ?thesis by simp
next
  case None
  show ?thesis
  proof (cases "spawnLoop c inp t i k s")
    case (Some s')
    from spawnLoop_judge_le [OF this] sameButMaxAge_judge [OF sameButMaxAge_sym [OF assms]]
    have "spawnLoop c' inp t i k s = Some s'" by simp
    with None show ?thesis by simp
  next
    case n: None
    with None show ?thesis by simp
  qed
qed

lemma sameButMaxAge_gradient:
  assumes "sameButMaxAge c' c"
  shows "gradient c' gm xq zq = gradient c gm xq zq"
proof -
  have r: "RESOLUTION c' = RESOLUTION c"
    and b: "MIN_X c' = MIN_X c" "MAX_X c' = MAX_X c" "MIN_Z c' = MIN_Z c" "MAX_Z c' = MAX_Z c"
    using assms
    by (simp_all add: sameButMaxAge_def RESOLUTION_def MIN_X_def MAX_X_def MIN_Z_def MAX_Z_def)
  have g: "toGrid c' = toGrid c"
    by (intro ext) (simp add: toGrid_def r)
  have c0: "cell0 c' = cell0 c"
    by (intro ext) (simp add: cell0_def r)
  have cf: "cellFrac c' = cellFrac c"
    by (intro ext) (simp add: cellFrac_def c0)
  have sm: "sample c' = sample c"
    unfolding sample_def c0 cf r by (rule refl)
  show ?thesis unfolding gradient_def g b sm by (rule refl)
qed

lemma sameButMaxAge_updateParticle:
  assumes "sameButMaxAge c' c"
  shows "updateParticle c' fs q gm p = updateParticle c fs q gm p"
proof -
  have w: "WAVES c' = WAVES c" and pa: "PARTICLES c' = PARTICLES c"
    and ph: "LEARNING_RATE (PHYSICS c') = LEARNING_RATE (PHYSICS c)"
      "MOMENTUM (PHYSICS c') = MOMENTUM (PHYSICS c)"
    using assms by (simp_all add: sameButMaxAge_def)
  note lf = sameButMaxAge_lossFunction [OF assms]
  have gr: "gradient c' gm = gradient c gm"
    by (intro ext) (rule sameButMaxAge_gradient [OF assms])
  have fade: "fadeShrink c' = fadeShrink c"
    unfolding fadeShrink_def w by (rule refl)
  have phys: "physics c' fs gm = physics c fs gm"
    unfolding physics_def gr ph by (rule refl)
  have fin: "finalScale c' = finalScale c"
    unfolding finalScale_def lf pa by (rule refl)
  have resc: "rescale c' = rescale c"
    unfolding rescale_def fade fin by (rule refl)
  show ?thesis
    unfolding updateParticle_def fade phys resc by (rule refl)
qed

lemma sameButMaxAge_stepAll:
  "sameButMaxAge c' c \<Longrightarrow> stepAll c' fs q gm ps = stepAll c fs q gm ps"
  by (induction ps) (simp_all add: sameButMaxAge_updateParticle cong: pstep.case_cong)

lemma sameButMaxAge_beforeParticles:
  assumes "sameButMaxAge c' c"
  shows "beforeParticles c' inp s = beforeParticles c inp s"
proof -
  have w: "WAVES c' = WAVES c" and t: "TERRAIN c' = TERRAIN c"
    using assms by (simp_all add: sameButMaxAge_def)
  have sp: "spawnPhase c' inp = spawnPhase c inp"
    by (intro ext) (simp add: spawnPhase_def sameButMaxAge_spawnLoop [OF assms] w)
  have st: "allParticlesStopped c' = allParticlesStopped c"
    by (intro ext) (simp add: allParticlesStopped_def w)
  have wt: "waveTransitions c' inp = waveTransitions c inp"
    by (intro ext)
      (simp add: waveTransitions_def endWave_def startSwell_def releaseWave_def st w)
  have op: "opacitySync c' = opacitySync c"
    by (intro ext) (simp add: opacitySync_def w t)
  show ?thesis unfolding beforeParticles_def sp wt op by (rule refl)
qed

lemma sameButMaxAge_animate:
  assumes "sameButMaxAge c' c"
  shows "animate c' inp s = animate c inp s"
  unfolding animate_def particleLoop_stepAll sameButMaxAge_beforeParticles [OF assms]
    sameButMaxAge_stepAll [OF assms]
  by (rule refl)

text \<open>
  Claim C10. The body of the particle loop removes a particle exactly when it is fading
  and its scale, after the shrink of the tick, is below 0.01: the age plays no part in
  it. Every particle that stays has its age raised by one and keeps its fading flag,
  whatever its phase. After a tick the list holds exactly the updates of the particles
  that were not removed in this way, in their order; before the loop the tick only
  appends fresh particles and, when a wave ends, sets the fading flag of all of them,
  and a wave ends on stopped particles only if every live particle is slower than the
  velocity threshold. \<^verbatim>\<open>PHYSICS.MAX_AGE\<close> is read nowhere: a tick under another
  \<^verbatim>\<open>MAX_AGE\<close> gives the same result.
\<close>

theorem removal_only_by_fading:
  "(updateParticle c fs q gm p = Removed \<longleftrightarrow>
      isFading p \<and> meshScale p * (1 - FADE_OUT_SPEED (WAVES c)) < 0.01) \<and>
   (updateParticle c fs q gm (p\<lparr> age := a \<rparr>) = Removed \<longleftrightarrow>
      updateParticle c fs q gm p = Removed) \<and>
   (\<forall>p'. updateParticle c fs q gm p = Kept p' \<longrightarrow>
      age p' = age p + 1 \<and> isFading p' = isFading p) \<and>
   (\<forall>s'. animate c inp s = Done s' \<longrightarrow>
      (\<exists>s2. beforeParticles c inp s = Done s2 \<and>
            map Kept (particles s') =
              filter (\<lambda>r. r \<noteq> Removed)
                (map (updateParticle c (frameScaleOf inp s) (spawnQueue s2) (gradientMap s2))
                   (particles s2)))) \<and>
   (\<forall>s2. beforeParticles c inp s = Done s2 \<longrightarrow>
      (\<exists>s1 new. spawnPhase c inp (advanceClock inp s) = Some s1 \<and>
         particles s1 = particles s @ new \<and> list_all freshParticle new \<and>
         particles s2 =
           (if waveState s = ACTIVE \<and> spawnQueue s1 = 0 \<and>
               (allParticlesStopped c s1 \<or>
                nowActive inp / 1000 - lastWaveTime s1 > MAX_WAVE_INTERVAL (WAVES c))
            then map (\<lambda>p. p\<lparr> isFading := True \<rparr>) (particles s1)
            else particles s1))) \<and>
   (allParticlesStopped c s \<longrightarrow>
      list_all (\<lambda>p. isFading p \<or> speed p < VELOCITY_THRESHOLD (WAVES c)) (particles s)) \<and>
   animate (setMaxAge m c) inp s = animate c inp s"
proof (intro conjI allI impI)
  show "updateParticle c fs q gm p = Removed \<longleftrightarrow>
      isFading p \<and> meshScale p * (1 - FADE_OUT_SPEED (WAVES c)) < 0.01"
    by (rule updateParticle_Removed_iff)
  show "updateParticle c fs q gm (p\<lparr> age := a \<rparr>) = Removed \<longleftrightarrow>
      updateParticle c fs q gm p = Removed"
    by (simp add: updateParticle_Removed_iff)
  show "animate (setMaxAge m c) inp s = animate c inp s"
    by (rule sameButMaxAge_animate) (rule sameButMaxAge_setMaxAge)
next
  fix p' assume "updateParticle c fs q gm p = Kept p'"
  from updateParticle_Kept_fields [OF this]
  show "age p' = age p + 1" "isFading p' = isFading p" by simp_all
next
  fix s' assume "animate c inp s = Done s'"
  from animate_Done [OF this] obtain s2 where
    "beforeParticles c inp s = Done s2"
    "stepAll c (frameScaleOf inp s) (spawnQueue s2) (gradientMap s2) (particles s2)
       = Some (particles s')"
    by blast
  then show "\<exists>s2. beforeParticles c inp s = Done s2 \<and>
            map Kept (particles s') =
              filter (\<lambda>r. r \<noteq> Removed)
                (map (updateParticle c (frameScaleOf inp s) (spawnQueue s2) (gradientMap s2))
                   (particles s2))"
    using stepAll_survivors by blast
next
  fix s2 assume "beforeParticles c inp s = Done s2"
  then show "\<exists>s1 new. spawnPhase c inp (advanceClock inp s) = Some s1 \<and>
         particles s1 = particles s @ new \<and> list_all freshParticle new \<and>
         particles s2 =
           (if waveState s = ACTIVE \<and> spawnQueue s1 = 0 \<and>
               (allParticlesStopped c s1 \<or>
                nowActive inp / 1000 - lastWaveTime s1 > MAX_WAVE_INTERVAL (WAVES c))
            then map (\<lambda>p. p\<lparr> isFading := True \<rparr>) (particles s1)
            else particles s1)"
    by (rule beforeParticles_particles)
next
  assume "allParticlesStopped c s"
  then show "list_all (\<lambda>p. isFading p \<or> speed p < VELOCITY_THRESHOLD (WAVES c)) (particles s)"
    by (rule allParticlesStopped_speed)
qed

theorem removal_only_by_fading_witness:
  "updateParticle VISUAL_CONFIG 1 0 None oldParticle \<noteq> Removed \<and>
   animate (setMaxAge 5 VISUAL_CONFIG) tick60 waitingSim = animate VISUAL_CONFIG tick60 waitingSim"
proof -
  note inst = removal_only_by_fading [of VISUAL_CONFIG 1 0 None oldParticle 0 tick60 waitingSim 5]
  have "updateParticle VISUAL_CONFIG 1 0 None oldParticle \<noteq> Removed"
    using inst [THEN conjunct1] by (simp add: oldParticle_def)
  moreover have "animate (setMaxAge 5 VISUAL_CONFIG) tick60 waitingSim
      = animate VISUAL_CONFIG tick60 waitingSim"
    by (rule inst [THEN conjunct2, THEN conjunct2, THEN conjunct2, THEN conjunct2,
          THEN conjunct2, THEN conjunct2])
  ultimately show ?thesis by (rule conjI)
qed
section \<open>Termination and batch size of the spawn loop\<close>


text \<open>The state of the first release is the state of the run from the mount after the
  ticks at 1.1 and 3.2 seconds.\<close>

lemma firstWave_reached:
  "runTicks VISUAL_CONFIG [missTick 1100, missTick 3200] (initialSim VISUAL_CONFIG 0)
     = Done firstWave"
proof -
  define S0 where "S0 = initialSim VISUAL_CONFIG 0"
  define S1 where "S1 = S0\<lparr> timeRef := 1.1, lastFrameTime := 1100, waveState := SWELLING,
    stateStartTime := 1.1 \<rparr>"
  define S2 where "S2 = S0\<lparr> timeRef := 3.2, lastFrameTime := 3200, waveState := ACTIVE,
    stateStartTime := 1.1, spawnQueue := 1000, wireframeOpacity := 0.1975 \<rparr>"
  have a1: "animate VISUAL_CONFIG (missTick 1100) S0 = Done S1"
    by (subst animate_missTick_empty)
      (simp_all add: S0_def S1_def initialSim_def tick_defs missTick_def VISUAL_CONFIG_groups)
  have a2: "animate VISUAL_CONFIG (missTick 3200) S1 = Done S2"
    by (subst animate_missTick_empty)
      (simp_all add: S0_def S1_def S2_def initialSim_def tick_defs missTick_def
        VISUAL_CONFIG_groups)
  have "runTicks VISUAL_CONFIG [missTick 1100, missTick 3200] S0 = Done S2"
    by (simp add: a1 a2)
  then show ?thesis by (simp add: S0_def S2_def firstWave_def)
qed

text \<open>
  The verdicts on the two sites. The site \<open>(0, -480)\<close> is inside the terrain and below
  the minimum spawn height 0. The origin is above it, and none of the three points that
  the visibility loop samples, at \<open>t = 0.3\<close>, \<open>0.6\<close> and \<open>0.9\<close>, rises more than 2 above
  the line from the camera to the site.
\<close>

lemma judge_low:
  assumes "draws inp k = Some (0, - 480)"
  shows "judge VISUAL_CONFIG inp k = Retry"
proof -
  have "lossFunction VISUAL_CONFIG 0 (- 480) < MIN_SPAWN_HEIGHT (WAVES VISUAL_CONFIG)"
    using lossFunction_0_m480_upper by (simp add: VISUAL_CONFIG_def)
  moreover have "inBounds VISUAL_CONFIG 0 (- 480)"
    by (simp add: inBounds_def VISUAL_CONFIG_def)
  ultimately show ?thesis by (simp add: judge_def assms)
qed

lemma lineOfSight_origin:
  "lineOfSight VISUAL_CONFIG (0, 160, 700) 0 0 (lossFunction VISUAL_CONFIG 0 0) 0.3"
proof -
  define rh where "rh = lossFunction VISUAL_CONFIG 0 0"
  have rh: "50.02 \<le> rh" using lossFunction_0_0_lower by (simp add: rh_def)
  have l4: "lineOfSight VISUAL_CONFIG (0, 160, 700) 0 0 rh 1.2"
    by (subst lineOfSight.simps) simp
  have "0.9 + 0.3 = (1.2::real)" by simp
  with l4 have l3: "lineOfSight VISUAL_CONFIG (0, 160, 700) 0 0 rh 0.9"
    using rh lossFunction_0_70_upper
    by (subst lineOfSight.simps) (simp add: lerp_def Let_def)
  have "0.6 + 0.3 = (0.9::real)" by simp
  with l3 have l2: "lineOfSight VISUAL_CONFIG (0, 160, 700) 0 0 rh 0.6"
    using rh lossFunction_0_280_upper
    by (subst lineOfSight.simps) (simp add: lerp_def Let_def)
  have "0.3 + 0.3 = (0.6::real)" by simp
  with l2 have "lineOfSight VISUAL_CONFIG (0, 160, 700) 0 0 rh 0.3"
    using rh lossFunction_0_490_upper
    by (subst lineOfSight.simps) (simp add: lerp_def Let_def)
  then show ?thesis by (simp only: rh_def)
qed

lemma judge_origin:
  assumes "draws inp k = Some (0, 0)" and "camPos inp = (0, 160, 700)"
  shows "judge VISUAL_CONFIG inp k = Place"
proof -
  have "\<not> lossFunction VISUAL_CONFIG 0 0 < MIN_SPAWN_HEIGHT (WAVES VISUAL_CONFIG)"
    using lossFunction_0_0_lower by (simp add: VISUAL_CONFIG_def)
  moreover have "inBounds VISUAL_CONFIG 0 0"
    by (simp add: inBounds_def VISUAL_CONFIG_def)
  ultimately show ?thesis
    using lineOfSight_origin by (simp add: judge_def assms)
qed

lemma judge_outside:
  assumes "draws inp k = Some (2000, 0)"
  shows "judge VISUAL_CONFIG inp k = Skip"
  by (simp add: judge_def assms inBounds_def VISUAL_CONFIG_def)

text \<open>
  Claim C7 does not hold of the code as it is stated: a site that is rejected for its
  height (or for being hidden) is tried again in the same tick, and nothing bounds the
  number of tries. The runs below are runs of \<^verbatim>\<open>VISUAL_CONFIG\<close> from the state of the
  first release, which the run from the mount reaches at 3.2 seconds. The site
  \<open>(0, -480)\<close> is below the minimum spawn height. In the tick whose first 25 rays hit
  there, five more than the batch has slots, the spawn loop goes on to the next rays and
  still fills all 20 slots of the batch in this tick: no slot is left to a later tick.
  In the tick whose every ray hits there, the spawn loop never returns, and neither
  does the tick.
\<close>

theorem rejected_sites_retried_within_tick:
  "runTicks VISUAL_CONFIG [missTick 1100, missTick 3200] (initialSim VISUAL_CONFIG 0)
     = Done firstWave \<and>
   lossFunction VISUAL_CONFIG 0 (- 480) < MIN_SPAWN_HEIGHT (WAVES VISUAL_CONFIG) \<and>
   spawnPhase VISUAL_CONFIG retryTick firstWave =
     Some (firstWave\<lparr> particles := replicate 20
                         \<lparr> posX = 0, posZ = 0, vx = 0, vz = 0, age = 0, isFading = False,
                           meshScale = 1 \<rparr>,
                      spawnQueue := 980 \<rparr>) \<and>
   spawnPhase VISUAL_CONFIG lowTick firstWave = None \<and>
   animate VISUAL_CONFIG lowTick firstWave = Hangs"
proof -
  have low: "lossFunction VISUAL_CONFIG 0 (- 480) < MIN_SPAWN_HEIGHT (WAVES VISUAL_CONFIG)"
    using lossFunction_0_m480_upper by (simp add: VISUAL_CONFIG_def)
  have q: "spawnQueue firstWave = 1000" "particles firstWave = []"
    by (simp_all add: firstWave_def initialSim_def)
  have batch: "BATCH_SIZE (WAVES VISUAL_CONFIG) = 20" by (simp add: VISUAL_CONFIG_def)
  have r: "\<forall>j. 0 \<le> j \<and> j < 0 + 25 \<longrightarrow> judge VISUAL_CONFIG retryTick j = Retry"
    by (simp add: judge_low retryTick_def)
  have p: "\<forall>j. 25 \<le> j \<and> j < 25 + 20 \<longrightarrow>
      judge VISUAL_CONFIG retryTick j = Place \<and> draws retryTick j = Some (0, 0)"
    by (simp add: judge_origin retryTick_def)
  define S where "S = firstWave\<lparr> particles := replicate 20
                         \<lparr> posX = 0, posZ = 0, vx = 0, vz = 0, age = 0, isFading = False,
                           meshScale = 1 \<rparr>,
                      spawnQueue := 980 \<rparr>"
  have e1: "spawnLoop VISUAL_CONFIG retryTick 20 0 0 firstWave
      = spawnLoop VISUAL_CONFIG retryTick 20 0 (0 + 25) firstWave"
    by (rule spawnLoop_retries [OF r]) simp
  have e2: "spawnLoop VISUAL_CONFIG retryTick 20 0 25 firstWave
      = spawnLoop VISUAL_CONFIG retryTick 20 (0 + int 20) (25 + 20)
       (firstWave\<lparr> particles := particles firstWave @ replicate 20
               \<lparr> posX = 0, posZ = - 0, vx = 0, vz = 0, age = 0, isFading = False,
                 meshScale = 1 \<rparr>,
           spawnQueue := spawnQueue firstWave - int 20 \<rparr>)"
    by (rule spawnLoop_places [OF p]) (simp_all add: q)
  have e3: "spawnLoop VISUAL_CONFIG retryTick 20 20 45 S = Some S"
    by (subst spawnLoop_unfold) simp
  from e1 e2 e3 have "spawnLoop VISUAL_CONFIG retryTick 20 0 0 firstWave = Some S"
    by (simp add: q S_def)
  then have retry: "spawnPhase VISUAL_CONFIG retryTick firstWave =
     Some (firstWave\<lparr> particles := replicate 20
                         \<lparr> posX = 0, posZ = 0, vx = 0, vz = 0, age = 0, isFading = False,
                           meshScale = 1 \<rparr>,
                      spawnQueue := 980 \<rparr>)"
    by (simp add: spawnPhase_def q batch S_def)
  have "spawnLoop VISUAL_CONFIG lowTick 20 0 0 s = None" for s
    by (rule spawnLoop_diverges) (simp_all add: judge_low lowTick_def)
  then have sp: "spawnPhase VISUAL_CONFIG lowTick s = None" if "spawnQueue s = 1000" for s
    using that by (simp add: spawnPhase_def batch)
  have hang: "spawnPhase VISUAL_CONFIG lowTick firstWave = None"
    by (rule sp) (simp add: q)
  have "spawnPhase VISUAL_CONFIG lowTick (advanceClock lowTick firstWave) = None"
    by (rule sp) (simp add: q advanceClock_def)
  then have "animate VISUAL_CONFIG lowTick firstWave = Hangs"
    by (simp add: animate_def beforeParticles_def Let_def)
  with firstWave_reached low retry hang show ?thesis by simp
qed

text \<open>
  Claim C7, amended. The spawn phase of a tick returns exactly when the queue is empty
  or the draws of the tick hold as many draws that are not retried as the batch has
  slots, \<open>min(queue, BATCH_SIZE)\<close>. When it returns it has appended at most that many
  fresh particles and taken as many off the queue. A draw that misses the ground plane
  or the terrain uses up its slot and places nothing; a draw rejected for its height or
  its visibility leaves the slot to the next draw of the same tick.
\<close>

theorem spawn_batch:
  "(spawnPhase c inp s \<noteq> None \<longleftrightarrow>
      spawnQueue s \<le> 0 \<or>
      (\<exists>n. min (spawnQueue s) (BATCH_SIZE (WAVES c)) \<le> int (settledDraws c inp 0 n))) \<and>
   (\<forall>s'. spawnPhase c inp s = Some s' \<longrightarrow>
      (\<exists>new. particles s' = particles s @ new \<and>
             int (length new) \<le> max 0 (min (spawnQueue s) (BATCH_SIZE (WAVES c))) \<and>
             spawnQueue s' = spawnQueue s - int (length new) \<and>
             list_all freshParticle new)) \<and>
   (\<forall>(t::int) i k. i < t \<and> judge c inp k = Skip \<longrightarrow>
      spawnLoop c inp t i k s = spawnLoop c inp t (i + 1) (Suc k) s) \<and>
   (\<forall>(t::int) i k. i < t \<and> judge c inp k = Retry \<longrightarrow>
      spawnLoop c inp t i k s = spawnLoop c inp t i (Suc k) s)"
proof (intro conjI allI impI)
  let ?t = "min (spawnQueue s) (BATCH_SIZE (WAVES c))"
  show "spawnPhase c inp s \<noteq> None \<longleftrightarrow>
      spawnQueue s \<le> 0 \<or> (\<exists>n. ?t \<le> int (settledDraws c inp 0 n))"
  proof (cases "spawnQueue s \<le> 0")
    case True
    then show ?thesis by (simp add: spawnPhase_def)
  next
    case False
    have "spawnLoop c inp ?t 0 0 s \<noteq> None \<longleftrightarrow> (\<exists>n. ?t \<le> int (settledDraws c inp 0 n))"
      using spawnLoop_returns [of ?t 0 c inp 0 _ s] spawnLoop_needs_settled [of c inp ?t 0 0 s]
      by auto
    with False show ?thesis by (simp add: spawnPhase_def)
  qed
next
  fix s'
  assume ret: "spawnPhase c inp s = Some s'"
  show "\<exists>new. particles s' = particles s @ new \<and>
             int (length new) \<le> max 0 (min (spawnQueue s) (BATCH_SIZE (WAVES c))) \<and>
             spawnQueue s' = spawnQueue s - int (length new) \<and>
             list_all freshParticle new"
  proof (cases "spawnQueue s \<le> 0")
    case True
    with ret have "s' = s" by (simp add: spawnPhase_def)
    then have "particles s' = particles s @ [] \<and>
             int (length ([]::particle list)) \<le> max 0 (min (spawnQueue s) (BATCH_SIZE (WAVES c))) \<and>
             spawnQueue s' = spawnQueue s - int (length ([]::particle list)) \<and>
             list_all freshParticle []"
      by simp
    then show ?thesis by blast
  next
    case False
    with ret have "spawnLoop c inp (min (spawnQueue s) (BATCH_SIZE (WAVES c))) 0 0 s = Some s'"
      by (simp add: spawnPhase_def)
    from spawnLoop_result [OF this] obtain new lw where
      "s' = s\<lparr> particles := particles s @ new,
                spawnQueue := spawnQueue s - int (length new), lastWaveTime := lw \<rparr>"
      "int (length new) \<le> max 0 (min (spawnQueue s) (BATCH_SIZE (WAVES c)) - 0)"
      "list_all freshParticle new"
      by blast
    then have "particles s' = particles s @ new \<and>
             int (length new) \<le> max 0 (min (spawnQueue s) (BATCH_SIZE (WAVES c))) \<and>
             spawnQueue s' = spawnQueue s - int (length new) \<and>
             list_all freshParticle new"
      by simp
    then show ?thesis by blast
  qed
next
  fix t i :: int and k
  assume "i < t \<and> judge c inp k = Skip"
  then show "spawnLoop c inp t i k s = spawnLoop c inp t (i + 1) (Suc k) s"
    by (subst spawnLoop_unfold) simp
next
  fix t i :: int and k
  assume "i < t \<and> judge c inp k = Retry"
  then show "spawnLoop c inp t i k s = spawnLoop c inp t i (Suc k) s"
    by (subst spawnLoop_unfold) simp
qed

text \<open>
  The amended claim on a tick of \<^verbatim>\<open>VISUAL_CONFIG\<close> with a rejected site, a miss, a hit
  outside the terrain and hits at the origin: the first slot is tried again with the
  second ray, the miss and the hit outside use up the first two slots, and the other 18
  slots are filled.
\<close>

theorem spawn_batch_witness:
  "spawnPhase VISUAL_CONFIG mixedTick firstWave =
     Some (firstWave\<lparr> particles := replicate 18
                         \<lparr> posX = 0, posZ = 0, vx = 0, vz = 0, age = 0, isFading = False,
                           meshScale = 1 \<rparr>,
                      spawnQueue := 982 \<rparr>) \<and>
   20 \<le> int (settledDraws VISUAL_CONFIG mixedTick 0 21) \<and>
   (\<exists>s' new. spawnPhase VISUAL_CONFIG mixedTick firstWave = Some s' \<and>
      particles s' = particles firstWave @ new \<and> int (length new) \<le> 20 \<and>
      spawnQueue s' = 1000 - int (length new) \<and> list_all freshParticle new) \<and>
   judge VISUAL_CONFIG mixedTick 0 = Retry \<and>
   spawnLoop VISUAL_CONFIG mixedTick 20 0 0 firstWave
     = spawnLoop VISUAL_CONFIG mixedTick 20 0 1 firstWave \<and>
   judge VISUAL_CONFIG mixedTick 1 = Skip \<and>
   spawnLoop VISUAL_CONFIG mixedTick 20 0 1 firstWave
     = spawnLoop VISUAL_CONFIG mixedTick 20 1 2 firstWave \<and>
   judge VISUAL_CONFIG mixedTick 2 = Skip \<and>
   spawnLoop VISUAL_CONFIG mixedTick 20 1 2 firstWave
     = spawnLoop VISUAL_CONFIG mixedTick 20 2 3 firstWave"
proof -
  note sb = spawn_batch [of VISUAL_CONFIG mixedTick firstWave]
  have q: "spawnQueue firstWave = 1000" "particles firstWave = []"
    by (simp_all add: firstWave_def initialSim_def)
  have batch: "BATCH_SIZE (WAVES VISUAL_CONFIG) = 20" by (simp add: VISUAL_CONFIG_def)
  have j0: "judge VISUAL_CONFIG mixedTick 0 = Retry"
    by (rule judge_low) (simp add: mixedTick_def)
  have j1: "judge VISUAL_CONFIG mixedTick 1 = Skip"
    by (rule judge_miss) (simp add: mixedTick_def)
  have j2: "judge VISUAL_CONFIG mixedTick 2 = Skip"
    by (rule judge_outside) (simp add: mixedTick_def)
  have j3: "judge VISUAL_CONFIG mixedTick j = Place" if "3 \<le> j" for j
    by (rule judge_origin) (use that in \<open>simp_all add: mixedTick_def\<close>)
  have settled: "judge VISUAL_CONFIG mixedTick j \<noteq> Retry" if "Suc 0 \<le> j" for j
  proof (cases "3 \<le> j")
    case True
    then show ?thesis by (simp add: j3)
  next
    case False
    with that have "j = 1 \<or> j = 2" by auto
    then show ?thesis using j1 j2 by auto
  qed
  have "settledDraws VISUAL_CONFIG mixedTick 0 21
      = settledDraws VISUAL_CONFIG mixedTick (Suc 0) 20"
    using settledDraws_Suc [of VISUAL_CONFIG mixedTick 0 20] by (simp add: j0)
  also have "\<dots> = 20"
    unfolding settledDraws_def
    by (subst filter_True) (auto simp: settled)
  finally have n21: "20 \<le> int (settledDraws VISUAL_CONFIG mixedTick 0 21)" by simp
  then have ex: "\<exists>n. min (spawnQueue firstWave) (BATCH_SIZE (WAVES VISUAL_CONFIG))
      \<le> int (settledDraws VISUAL_CONFIG mixedTick 0 n)"
    unfolding q batch by (intro exI [of _ 21]) simp
  from sb ex have ret: "spawnPhase VISUAL_CONFIG mixedTick firstWave \<noteq> None" by blast
  then obtain s' where s': "spawnPhase VISUAL_CONFIG mixedTick firstWave = Some s'" by blast
  with sb obtain new where
    "particles s' = particles firstWave @ new \<and>
     int (length new) \<le> max 0 (min (spawnQueue firstWave) (BATCH_SIZE (WAVES VISUAL_CONFIG))) \<and>
     spawnQueue s' = spawnQueue firstWave - int (length new) \<and> list_all freshParticle new"
    by blast
  then have shape: "\<exists>s' new. spawnPhase VISUAL_CONFIG mixedTick firstWave = Some s' \<and>
      particles s' = particles firstWave @ new \<and> int (length new) \<le> 20 \<and>
      spawnQueue s' = 1000 - int (length new) \<and> list_all freshParticle new"
    using s' by (auto simp: q batch)
  from sb j0 have "spawnLoop VISUAL_CONFIG mixedTick 20 0 0 firstWave
     = spawnLoop VISUAL_CONFIG mixedTick 20 0 (Suc 0) firstWave"
    by simp
  then have e0: "spawnLoop VISUAL_CONFIG mixedTick 20 0 0 firstWave
     = spawnLoop VISUAL_CONFIG mixedTick 20 0 1 firstWave"
    by simp
  from sb j1 have "spawnLoop VISUAL_CONFIG mixedTick 20 0 1 firstWave
     = spawnLoop VISUAL_CONFIG mixedTick 20 (0 + 1) (Suc 1) firstWave"
    by simp
  then have e1: "spawnLoop VISUAL_CONFIG mixedTick 20 0 1 firstWave
     = spawnLoop VISUAL_CONFIG mixedTick 20 1 2 firstWave"
    by (simp add: numeral_2_eq_2)
  from sb j2 have "spawnLoop VISUAL_CONFIG mixedTick 20 1 2 firstWave
     = spawnLoop VISUAL_CONFIG mixedTick 20 (1 + 1) (Suc 2) firstWave"
    by simp
  then have e2: "spawnLoop VISUAL_CONFIG mixedTick 20 1 2 firstWave
     = spawnLoop VISUAL_CONFIG mixedTick 20 2 3 firstWave"
    by (simp add: numeral_3_eq_3)
  define S where "S = firstWave\<lparr> particles := replicate 18
                         \<lparr> posX = 0, posZ = 0, vx = 0, vz = 0, age = 0, isFading = False,
                           meshScale = 1 \<rparr>,
                      spawnQueue := 982 \<rparr>"
  have d3: "draws mixedTick j = Some (0, 0)" if "3 \<le> j" for j
    using that by (simp add: mixedTick_def)
  have p: "\<forall>j. 3 \<le> j \<and> j < 3 + 18 \<longrightarrow>
      judge VISUAL_CONFIG mixedTick j = Place \<and> draws mixedTick j = Some (0, 0)"
    using j3 d3 by blast
  have e3: "spawnLoop VISUAL_CONFIG mixedTick 20 2 3 firstWave
      = spawnLoop VISUAL_CONFIG mixedTick 20 (2 + int 18) (3 + 18)
       (firstWave\<lparr> particles := particles firstWave @ replicate 18
               \<lparr> posX = 0, posZ = - 0, vx = 0, vz = 0, age = 0, isFading = False,
                 meshScale = 1 \<rparr>,
           spawnQueue := spawnQueue firstWave - int 18 \<rparr>)"
    by (rule spawnLoop_places [OF p]) (simp_all add: q)
  have e4: "spawnLoop VISUAL_CONFIG mixedTick 20 20 21 S = Some S"
    by (subst spawnLoop_unfold) simp
  from e0 e1 e2 e3 e4 have "spawnLoop VISUAL_CONFIG mixedTick 20 0 0 firstWave = Some S"
    by (simp add: q S_def)
  then have run: "spawnPhase VISUAL_CONFIG mixedTick firstWave = Some S"
    by (simp add: spawnPhase_def q batch)
  from run n21 shape j0 e0 j1 e1 j2 e2 show ?thesis
    unfolding S_def by blast
qed

end
